(* ===== verification/Prelude.thy ===== *)
theory Prelude
  imports Complex_Main "HOL-Library.AList" "HOL-Library.Char_ord"
    "HOL-Library.List_Lexorder" "HOL-Library.Product_Lexorder" "HOL-Library.Sublist"
    "HOL-Library.Multiset"
begin

text \<open>
  What every component of the orchestrator model shares.

  \<^item> Python's exceptions as the values of \<open>py_error\<close>; a call that may raise
    returns \<open>py_error + 'a\<close>, \<open>Inl\<close> for the exception.
  \<^item> Python's \<open>dict\<close> as an association list in insertion order: \<open>AList.update\<close>
    keeps the position of an existing key and appends a new one, as \<open>d[k] = v\<close> does;
    \<open>AList.delete\<close> is \<open>d.pop(k, None)\<close>; \<open>map_of\<close> is \<open>d.get\<close>.
  \<^item> \<open>max(xs, key=f)\<close> and \<open>min(xs, key=f)\<close>, which return the first of equals.
  \<^item> Floats are \<open>rat\<close>: the arithmetic of the code is exact in the model. Where a float
    may be infinite (the age of a job with no readable timestamp) the type says so.
  \<^item> The collections \<open>py_simps\<close> (evaluation of the string and dict operations) and
    \<open>frame_simps\<close> (what an operation leaves unchanged).
\<close>

named_theorems py_simps "evaluation rules of the Python primitives"
named_theorems frame_simps "fields and entries an operation leaves unchanged"

section \<open>Exceptions\<close>

datatype py_error =
    ValueError string
  | TypeError string
  | KeyError string
  | IndexError
  | RuntimeError string
  | OSError string
  | OverflowError string
  | ZeroDivisionError string
  | AttributeError string
  | DatabaseError int string  \<comment> \<open>a driver error with its code and message\<close>
  | GitHubRateLimitError rat string  \<comment> \<open>\<open>retry_at_epoch\<close>, \<open>reason\<close>\<close>
  | SystemExit int

type_synonym 'a result = "py_error + 'a"

definition bind_result :: "'a result \<Rightarrow> ('a \<Rightarrow> 'b result) \<Rightarrow> 'b result" where
  "bind_result r f = (case r of Inl e \<Rightarrow> Inl e | Inr x \<Rightarrow> f x)"

lemma bind_result_simps [simp]:
  "bind_result (Inl e) f = Inl e"
  "bind_result (Inr x) f = f x"
  by (simp_all add: bind_result_def)

lemma bind_result_Inr_iff:
  "bind_result r f = Inr y \<longleftrightarrow> (\<exists>x. r = Inr x \<and> f x = Inr y)"
  by (cases r) auto

text \<open>A comprehension whose element expression may raise: the first exception wins.\<close>

fun map_result :: "('a \<Rightarrow> 'b result) \<Rightarrow> 'a list \<Rightarrow> 'b list result" where
  "map_result f [] = Inr []"
| "map_result f (x # xs) =
     bind_result (f x) (\<lambda>y. bind_result (map_result f xs) (\<lambda>ys. Inr (y # ys)))"

lemma map_result_Inr_length: "map_result f xs = Inr ys \<Longrightarrow> length ys = length xs"
  by (induction xs arbitrary: ys) (auto simp: bind_result_Inr_iff)

lemma map_result_list_all:
  "map_result f xs = Inr ys \<Longrightarrow> (\<And>x y. f x = Inr y \<Longrightarrow> P y) \<Longrightarrow> list_all P ys"
  by (induction xs arbitrary: ys) (auto simp: bind_result_Inr_iff)

lemma map_result_Inr_iff:
  "map_result f xs = Inr ys \<longleftrightarrow> map f xs = map Inr ys"
  by (induction xs arbitrary: ys) (auto simp: bind_result_Inr_iff Cons_eq_map_conv)

section \<open>Dictionaries\<close>

type_synonym ('k, 'v) dict = "('k \<times> 'v) list"

abbreviation dict_get :: "('k, 'v) dict \<Rightarrow> 'k \<Rightarrow> 'v \<Rightarrow> 'v" where
  "dict_get d k v \<equiv> (case map_of d k of None \<Rightarrow> v | Some x \<Rightarrow> x)"

abbreviation dict_set :: "'k \<Rightarrow> 'v \<Rightarrow> ('k, 'v) dict \<Rightarrow> ('k, 'v) dict" where
  "dict_set \<equiv> AList.update"

abbreviation dict_del :: "'k \<Rightarrow> ('k, 'v) dict \<Rightarrow> ('k, 'v) dict" where
  "dict_del \<equiv> AList.delete"

lemma map_of_dict_set [simp]: "map_of (dict_set k v d) = (map_of d)(k \<mapsto> v)"
  by (simp add: update_conv')

lemma map_of_dict_del [simp]: "map_of (dict_del k d) = (map_of d)(k := None)"
  by (simp add: delete_conv')

lemma distinct_dict_set: "distinct (map fst d) \<Longrightarrow> distinct (map fst (dict_set k v d))"
  by (rule distinct_update)

lemma distinct_dict_del: "distinct (map fst d) \<Longrightarrow> distinct (map fst (dict_del k d))"
  by (rule distinct_delete)

text \<open>\<open>d.update(new)\<close>.\<close>

definition dict_update :: "('k, 'v) dict \<Rightarrow> ('k, 'v) dict \<Rightarrow> ('k, 'v) dict" where
  "dict_update new d = fold (\<lambda>(k, v). dict_set k v) new d"

lemma length_dict_set:
  "length (dict_set k v d) = (if k \<in> fst ` set d then length d else Suc (length d))"
  by (induction d) auto

lemma keys_dict_set: "fst ` set (dict_set k v d) = insert k (fst ` set d)"
  by (simp add: dom_update)

lemma keys_dict_del: "fst ` set (dict_del k d) = fst ` set d - {k}"
  by (induction d) auto

lemma length_dict_del_le: "length (dict_del k d) \<le> length d"
  by (rule length_delete_le)

lemma length_dict_del_less: "k \<in> fst ` set d \<Longrightarrow> length (dict_del k d) < length d"
  by (induction d) (auto simp: le_imp_less_Suc length_delete_le)

lemma set_dict_set_subset: "set (dict_set k v d) \<subseteq> insert (k, v) (set d)"
  by (induction d) auto

lemma set_dict_del: "set (dict_del k d) \<subseteq> set d"
  by (induction d) auto

lemma in_map_filter: "y \<in> set (List.map_filter f xs) \<longleftrightarrow> (\<exists>x\<in>set xs. f x = Some y)"
  by (force simp: List.map_filter_def)

section \<open>Extremal elements, first of equals\<close>

fun max_by :: "('a \<Rightarrow> 'k::linorder) \<Rightarrow> 'a \<Rightarrow> 'a list \<Rightarrow> 'a" where
  "max_by f best [] = best"
| "max_by f best (x # xs) = max_by f (if f best < f x then x else best) xs"

fun min_by :: "('a \<Rightarrow> 'k::linorder) \<Rightarrow> 'a \<Rightarrow> 'a list \<Rightarrow> 'a" where
  "min_by f best [] = best"
| "min_by f best (x # xs) = min_by f (if f x < f best then x else best) xs"

lemma max_by_in: "max_by f b xs \<in> insert b (set xs)"
proof (induction xs arbitrary: b)
  case Nil
  show ?case by simp
next
  case (Cons x xs)
  show ?case using Cons.IH [of "if f b < f x then x else b"] by (auto split: if_splits)
qed

lemma max_by_ge: "y \<in> insert b (set xs) \<Longrightarrow> f y \<le> f (max_by f b xs)"
proof (induction xs arbitrary: b y)
  case Nil
  then show ?case by simp
next
  case (Cons x xs)
  show ?case
  proof (cases "f b < f x")
    case True
    have "f x \<le> f (max_by f x xs)" by (rule Cons.IH) simp
    with True have "f b \<le> f (max_by f x xs)" by simp
    with True Cons show ?thesis by auto
  next
    case False
    have "f b \<le> f (max_by f b xs)" by (rule Cons.IH) simp
    with False have "f x \<le> f (max_by f b xs)" by simp
    with False Cons show ?thesis by auto
  qed
qed

lemma min_by_in: "min_by f b xs \<in> insert b (set xs)"
proof (induction xs arbitrary: b)
  case Nil
  show ?case by simp
next
  case (Cons x xs)
  show ?case using Cons.IH [of "if f x < f b then x else b"] by (auto split: if_splits)
qed

lemma min_by_le: "y \<in> insert b (set xs) \<Longrightarrow> f (min_by f b xs) \<le> f y"
proof (induction xs arbitrary: b y)
  case Nil
  then show ?case by simp
next
  case (Cons x xs)
  show ?case
  proof (cases "f x < f b")
    case True
    have "f (min_by f x xs) \<le> f x" by (rule Cons.IH) simp
    with True have "f (min_by f x xs) \<le> f b" by simp
    with True Cons show ?thesis by auto
  next
    case False
    have "f (min_by f b xs) \<le> f b" by (rule Cons.IH) simp
    with False have "f (min_by f b xs) \<le> f x" by simp
    with False Cons show ?thesis by auto
  qed
qed

section \<open>Lists and sums\<close>

lemma sum_list_map_fun_upd_notin:
  "x \<notin> set xs \<Longrightarrow> sum_list (map (f(x := v)) xs) = sum_list (map f xs)"
  by (induction xs) auto

lemma sum_list_map_fun_upd:
  fixes f :: "'a \<Rightarrow> int"
  assumes "distinct xs" and "x \<in> set xs"
  shows "sum_list (map (f(x := v)) xs) = sum_list (map f xs) + v - f x"
  using assms
proof (induction xs)
  case Nil
  then show ?case by simp
next
  case (Cons y ys)
  show ?case
  proof (cases "x = y")
    case True
    with Cons.prems sum_list_map_fun_upd_notin [of x ys f v] show ?thesis by (simp del: fun_upd_apply add: fun_upd_same)
  next
    case False
    with Cons show ?thesis by (simp del: fun_upd_apply add: fun_upd_other)
  qed
qed

lemma filter_True_length_eq: "length (filter P xs) = length xs \<longleftrightarrow> (\<forall>x \<in> set xs. P x)"
  by (metis filter_id_conv filter_True length_filter_less order_less_irrefl)

lemma sum_list_nonneg_int: "(\<And>x. x \<in> set xs \<Longrightarrow> 0 \<le> f x) \<Longrightarrow> (0::int) \<le> sum_list (map f xs)"
  by (induction xs) auto

lemma concat_replicate_length:
  "length (concat (map (\<lambda>(x, n). replicate n x) ps)) = sum_list (map snd ps)"
  by (induction ps) auto

end
