(* ===== verification/PyStr.thy ===== *)
theory PyStr
  imports Prelude
begin

text \<open>
  The \<open>str\<close> operations of Python that the orchestrator uses, over \<open>string\<close>
  (a character list). The model covers ASCII text: \<open>lower\<close> and \<open>is_space\<close> are the
  ASCII part of Python's tables.
\<close>

section \<open>Characters\<close>

definition char_code :: "char \<Rightarrow> nat" where
  "char_code c = of_char c"

definition in_range :: "nat \<Rightarrow> nat \<Rightarrow> char \<Rightarrow> bool" where
  "in_range lo hi c = (lo \<le> char_code c \<and> char_code c \<le> hi)"

definition is_digit :: "char \<Rightarrow> bool" where
  "is_digit = in_range 48 57"

definition is_lower_alpha :: "char \<Rightarrow> bool" where
  "is_lower_alpha = in_range 97 122"

definition is_upper_alpha :: "char \<Rightarrow> bool" where
  "is_upper_alpha = in_range 65 90"

definition is_ascii :: "char \<Rightarrow> bool" where
  "is_ascii c = (char_code c < 128)"

definition is_space :: "char \<Rightarrow> bool" where
  "is_space c = (c = CHR '' '' \<or> in_range 9 13 c \<or> in_range 28 31 c)"

definition lower_char :: "char \<Rightarrow> char" where
  "lower_char c = (if is_upper_alpha c then char_of (char_code c + 32) else c)"

definition lower :: "string \<Rightarrow> string" where
  "lower = map lower_char"

lemma lower_char_idem [simp]: "lower_char (lower_char c) = lower_char c"
  by (auto simp: lower_char_def is_upper_alpha_def in_range_def char_code_def of_char_of)

lemma lower_idem [simp]: "lower (lower s) = lower s"
  by (simp add: lower_def)

lemma lower_Nil [simp]: "lower [] = []"
  by (simp add: lower_def)

lemma lower_append [simp]: "lower (s @ t) = lower s @ lower t"
  by (simp add: lower_def)

lemma lower_eq_Nil [simp]: "lower s = [] \<longleftrightarrow> s = []"
  by (simp add: lower_def)

section \<open>Prefixes, stripping, splitting, joining\<close>

abbreviation starts_with :: "string \<Rightarrow> string \<Rightarrow> bool" where
  "starts_with s p \<equiv> prefix p s"

abbreviation ends_with :: "string \<Rightarrow> string \<Rightarrow> bool" where
  "ends_with s p \<equiv> suffix p s"

abbreviation contains :: "string \<Rightarrow> string \<Rightarrow> bool" where
  "contains s p \<equiv> sublist p s"

definition lstrip :: "string \<Rightarrow> string" where
  "lstrip = dropWhile is_space"

definition rstrip_if :: "(char \<Rightarrow> bool) \<Rightarrow> string \<Rightarrow> string" where
  "rstrip_if P s = rev (dropWhile P (rev s))"

definition strip :: "string \<Rightarrow> string" where
  "strip s = rstrip_if is_space (lstrip s)"

fun split_on :: "char \<Rightarrow> string \<Rightarrow> string list" where
  "split_on d [] = [[]]"
| "split_on d (c # s) =
     (if c = d then [] # split_on d s
      else (case split_on d s of [] \<Rightarrow> [[c]] | w # ws \<Rightarrow> (c # w) # ws))"

text \<open>\<open>s.split()\<close>: runs of whitespace separate, no empty words.\<close>

fun split_words :: "string \<Rightarrow> string \<Rightarrow> string list" where
  "split_words w [] = (if w = [] then [] else [rev w])"
| "split_words w (c # s) =
     (if is_space c then (if w = [] then split_words [] s else rev w # split_words [] s)
      else split_words (c # w) s)"

abbreviation split_ws :: "string \<Rightarrow> string list" where
  "split_ws s \<equiv> split_words [] s"

fun join :: "string \<Rightarrow> string list \<Rightarrow> string" where
  "join sep [] = []"
| "join sep [w] = w"
| "join sep (w # ws) = w @ sep @ join sep ws"

text \<open>\<open>s.replace(old, new)\<close> for a non-empty \<open>old\<close>, left to right.\<close>

function replace_all :: "string \<Rightarrow> string \<Rightarrow> string \<Rightarrow> string" where
  "replace_all old new s =
     (if old = [] \<or> s = [] then s
      else if prefix old s then new @ replace_all old new (drop (length old) s)
      else hd s # replace_all old new (tl s))"
  by pat_completeness auto
termination
  by (relation "measure (\<lambda>(old, new, s). length s)") (auto simp: neq_Nil_conv)

declare replace_all.simps [simp del]

text \<open>\<open>s.partition(c)\<close> without the separator: before and after the first \<open>c\<close>.\<close>

definition before_first :: "char \<Rightarrow> string \<Rightarrow> string" where
  "before_first c s = takeWhile (\<lambda>x. x \<noteq> c) s"

definition after_first :: "char \<Rightarrow> string \<Rightarrow> string" where
  "after_first c s = tl (dropWhile (\<lambda>x. x \<noteq> c) s)"

text \<open>\<open>s.rsplit(c, 1)[0]\<close>.\<close>

definition before_last :: "char \<Rightarrow> string \<Rightarrow> string" where
  "before_last c s =
     (if c \<in> set s then rev (tl (dropWhile (\<lambda>x. x \<noteq> c) (rev s))) else s)"

lemma split_on_not_Nil [simp]: "split_on d s \<noteq> []"
  by (induction s) (auto split: list.splits)

lemma split_on_no_sep: "w \<in> set (split_on d s) \<Longrightarrow> d \<notin> set w"
  by (induction s arbitrary: w) (auto split: list.splits if_splits)

lemma split_on_absent: "d \<notin> set s \<Longrightarrow> split_on d s = [s]"
  by (induction s) auto

lemma join_split_on: "join [d] (split_on d s) = s"
proof (induction s)
  case Nil
  then show ?case by simp
next
  case (Cons c s)
  then show ?case
    by (cases "split_on d s" rule: list.exhaust; cases "tl (split_on d s)") auto
qed

lemma dropWhile_no_match: "(\<And>c. c \<in> set s \<Longrightarrow> \<not> P c) \<Longrightarrow> dropWhile P s = s"
  by (cases s) auto

lemma strip_Nil [simp]: "strip [] = []"
  by (simp add: strip_def lstrip_def rstrip_if_def)

definition quoted :: "string \<Rightarrow> string" where
  "quoted s = [CHR 0x27] @ s @ [CHR 0x27]"

section \<open>Decimal integers\<close>

fun digits_value :: "int \<Rightarrow> string \<Rightarrow> int" where
  "digits_value acc [] = acc"
| "digits_value acc (c # s) = digits_value (10 * acc + (int (char_code c) - 48)) s"

definition all_digits :: "string \<Rightarrow> bool" where
  "all_digits s = (s \<noteq> [] \<and> list_all is_digit s)"

text \<open>
  \<open>int(s)\<close>: surrounding whitespace, a sign, decimal digits with single underscores
  between them; anything else raises \<open>ValueError\<close>, here \<open>None\<close>.
\<close>

definition underscores_ok :: "string \<Rightarrow> bool" where
  "underscores_ok s = list_all (\<lambda>w. w \<noteq> []) (split_on (CHR ''_'') s)"

definition nat_literal :: "string \<Rightarrow> int option" where
  "nat_literal s =
     (let ds = filter (\<lambda>c. c \<noteq> CHR ''_'') s
      in if underscores_ok s \<and> all_digits ds then Some (digits_value 0 ds) else None)"

definition py_int :: "string \<Rightarrow> int option" where
  "py_int s =
     (case strip s of
        [] \<Rightarrow> None
      | c # t \<Rightarrow>
          (if c = CHR ''-'' then map_option uminus (nat_literal t)
           else if c = CHR ''+'' then nat_literal t
           else nat_literal (c # t)))"

text \<open>\<open>str(n)\<close>.\<close>

definition digit_char :: "nat \<Rightarrow> char" where
  "digit_char d = char_of (48 + d)"

fun show_nat :: "nat \<Rightarrow> string" where
  "show_nat n = (if n < 10 then [digit_char n] else show_nat (n div 10) @ [digit_char (n mod 10)])"

declare show_nat.simps [simp del]

definition show_int :: "int \<Rightarrow> string" where
  "show_int i = (if i < 0 then CHR ''-'' # show_nat (nat (- i)) else show_nat (nat i))"

lemma digit_char_code: "d < 10 \<Longrightarrow> char_code (digit_char d) = 48 + d"
  by (simp add: char_code_def digit_char_def of_char_of)

lemma digit_char_is_digit: "d < 10 \<Longrightarrow> is_digit (digit_char d)"
  by (simp add: is_digit_def in_range_def digit_char_code)

lemma digits_value_append:
  "digits_value acc (s @ [c]) = 10 * digits_value acc s + (int (char_code c) - 48)"
  by (induction s arbitrary: acc) auto

lemma show_nat_all_digits: "all_digits (show_nat n)"
proof (induction n rule: show_nat.induct)
  case (1 n)
  show ?case
  proof (cases "n < 10")
    case True
    then show ?thesis
      by (subst show_nat.simps) (simp add: all_digits_def digit_char_is_digit)
  next
    case False
    with 1 show ?thesis
      by (subst show_nat.simps) (simp add: all_digits_def digit_char_is_digit)
  qed
qed

lemma digits_value_show_nat: "digits_value 0 (show_nat n) = int n"
proof (induction n rule: show_nat.induct)
  case (1 n)
  show ?case
  proof (cases "n < 10")
    case True
    then show ?thesis
      by (subst show_nat.simps) (simp add: digit_char_code)
  next
    case False
    have "10 * int (n div 10) + int (n mod 10) = int n" by arith
    with False 1 show ?thesis
      by (subst show_nat.simps) (simp add: digits_value_append digit_char_code)
  qed
qed

lemma is_digit_not_special:
  "is_digit c \<Longrightarrow> \<not> is_space c \<and> c \<noteq> CHR ''_'' \<and> c \<noteq> CHR ''-'' \<and> c \<noteq> CHR ''+''"
  by (auto simp: is_digit_def is_space_def in_range_def char_code_def)

lemma all_digits_noop:
  assumes "all_digits s"
  shows "strip s = s" and "filter (\<lambda>c. c \<noteq> CHR ''_'') s = s" and "underscores_ok s"
proof -
  have special: "\<And>c. c \<in> set s \<Longrightarrow> \<not> is_space c \<and> c \<noteq> CHR ''_''"
    using assms is_digit_not_special by (auto simp: all_digits_def list_all_iff)
  have s: "s \<noteq> []" using assms by (simp add: all_digits_def)
  have "dropWhile is_space s = s" using special by (intro dropWhile_no_match) simp
  moreover have "dropWhile is_space (rev s) = rev s"
    using special by (intro dropWhile_no_match) simp
  ultimately show "strip s = s" by (simp add: strip_def lstrip_def rstrip_if_def)
  show "filter (\<lambda>c. c \<noteq> CHR ''_'') s = s" using special by (simp add: filter_id_conv)
  have "CHR ''_'' \<notin> set s" using special by blast
  then show "underscores_ok s" using s by (simp add: underscores_ok_def split_on_absent)
qed

theorem py_int_show_int: "py_int (show_int i) = Some i"
proof -
  have dig: "all_digits (show_nat n)" for n by (rule show_nat_all_digits)
  have lit: "nat_literal (show_nat n) = Some (int n)" for n
    using all_digits_noop [OF dig] dig by (simp add: nat_literal_def digits_value_show_nat)
  show ?thesis
  proof (cases "i < 0")
    case True
    have "strip (CHR ''-'' # show_nat n) = CHR ''-'' # show_nat n" for n
    proof -
      have "rev (show_nat n) \<noteq> []" and "\<And>c. c \<in> set (rev (show_nat n)) \<Longrightarrow> \<not> is_space c"
        using dig [of n] is_digit_not_special by (auto simp: all_digits_def list_all_iff)
      then have "dropWhile is_space (rev (show_nat n) @ [CHR ''-'']) = rev (show_nat n) @ [CHR ''-'']"
        by (cases "rev (show_nat n)") auto
      moreover have "\<not> is_space (CHR ''-'')" by (simp add: is_space_def in_range_def char_code_def)
      ultimately show ?thesis by (simp add: strip_def lstrip_def rstrip_if_def)
    qed
    with True lit show ?thesis by (simp add: py_int_def show_int_def)
  next
    case False
    obtain c t where ct: "show_nat (nat i) = c # t"
      using dig [of "nat i"] by (cases "show_nat (nat i)") (auto simp: all_digits_def)
    have "is_digit c" using dig [of "nat i"] ct by (simp add: all_digits_def)
    then have "c \<noteq> CHR ''-''" "c \<noteq> CHR ''+''" using is_digit_not_special by auto
    with False ct lit [of "nat i"] all_digits_noop(1) [OF dig [of "nat i"]] show ?thesis
      by (simp add: py_int_def show_int_def)
  qed
qed

lemma strip_no_space: "(\<And>c. c \<in> set s \<Longrightarrow> \<not> is_space c) \<Longrightarrow> strip s = s"
proof -
  assume a: "\<And>c. c \<in> set s \<Longrightarrow> \<not> is_space c"
  then have "dropWhile is_space (rev s) = rev s" by (intro dropWhile_no_match) simp
  with a show ?thesis by (simp add: strip_def lstrip_def rstrip_if_def dropWhile_no_match)
qed

lemma set_strip: "set (strip s) \<subseteq> set s"
proof
  fix c assume "c \<in> set (strip s)"
  then have "c \<in> set (dropWhile is_space (rev (dropWhile is_space s)))"
    by (simp add: strip_def lstrip_def rstrip_if_def)
  then have "c \<in> set (rev (dropWhile is_space s))" by (rule set_dropWhileD)
  then have "c \<in> set (dropWhile is_space s)" by simp
  then show "c \<in> set s" by (rule set_dropWhileD)
qed

lemma show_nat_digits: "c \<in> set (show_nat n) \<Longrightarrow> is_digit c"
  using show_nat_all_digits [of n] by (simp add: all_digits_def list_all_iff)

lemma show_nat_not_Nil [simp]: "show_nat n \<noteq> []"
  using show_nat_all_digits [of n] by (simp add: all_digits_def)

section \<open>Shell-style patterns\<close>

text \<open>
  \<open>fnmatch.fnmatch\<close> on a POSIX host: \<open>*\<close>, \<open>?\<close>, \<open>[seq]\<close> and \<open>[!seq]\<close> with
  ranges; a \<open>[\<close> that is never closed stands for itself.
\<close>

definition class_body_start :: "string \<Rightarrow> nat" where
  "class_body_start s =
     (let i = (case s of c # _ \<Rightarrow> if c = CHR ''!'' then 1 else 0 | [] \<Rightarrow> 0)
      in if take 1 (drop i s) = '']'' then Suc i else i)"

definition read_class :: "string \<Rightarrow> (string \<times> string) option" where
  "read_class s =
     (let i = class_body_start s; rest = drop i s
      in if CHR '']'' \<in> set rest
         then (let k = i + length (takeWhile (\<lambda>c. c \<noteq> CHR '']'') rest)
               in Some (take k s, drop (Suc k) s))
         else None)"

fun in_class :: "string \<Rightarrow> char \<Rightarrow> bool" where
  "in_class (a # d # b # r) c =
     (if d = CHR ''-'' then (char_code a \<le> char_code c \<and> char_code c \<le> char_code b) \<or> in_class r c
      else a = c \<or> in_class (d # b # r) c)"
| "in_class [a, b] c = (a = c \<or> b = c)"
| "in_class [a] c = (a = c)"
| "in_class [] c = False"

definition class_match :: "string \<Rightarrow> char \<Rightarrow> bool" where
  "class_match cl c =
     (case cl of
        d # r \<Rightarrow> if d = CHR ''!'' then \<not> in_class r c else in_class cl c
      | [] \<Rightarrow> False)"

lemma read_class_shorter: "read_class s = Some (cl, r) \<Longrightarrow> length r < Suc (length s)"
  by (auto simp: read_class_def Let_def split: if_splits)

function glob :: "string \<Rightarrow> string \<Rightarrow> bool" where
  "glob [] s = (s = [])"
| "glob (c # p) s =
     (if c = CHR ''*'' then glob p s \<or> (case s of [] \<Rightarrow> False | _ # t \<Rightarrow> glob (c # p) t)
      else if c = CHR ''?'' then (case s of [] \<Rightarrow> False | _ # t \<Rightarrow> glob p t)
      else if c = CHR ''['' \<and> read_class p \<noteq> None
      then (case read_class p of
              None \<Rightarrow> False
            | Some (cl, q) \<Rightarrow> (case s of [] \<Rightarrow> False | x # t \<Rightarrow> class_match cl x \<and> glob q t))
      else (case s of [] \<Rightarrow> False | x # t \<Rightarrow> c = x \<and> glob p t))"
  by pat_completeness auto
termination
  by (relation "measure (\<lambda>(p, s). length p + length s)") (auto dest!: read_class_shorter)

declare glob.simps(2) [simp del]

lemma glob_star [simp]: "glob ''*'' s"
  by (induction s) (auto simp: glob.simps(2))

text \<open>A pattern with no special character matches only itself.\<close>

lemma glob_plain:
  "\<forall>c \<in> set p. c \<noteq> CHR ''*'' \<and> c \<noteq> CHR ''?'' \<and> c \<noteq> CHR ''['' \<Longrightarrow> glob p s \<longleftrightarrow> s = p"
  by (induction p arbitrary: s) (auto simp: glob.simps(2) split: list.splits)

section \<open>Evaluation rules\<close>

lemmas [py_simps] = lower_def lower_char_def is_upper_alpha_def is_lower_alpha_def is_digit_def
  is_space_def in_range_def char_code_def strip_def lstrip_def rstrip_if_def before_first_def
  after_first_def before_last_def py_int_def nat_literal_def underscores_ok_def all_digits_def
  show_int_def show_nat.simps digit_char_def replace_all.simps glob.simps read_class_def
  class_body_start_def class_match_def

text \<open>\<open>hmac.compare_digest\<close> on two strings: non-ASCII raises.\<close>

definition compare_digest :: "string \<Rightarrow> string \<Rightarrow> bool result" where
  "compare_digest a b =
     (if list_all is_ascii a \<and> list_all is_ascii b then Inr (a = b)
      else Inl (TypeError ''comparing strings with non-ASCII characters is not supported''))"

end
