(* ===== verification/PyVal.thy ===== *)
theory PyVal
  imports PyStr
begin

text \<open>
  The dynamically typed values the orchestrator receives from outside: parsed YAML
  (\<open>config.yml\<close>), JSON (request bodies, GitHub responses, peer snapshots, override rows)
  and Python's conversions on them (\<open>bool\<close>, \<open>int\<close>, \<open>float\<close>, \<open>str\<close>), each with
  the exception it raises. The text \<open>str\<close> gives for a float or a container is CPython's
  formatting and enters as the argument \<open>rp\<close>.
\<close>

section \<open>Values\<close>

datatype pyfloat = Fin rat | PosInf | NegInf | NaN

datatype pyval =
    PNone
  | PBool bool
  | PInt int
  | PFloat pyfloat
  | PStr string
  | PList "pyval list"
  | PDict "(string \<times> pyval) list"

fun is_dict :: "pyval \<Rightarrow> bool" where
  "is_dict (PDict _) = True"
| "is_dict _ = False"

fun dict_items :: "pyval \<Rightarrow> (string \<times> pyval) list" where
  "dict_items (PDict d) = d"
| "dict_items _ = []"

text \<open>\<open>d.get(k, default)\<close> on a value already known to be a dict.\<close>

definition pget :: "(string \<times> pyval) list \<Rightarrow> string \<Rightarrow> pyval \<Rightarrow> pyval" where
  "pget d k v = dict_get d k v"

section \<open>Floats\<close>

text \<open>Comparisons: every comparison with a NaN is false.\<close>

fun pf_le :: "pyfloat \<Rightarrow> pyfloat \<Rightarrow> bool" where
  "pf_le NaN _ = False"
| "pf_le _ NaN = False"
| "pf_le NegInf _ = True"
| "pf_le _ PosInf = True"
| "pf_le (Fin a) (Fin b) = (a \<le> b)"
| "pf_le _ _ = False"

fun pf_lt :: "pyfloat \<Rightarrow> pyfloat \<Rightarrow> bool" where
  "pf_lt NaN _ = False"
| "pf_lt _ NaN = False"
| "pf_lt (Fin a) (Fin b) = (a < b)"
| "pf_lt NegInf b = (b \<noteq> NegInf)"
| "pf_lt a PosInf = (a \<noteq> PosInf)"
| "pf_lt _ _ = False"

lemma pf_le_Fin_iff: "pf_le (Fin a) x \<longleftrightarrow> x = PosInf \<or> (\<exists>b. x = Fin b \<and> a \<le> b)"
  by (cases x) auto

lemma pf_between_Fin: "pf_le (Fin a) x \<and> pf_le x (Fin b) \<longleftrightarrow> (\<exists>r. x = Fin r \<and> a \<le> r \<and> r \<le> b)"
  by (cases x) auto

section \<open>Conversions\<close>

fun truthy :: "pyval \<Rightarrow> bool" where
  "truthy PNone = False"
| "truthy (PBool b) = b"
| "truthy (PInt n) = (n \<noteq> 0)"
| "truthy (PFloat f) = (f \<noteq> Fin 0)"
| "truthy (PStr s) = (s \<noteq> [])"
| "truthy (PList xs) = (xs \<noteq> [])"
| "truthy (PDict d) = (d \<noteq> [])"

text \<open>\<open>float(s)\<close> for a string: the special names, or a decimal literal.\<close>

definition dec_digits :: "string \<Rightarrow> string option" where
  "dec_digits s =
     (let ds = filter (\<lambda>c. c \<noteq> CHR ''_'') s
      in if s = [] then Some []
         else if underscores_ok s \<and> all_digits ds then Some ds else None)"

definition exponent :: "string \<Rightarrow> int option" where
  "exponent s =
     (case s of
        [] \<Rightarrow> None
      | c # t \<Rightarrow>
          if c = CHR ''-'' then map_option uminus (nat_literal t)
          else if c = CHR ''+'' then nat_literal t else nat_literal s)"

definition mantissa :: "string \<Rightarrow> rat option" where
  "mantissa s =
     (case (dec_digits (before_first (CHR ''.'') s), dec_digits (after_first (CHR ''.'') s)) of
        (Some a, Some b) \<Rightarrow>
          if a = [] \<and> b = [] then None
          else Some (of_int (digits_value 0 (a @ b)) / 10 ^ length b)
      | _ \<Rightarrow> None)"

definition scale10 :: "rat \<Rightarrow> int \<Rightarrow> rat" where
  "scale10 m e = (if 0 \<le> e then m * 10 ^ nat e else m / 10 ^ nat (- e))"

definition unsigned_float :: "string \<Rightarrow> pyfloat option" where
  "unsigned_float s =
     (if s = ''inf'' \<or> s = ''infinity'' then Some PosInf
      else if s = ''nan'' then Some NaN
      else if CHR ''e'' \<in> set s
      then (case (mantissa (before_first (CHR ''e'') s), exponent (after_first (CHR ''e'') s)) of
              (Some m, Some e) \<Rightarrow> Some (Fin (scale10 m e))
            | _ \<Rightarrow> None)
      else map_option Fin (mantissa s))"

fun pf_neg :: "pyfloat \<Rightarrow> pyfloat" where
  "pf_neg (Fin a) = Fin (- a)"
| "pf_neg PosInf = NegInf"
| "pf_neg NegInf = PosInf"
| "pf_neg NaN = NaN"

definition float_of_str :: "string \<Rightarrow> pyfloat option" where
  "float_of_str s =
     (case lower (strip s) of
        [] \<Rightarrow> None
      | c # t \<Rightarrow>
          if c = CHR ''-'' then map_option pf_neg (unsigned_float t)
          else if c = CHR ''+'' then unsigned_float t
          else unsigned_float (c # t))"

fun py_float_of :: "pyval \<Rightarrow> pyfloat result" where
  "py_float_of (PInt n) = Inr (Fin (of_int n))"
| "py_float_of (PBool b) = Inr (Fin (if b then 1 else 0))"
| "py_float_of (PFloat f) = Inr f"
| "py_float_of (PStr s) =
     (case float_of_str s of None \<Rightarrow> Inl (ValueError ''could not convert string to float'') | Some f \<Rightarrow> Inr f)"
| "py_float_of _ = Inl (TypeError ''float() argument must be a string or a real number'')"

definition trunc_rat :: "rat \<Rightarrow> int" where
  "trunc_rat r = (if 0 \<le> r then \<lfloor>r\<rfloor> else - \<lfloor>- r\<rfloor>)"

fun py_int_of :: "pyval \<Rightarrow> int result" where
  "py_int_of (PInt n) = Inr n"
| "py_int_of (PBool b) = Inr (if b then 1 else 0)"
| "py_int_of (PFloat (Fin r)) = Inr (trunc_rat r)"
| "py_int_of (PFloat NaN) = Inl (ValueError ''cannot convert float NaN to integer'')"
| "py_int_of (PFloat _) = Inl (OverflowError ''cannot convert float infinity to integer'')"
| "py_int_of (PStr s) =
     (case py_int s of None \<Rightarrow> Inl (ValueError ''invalid literal for int() with base 10'') | Some n \<Rightarrow> Inr n)"
| "py_int_of _ = Inl (TypeError ''int() argument must be a string, a bytes-like object or a real number'')"

fun py_str_of :: "(pyval \<Rightarrow> string) \<Rightarrow> pyval \<Rightarrow> string" where
  "py_str_of rp PNone = ''None''"
| "py_str_of rp (PBool b) = (if b then ''True'' else ''False'')"
| "py_str_of rp (PInt n) = show_int n"
| "py_str_of rp (PStr s) = s"
| "py_str_of rp v = rp v"

lemma trunc_rat_of_int [simp]: "trunc_rat (of_int n) = n"
  by (simp add: trunc_rat_def flip: of_int_minus)

lemma trunc_rat_mono_bounds:
  "of_int a \<le> r \<Longrightarrow> r \<le> of_int b \<Longrightarrow> 0 \<le> a \<Longrightarrow> a \<le> trunc_rat r \<and> trunc_rat r \<le> b"
proof -
  assume a: "of_int a \<le> r" "r \<le> of_int b" "0 \<le> a"
  then have "0 \<le> r" by (metis of_int_0_le_iff order_trans)
  with a show ?thesis
    by (auto simp: trunc_rat_def le_floor_iff floor_le_iff)
qed

section \<open>Access, with the exception a wrong type raises\<close>

fun py_get :: "pyval \<Rightarrow> string \<Rightarrow> pyval \<Rightarrow> pyval result" where
  "py_get (PDict d) k v = Inr (pget d k v)"
| "py_get _ k v = Inl (AttributeError ''no attribute get'')"

text \<open>\<open>d[k]\<close> with a string key.\<close>

fun py_item :: "pyval \<Rightarrow> string \<Rightarrow> pyval result" where
  "py_item (PDict d) k = (case map_of d k of None \<Rightarrow> Inl (KeyError k) | Some v \<Rightarrow> Inr v)"
| "py_item _ k = Inl (TypeError ''object is not subscriptable by a string'')"

text \<open>What a \<open>for\<close> loop over the value runs through: a dict its keys, a string its characters.\<close>

fun py_iter :: "pyval \<Rightarrow> pyval list result" where
  "py_iter (PList vs) = Inr vs"
| "py_iter (PDict d) = Inr (map (\<lambda>kv. PStr (fst kv)) d)"
| "py_iter (PStr s) = Inr (map (\<lambda>c. PStr [c]) s)"
| "py_iter _ = Inl (TypeError ''object is not iterable'')"

fun py_lower :: "pyval \<Rightarrow> string result" where
  "py_lower (PStr s) = Inr (lower s)"
| "py_lower _ = Inl (AttributeError ''no attribute lower'')"

fun is_list :: "pyval \<Rightarrow> bool" where
  "is_list (PList _) = True"
| "is_list _ = False"

fun list_items :: "pyval \<Rightarrow> pyval list" where
  "list_items (PList vs) = vs"
| "list_items _ = []"

text \<open>\<open>v or default\<close>.\<close>

definition py_or :: "pyval \<Rightarrow> pyval \<Rightarrow> pyval" where
  "py_or v w = (if truthy v then v else w)"

end
