(* ===== verification/Config.thy ===== *)
theory Config
  imports PyVal
begin

text \<open>
  \<open>orchestrator/rorch/config.py\<close>: the \<open>PoolConfig\<close> dataclass with its derived
  properties, \<open>parse_size\<close>, \<open>for_repository\<close>, and the validation the daemon runs before it
  starts. Log output is not modelled. \<open>sys.exit(1)\<close> is the exception \<open>SystemExit\<close>.
\<close>

section \<open>The pool record\<close>

record PoolConfig =
  pool_name :: string
  pool_pat :: string
  pool_owner :: string
  pool_repo :: string
  pool_scope :: string
  repo_discovery_ttl :: int
  github_poll_interval :: int
  queued_min_age :: int
  pool_instance :: string
  stuck_timeout :: int
  repo_check_workers :: int
  runner_operation_workers :: int
  max_runners :: int
  min_idle :: int
  runner_labels :: string
  runner_image :: string
  memory_limit :: string
  cpu_limit :: pyfloat
  work_tmpfs_size :: string
  network_mode :: string
  include_public_repos :: bool
  exclude_repos :: string
  job_started_hook :: string
  pool_provider :: string
  base_url :: string

definition AUTO_WORK_TMPFS_FALLBACK :: string where
  "AUTO_WORK_TMPFS_FALLBACK = ''4g''"

definition DEFAULT_CI_CONTAINER_MAX_AGE :: int where
  "DEFAULT_CI_CONTAINER_MAX_AGE = 360"

definition DEFAULT_RUNNER_IMAGE :: string where
  "DEFAULT_RUNNER_IMAGE = ''ghcr.io/mechemsi/rorch-runner:{version}''"

text \<open>\<open>PoolConfig(name=..., pat=..., owner=...)\<close>: the other fields at their defaults.\<close>

definition new_pool :: "string \<Rightarrow> string \<Rightarrow> string \<Rightarrow> PoolConfig" where
  "new_pool name pat owner =
     \<lparr>pool_name = name, pool_pat = pat, pool_owner = owner, pool_repo = '''',
      pool_scope = ''organization'', repo_discovery_ttl = 600, github_poll_interval = 60,
      queued_min_age = 0, pool_instance = '''', stuck_timeout = 8, repo_check_workers = 6,
      runner_operation_workers = 4, max_runners = 3, min_idle = 1,
      runner_labels = ''self-hosted,linux,x64,docker'', runner_image = DEFAULT_RUNNER_IMAGE,
      memory_limit = ''2g'', cpu_limit = Fin 0, work_tmpfs_size = ''auto'',
      network_mode = ''host'', include_public_repos = False, exclude_repos = '''',
      job_started_hook = '''', pool_provider = ''github'', base_url = ''''\<rparr>"

section \<open>Sizes\<close>

definition size_unit :: "string \<Rightarrow> int option" where
  "size_unit u =
     (if u = '''' \<or> u = ''b'' then Some 1
      else if u = ''k'' \<or> u = ''kb'' then Some 1024
      else if u = ''m'' \<or> u = ''mb'' then Some (1024 ^ 2)
      else if u = ''g'' \<or> u = ''gb'' then Some (1024 ^ 3)
      else None)"

definition parse_size :: "string \<Rightarrow> int option" where
  "parse_size value =
     (let s = strip value; ds = takeWhile is_digit s; u = lower (dropWhile is_digit s)
      in if ds = [] then None else map_option (\<lambda>k. digits_value 0 ds * k) (size_unit u))"

definition work_tmpfs_enabled :: "PoolConfig \<Rightarrow> bool" where
  "work_tmpfs_enabled p =
     (let size = strip (work_tmpfs_size p) in size \<noteq> [] \<and> parse_size size \<noteq> Some 0)"

definition effective_work_tmpfs_size :: "PoolConfig \<Rightarrow> string" where
  "effective_work_tmpfs_size p =
     (let size = strip (work_tmpfs_size p)
      in if \<not> work_tmpfs_enabled p then ''''
         else if lower size \<noteq> ''auto'' then size
         else (case parse_size (memory_limit p) of
                 None \<Rightarrow> AUTO_WORK_TMPFS_FALLBACK
               | Some memory \<Rightarrow>
                   if memory = 0 then AUTO_WORK_TMPFS_FALLBACK
                   else show_int (memory div 2 div 1024 ^ 2) @ ''m''))"

section \<open>Derived properties\<close>

definition is_gitea :: "PoolConfig \<Rightarrow> bool" where
  "is_gitea p = (pool_provider p = ''gitea'')"

definition label_set :: "PoolConfig \<Rightarrow> string set" where
  "label_set p =
     (let configured = set (map (\<lambda>l. lower (strip l)) (split_on (CHR '','') (runner_labels p)))
      in if is_gitea p then configured - {''''}
         else (configured \<union> {''self-hosted'', ''linux'', ''x64''}) - {''''})"

definition serves_labels :: "PoolConfig \<Rightarrow> string list \<Rightarrow> bool" where
  "serves_labels p labels = (set (map lower labels) \<subseteq> label_set p)"

definition csv_items :: "string \<Rightarrow> string list" where
  "csv_items s = filter (\<lambda>w. w \<noteq> []) (map strip (split_on (CHR '','') s))"

definition excluded_repo_patterns :: "PoolConfig \<Rightarrow> string list" where
  "excluded_repo_patterns p = csv_items (exclude_repos p)"

definition excludes_repo :: "PoolConfig \<Rightarrow> string \<Rightarrow> bool" where
  "excludes_repo p name = list_ex (\<lambda>pattern. glob pattern name) (excluded_repo_patterns p)"

definition is_personal_level :: "PoolConfig \<Rightarrow> bool" where
  "is_personal_level p = (pool_repo p = '''' \<and> pool_scope p = ''personal'')"

definition is_org_level :: "PoolConfig \<Rightarrow> bool" where
  "is_org_level p = (pool_repo p = '''' \<and> \<not> is_personal_level p)"

definition display :: "PoolConfig \<Rightarrow> string" where
  "display p =
     (if is_personal_level p then pool_owner p @ '' [personal: all repos]''
      else if is_org_level p then pool_owner p @ '' [org]''
      else pool_owner p @ ''/'' @ pool_repo p)"

definition safe_char :: "char \<Rightarrow> char" where
  "safe_char c = (if c = CHR '' '' \<or> c = CHR ''/'' then CHR ''-'' else c)"

text \<open>
  \<open>name.lower().replace(" ", "-").replace("/", "-")\<close>: two one-character
  replacements, character by character.
\<close>

definition safe_name :: "string \<Rightarrow> string" where
  "safe_name s = map safe_char (lower s)"

definition container_prefix :: "PoolConfig \<Rightarrow> string" where
  "container_prefix p =
     (let safe = safe_name (pool_name p)
      in if pool_instance p \<noteq> [] then ''gh-runner-'' @ pool_instance p @ ''-'' @ safe
         else ''gh-runner-'' @ safe)"

definition api_runners_path :: "PoolConfig \<Rightarrow> string" where
  "api_runners_path p =
     (if pool_repo p \<noteq> [] then ''/repos/'' @ pool_owner p @ ''/'' @ pool_repo p @ ''/actions/runners''
      else ''/orgs/'' @ pool_owner p @ ''/actions/runners'')"

definition registration_url :: "PoolConfig \<Rightarrow> string" where
  "registration_url p =
     (if pool_repo p \<noteq> [] then ''https://github.com/'' @ pool_owner p @ ''/'' @ pool_repo p
      else ''https://github.com/'' @ pool_owner p)"

definition for_repository :: "PoolConfig \<Rightarrow> string \<Rightarrow> PoolConfig" where
  "for_repository p repo =
     p\<lparr>pool_name := pool_name p @ ''-'' @ repo, pool_repo := repo,
       pool_scope := ''repository'', min_idle := 0\<rparr>"

section \<open>Environment references\<close>

type_synonym environ = "string \<Rightarrow> string option"

definition getenv :: "environ \<Rightarrow> string \<Rightarrow> string \<Rightarrow> string" where
  "getenv env k d = (case env k of None \<Rightarrow> d | Some v \<Rightarrow> v)"

definition resolve_env :: "environ \<Rightarrow> string \<Rightarrow> string" where
  "resolve_env env value =
     (if value = [] then value
      else if starts_with value ''${'' \<and> ends_with value ''}''
      then getenv env (butlast (drop 2 value)) ''''
      else value)"

section \<open>Validation\<close>

definition pool_message :: "PoolConfig \<Rightarrow> string \<Rightarrow> string" where
  "pool_message p text = ''Pool '' @ quoted (pool_name p) @ '': '' @ text"

definition instance_ok :: "string \<Rightarrow> bool" where
  "instance_ok s = (s \<noteq> [] \<and> list_all (\<lambda>c. is_lower_alpha c \<or> is_digit c) s)"

definition msg_if :: "bool \<Rightarrow> string \<Rightarrow> string list" where
  "msg_if c m = (if c then [m] else [])"

definition identity_errors :: "PoolConfig \<Rightarrow> string list" where
  "identity_errors p =
     msg_if (pool_pat p = [] \<or> starts_with (pool_pat p) ''${'')
       (pool_message p (''pat is missing or unresolved (got: '' @ quoted (pool_pat p) @ '')'')) @
     msg_if (pool_owner p = []) (pool_message p ''owner is required'') @
     msg_if (pool_provider p \<notin> {''github'', ''gitea''})
       (pool_message p (''unsupported provider '' @ quoted (pool_provider p))) @
     msg_if (is_gitea p \<and> \<not> (starts_with (base_url p) ''http://'' \<or> starts_with (base_url p) ''https://''))
       (pool_message p ''a gitea pool needs base_url (http:// or https://)'') @
     msg_if (pool_provider p = ''github'' \<and> base_url p \<noteq> [])
       (pool_message p ''base_url only applies to provider gitea'') @
     msg_if (pool_scope p \<notin> {''organization'', ''personal'', ''repository''})
       (pool_message p (''unsupported scope '' @ quoted (pool_scope p))) @
     msg_if (pool_scope p = ''personal'' \<and> pool_repo p \<noteq> [])
       (pool_message p ''personal scope cannot also set repo'') @
     msg_if (pool_scope p = ''repository'' \<and> pool_repo p = [])
       (pool_message p ''repository scope requires repo'')"

definition range_errors :: "PoolConfig \<Rightarrow> string list" where
  "range_errors p =
     msg_if (repo_discovery_ttl p < 0) (pool_message p ''repo_discovery_ttl cannot be negative'') @
     msg_if (github_poll_interval p \<noteq> 0 \<and> \<not> (15 \<le> github_poll_interval p \<and> github_poll_interval p \<le> 3600))
       (pool_message p ''github_poll_interval must be 0 or between 15 and 3600'') @
     msg_if (\<not> (0 \<le> queued_min_age p \<and> queued_min_age p \<le> 86400))
       (pool_message p ''queued_min_age must be between 0 and 86400 seconds'') @
     msg_if (pool_instance p \<noteq> [] \<and> \<not> instance_ok (pool_instance p))
       (''instance '' @ quoted (pool_instance p) @ '' must be lowercase letters and digits only'') @
     msg_if (\<not> (1 \<le> stuck_timeout p \<and> stuck_timeout p \<le> 1440))
       (pool_message p ''stuck_timeout must be between 1 and 1440 minutes'') @
     msg_if (\<not> (1 \<le> repo_check_workers p \<and> repo_check_workers p \<le> 32))
       (pool_message p ''repo_check_workers must be between 1 and 32'') @
     msg_if (\<not> (1 \<le> runner_operation_workers p \<and> runner_operation_workers p \<le> 16))
       (pool_message p ''runner_operation_workers must be between 1 and 16'') @
     msg_if (max_runners p < 0) (pool_message p ''max_runners cannot be negative'') @
     msg_if (min_idle p < 0) (pool_message p ''min_idle cannot be negative'')"

definition host_errors :: "PoolConfig \<Rightarrow> string list" where
  "host_errors p =
     msg_if (network_mode p \<notin> {''host'', ''bridge''})
       (pool_message p (''network_mode must be '' @ quoted ''host'' @ '' or '' @ quoted ''bridge'')) @
     msg_if (work_tmpfs_enabled p \<and> parse_size (effective_work_tmpfs_size p) = None)
       (pool_message p (''work_tmpfs_size must be '' @ quoted ''auto'' @ '', a size like '' @ quoted ''4g''
          @ '' or '' @ quoted ''512m'' @ '', or '' @ quoted ''0'' @ '' to disable (got: ''
          @ quoted (work_tmpfs_size p) @ '')'')) @
     msg_if (job_started_hook p \<noteq> [] \<and> \<not> starts_with (job_started_hook p) ''/'')
       (pool_message p ''job_started_hook must be an absolute host path'')"

text \<open>The loop appends the messages of each pool in the order the checks are written.\<close>

definition pool_errors :: "PoolConfig \<Rightarrow> string list" where
  "pool_errors p = identity_errors p @ range_errors p @ host_errors p"

definition validation_errors :: "PoolConfig list \<Rightarrow> string list" where
  "validation_errors pools = concat (map pool_errors pools)"

text \<open>\<open>validation_warnings\<close>: the kinds of warning, in the order of the loop; the wording is log text.\<close>

datatype pool_warning =
    DuplicateName string string string      \<comment> \<open>name, prefix, display\<close>
  | PrefixOverlap string string string      \<comment> \<open>name, prefix, the other pool\<close>
  | TmpfsNotBelowMemory string string string \<comment> \<open>name, tmpfs size, memory limit\<close>

definition tmpfs_warning :: "PoolConfig \<Rightarrow> pool_warning list" where
  "tmpfs_warning p =
     (let tmpfs = (if work_tmpfs_enabled p then parse_size (effective_work_tmpfs_size p) else None);
          memory = parse_size (memory_limit p)
      in case (tmpfs, memory) of
           (Some t, Some m) \<Rightarrow>
             if t \<noteq> 0 \<and> m \<noteq> 0 \<and> m \<le> t
             then [TmpfsNotBelowMemory (pool_name p) (effective_work_tmpfs_size p) (memory_limit p)] else []
         | _ \<Rightarrow> [])"

fun warnings_from :: "PoolConfig list \<Rightarrow> string list \<Rightarrow> PoolConfig list \<Rightarrow> pool_warning list" where
  "warnings_from pools seen [] = []"
| "warnings_from pools seen (p # ps) =
     (if pool_name p \<in> set seen
      then [DuplicateName (pool_name p) (container_prefix p) (display p)] else []) @
     map (\<lambda>other. PrefixOverlap (pool_name p) (container_prefix p) (pool_name other))
       (filter (\<lambda>other. pool_name other \<noteq> pool_name p \<and>
           starts_with (container_prefix other) (container_prefix p @ ''-'')) pools) @
     tmpfs_warning p @ warnings_from pools (pool_name p # seen) ps"

definition validation_warnings :: "PoolConfig list \<Rightarrow> pool_warning list" where
  "validation_warnings pools = warnings_from pools [] pools"

definition validate_pools :: "PoolConfig list \<Rightarrow> unit result" where
  "validate_pools pools = (if validation_errors pools \<noteq> [] then Inl (SystemExit 1) else Inr ())"

section \<open>What validation accepts\<close>

text \<open>
  The settings a pool must satisfy, stated without the error messages. \<open>pool_errors_Nil_iff\<close>
  says the imperative list of checks accepts exactly these pools.
\<close>

definition usable_identity :: "PoolConfig \<Rightarrow> bool" where
  "usable_identity p \<longleftrightarrow>
     pool_pat p \<noteq> [] \<and> \<not> starts_with (pool_pat p) ''${'' \<and> pool_owner p \<noteq> [] \<and>
     (pool_provider p = ''github'' \<and> base_url p = [] \<or>
      pool_provider p = ''gitea'' \<and>
        (starts_with (base_url p) ''http://'' \<or> starts_with (base_url p) ''https://'')) \<and>
     (pool_scope p = ''organization'' \<or>
      pool_scope p = ''personal'' \<and> pool_repo p = [] \<or>
      pool_scope p = ''repository'' \<and> pool_repo p \<noteq> [])"

definition usable_limits :: "PoolConfig \<Rightarrow> bool" where
  "usable_limits p \<longleftrightarrow>
     0 \<le> repo_discovery_ttl p \<and> github_poll_interval p \<in> insert 0 {15..3600} \<and>
     queued_min_age p \<in> {0..86400} \<and> (pool_instance p = [] \<or> instance_ok (pool_instance p)) \<and>
     stuck_timeout p \<in> {1..1440} \<and> repo_check_workers p \<in> {1..32} \<and>
     runner_operation_workers p \<in> {1..16} \<and> 0 \<le> max_runners p \<and> 0 \<le> min_idle p"

definition usable_host :: "PoolConfig \<Rightarrow> bool" where
  "usable_host p \<longleftrightarrow>
     (network_mode p = ''host'' \<or> network_mode p = ''bridge'') \<and>
     (effective_work_tmpfs_size p = [] \<or> parse_size (effective_work_tmpfs_size p) \<noteq> None) \<and>
     (job_started_hook p = [] \<or> starts_with (job_started_hook p) ''/'')"

definition usable_pool :: "PoolConfig \<Rightarrow> bool" where
  "usable_pool p \<longleftrightarrow> usable_identity p \<and> usable_limits p \<and> usable_host p"

lemma msg_if_Nil [simp]: "msg_if c m = [] \<longleftrightarrow> \<not> c"
  by (simp add: msg_if_def)

text \<open>The propositional content of the provider and scope checks, over any distinct names.\<close>

lemma provider_checks:
  "g \<noteq> t \<Longrightarrow>
   (\<not> v \<notin> {g, t} \<and> \<not> (v = t \<and> \<not> u) \<and> \<not> (v = g \<and> \<not> e)) = (v = g \<and> e \<or> v = t \<and> u)"
  by auto

lemma scope_checks:
  "distinct [x, y, z] \<Longrightarrow>
   (\<not> v \<notin> {x, y, z} \<and> \<not> (v = y \<and> \<not> e) \<and> \<not> (v = z \<and> e)) = (v = x \<or> v = y \<and> e \<or> v = z \<and> \<not> e)"
  by auto

lemma identity_checks_regroup:
  "(\<not> p1 \<and> \<not> p2 \<and> \<not> p3) = P \<Longrightarrow> (\<not> s1 \<and> \<not> s2 \<and> \<not> s3) = S \<Longrightarrow>
   (\<not> (a \<or> b) \<and> \<not> c \<and> \<not> p1 \<and> \<not> p2 \<and> \<not> p3 \<and> \<not> s1 \<and> \<not> s2 \<and> \<not> s3) = (\<not> a \<and> \<not> b \<and> \<not> c \<and> P \<and> S)"
  by blast

lemma identity_errors_Nil_iff: "identity_errors p = [] \<longleftrightarrow> usable_identity p"
proof -
  have "''github'' \<noteq> ''gitea''" and "distinct [''organization'', ''personal'', ''repository'']"
    by simp_all
  note checks = provider_checks [OF this(1)] scope_checks [OF this(2)]
  show ?thesis
    unfolding identity_errors_def usable_identity_def is_gitea_def append_is_Nil_conv msg_if_Nil
    by (rule identity_checks_regroup [OF checks])
qed

lemma range_errors_Nil_iff: "range_errors p = [] \<longleftrightarrow> usable_limits p"
  by (auto simp: range_errors_def usable_limits_def)

lemma effective_work_tmpfs_size_Nil_iff:
  "effective_work_tmpfs_size p = [] \<longleftrightarrow> \<not> work_tmpfs_enabled p"
  by (auto simp: effective_work_tmpfs_size_def work_tmpfs_enabled_def Let_def
      AUTO_WORK_TMPFS_FALLBACK_def split: option.splits)

lemma host_errors_Nil_iff: "host_errors p = [] \<longleftrightarrow> usable_host p"
  by (auto simp: host_errors_def usable_host_def effective_work_tmpfs_size_Nil_iff)

lemma pool_errors_Nil_iff: "pool_errors p = [] \<longleftrightarrow> usable_pool p"
  by (simp add: pool_errors_def usable_pool_def identity_errors_Nil_iff range_errors_Nil_iff
      host_errors_Nil_iff)

lemma validation_errors_Nil_iff: "validation_errors pools = [] \<longleftrightarrow> list_all usable_pool pools"
  by (simp add: validation_errors_def pool_errors_Nil_iff list_all_iff)

lemma validation_errors_Cons [simp]:
  "validation_errors (p # ps) = pool_errors p @ validation_errors ps"
  by (simp add: validation_errors_def)

section \<open>Sizes\<close>

lemma size_unit_letters: "size_unit u = Some k \<Longrightarrow> set u \<subseteq> set ''bkmg''"
  by (auto simp: size_unit_def split: if_splits)

lemma unit_letters_plain:
  "\<forall>c \<in> set ''bkmg''. \<not> is_space c \<and> \<not> is_digit c \<and> lower_char c = c"
  by code_simp

lemma size_unit_chars:
  "size_unit u = Some k \<Longrightarrow> c \<in> set u \<Longrightarrow> \<not> is_space c \<and> \<not> is_digit c \<and> lower_char c = c"
  using size_unit_letters unit_letters_plain by blast

lemma parse_size_show:
  assumes u: "size_unit u = Some k"
  shows "parse_size (show_nat n @ u) = Some (int n * k)"
proof -
  note chars = size_unit_chars [OF u]
  have "strip (show_nat n @ u) = show_nat n @ u"
    using chars show_nat_digits is_digit_not_special by (intro strip_no_space) auto
  moreover have "takeWhile is_digit (show_nat n @ u) = show_nat n"
    "dropWhile is_digit (show_nat n @ u) = u"
    using chars show_nat_digits
    by (cases u; auto simp: takeWhile_append dropWhile_append takeWhile_eq_all_conv)+
  moreover have "lower u = u" using chars by (auto simp: lower_def intro: map_idI)
  ultimately show ?thesis
    using u by (simp add: parse_size_def digits_value_show_nat)
qed

lemma digits_value_nonneg: "0 \<le> acc \<Longrightarrow> list_all is_digit s \<Longrightarrow> 0 \<le> digits_value acc s"
  by (induction s arbitrary: acc) (auto simp: is_digit_def in_range_def)

lemma size_unit_pos: "size_unit u = Some k \<Longrightarrow> 0 < k"
  by (auto simp: size_unit_def split: if_splits)

lemma parse_size_nonneg: "parse_size s = Some m \<Longrightarrow> 0 \<le> m"
  by (auto simp: parse_size_def Let_def list_all_iff dest!: size_unit_pos set_takeWhileD
      split: if_splits intro!: mult_nonneg_nonneg digits_value_nonneg)

lemma parse_size_mebibytes: "0 \<le> n \<Longrightarrow> parse_size (show_int n @ ''m'') = Some (n * 1024 ^ 2)"
  using parse_size_show [of "''m''" "1024 ^ 2" "nat n"]
  by (simp add: size_unit_def show_int_def)

section \<open>Repository pools\<close>

lemma for_repository_fields [simp]:
  "pool_repo (for_repository p r) = r" "pool_scope (for_repository p r) = ''repository''"
  "min_idle (for_repository p r) = 0" "max_runners (for_repository p r) = max_runners p"
  "pool_name (for_repository p r) = pool_name p @ ''-'' @ r"
  "pool_pat (for_repository p r) = pool_pat p" "pool_owner (for_repository p r) = pool_owner p"
  "pool_instance (for_repository p r) = pool_instance p"
  "pool_provider (for_repository p r) = pool_provider p" "base_url (for_repository p r) = base_url p"
  "runner_labels (for_repository p r) = runner_labels p"
  "queued_min_age (for_repository p r) = queued_min_age p"
  "stuck_timeout (for_repository p r) = stuck_timeout p"
  by (simp_all add: for_repository_def)

lemma safe_name_append [simp]: "safe_name (s @ t) = safe_name s @ safe_name t"
  by (simp add: safe_name_def)

lemma safe_name_dash [simp]: "safe_name ''-'' = ''-''"
  by (simp add: safe_name_def lower_def lower_char_def is_upper_alpha_def in_range_def
      char_code_def safe_char_def)

lemma container_prefix_for_repository:
  "container_prefix (for_repository p r) = container_prefix p @ ''-'' @ safe_name r"
proof -
  have "safe_name (pool_name p @ ''-'' @ r) = safe_name (pool_name p) @ ''-'' @ safe_name r"
    by (simp del: append_Cons)
  then show ?thesis by (simp add: container_prefix_def Let_def)
qed

lemma effective_work_tmpfs_size_for_repository [simp]:
  "effective_work_tmpfs_size (for_repository p r) = effective_work_tmpfs_size p"
proof -
  have "memory_limit (for_repository p r) = memory_limit p"
    "work_tmpfs_size (for_repository p r) = work_tmpfs_size p"
    by (simp_all add: for_repository_def)
  then show ?thesis
    by (simp add: effective_work_tmpfs_size_def work_tmpfs_enabled_def cong: if_cong)
qed

lemma usable_for_repository:
  assumes "usable_pool p" and "r \<noteq> []"
  shows "usable_pool (for_repository p r)"
proof -
  have "usable_identity (for_repository p r)"
    using assms by (simp add: usable_pool_def usable_identity_def)
  moreover have "usable_limits (for_repository p r)"
    using assms by (simp add: usable_pool_def usable_limits_def for_repository_def)
  moreover have "network_mode (for_repository p r) = network_mode p"
    "job_started_hook (for_repository p r) = job_started_hook p"
    by (simp_all add: for_repository_def)
  then have "usable_host (for_repository p r)"
    using assms by (simp add: usable_pool_def usable_host_def)
  ultimately show ?thesis by (simp add: usable_pool_def)
qed

lemma for_repository_not_personal: "r \<noteq> [] \<Longrightarrow> \<not> is_personal_level (for_repository p r)"
  by (simp add: is_personal_level_def)

section \<open>The size of the work mount\<close>

lemma effective_auto:
  assumes "work_tmpfs_enabled p" "lower (strip (work_tmpfs_size p)) = ''auto''"
    "parse_size (memory_limit p) = Some m" "m \<noteq> 0"
  shows "parse_size (effective_work_tmpfs_size p) = Some (m div 2 div 1024 ^ 2 * 1024 ^ 2)"
proof -
  have "0 \<le> m div 2 div 1024 ^ 2" using parse_size_nonneg [OF assms(3)] by (simp add: pos_imp_zdiv_nonneg_iff)
  moreover have "effective_work_tmpfs_size p = show_int (m div 2 div 1024 ^ 2) @ ''m''"
    using assms by (simp add: effective_work_tmpfs_size_def Let_def)
  ultimately show ?thesis using parse_size_mebibytes by simp
qed

section \<open>Properties\<close>

text \<open>C40. Validation accepts exactly the pools that satisfy the documented constraints; with
  any other pool in the list the daemon exits with status 1.\<close>

theorem validation_exact:
  "validate_pools pools = (if list_all usable_pool pools then Inr () else Inl (SystemExit 1))"
  using validation_errors_Nil_iff [of pools] by (auto simp: validate_pools_def)

text \<open>The repository pools a personal pool is split into are themselves valid pools, are
  never personal again, keep no idle runner, and their containers carry the personal pool's
  prefix, a dash and the repository's name.\<close>

lemma repository_pools_valid:
  assumes "usable_pool p" "r \<noteq> []"
  shows "validate_pools [for_repository p r] = Inr () \<and> \<not> is_personal_level (for_repository p r) \<and>
    min_idle (for_repository p r) = 0 \<and>
    container_prefix (for_repository p r) = container_prefix p @ ''-'' @ safe_name r"
  using usable_for_repository [OF assms] for_repository_not_personal [OF assms(2)]
  by (simp add: validate_pools_def pool_errors_Nil_iff validation_errors_def container_prefix_for_repository)

lemma repository_pools_valid_witness:
  "validate_pools [for_repository ((new_pool ''me'' ''t'' ''me'')\<lparr>pool_scope := ''personal''\<rparr>) ''web''] = Inr ()"
proof -
  have "pool_errors ((new_pool ''me'' ''t'' ''me'')\<lparr>pool_scope := ''personal''\<rparr>) = []" by code_simp
  then have "usable_pool ((new_pool ''me'' ''t'' ''me'')\<lparr>pool_scope := ''personal''\<rparr>)" by (simp add: pool_errors_Nil_iff)
  from repository_pools_valid [OF this, of "''web''"] show ?thesis by simp
qed

text \<open>With \<open>work_tmpfs_size: auto\<close> the RAM-backed work mount takes half of the memory
  limit, rounded down to whole mebibytes: never more than half, and less than one mebibyte
  short of it, so the job's own memory keeps at least half.\<close>

lemma auto_tmpfs_is_half:
  assumes "work_tmpfs_enabled p" "lower (strip (work_tmpfs_size p)) = ''auto''"
    "parse_size (memory_limit p) = Some m" "m \<noteq> 0"
  shows "\<exists>t. parse_size (effective_work_tmpfs_size p) = Some t \<and> 2 * t \<le> m \<and> m < 2 * (t + 1024 ^ 2)"
proof -
  let ?t = "m div 2 div 1024 ^ 2 * 1024 ^ 2"
  have "2 * ?t \<le> m \<and> m < 2 * (?t + 1024 ^ 2)" by simp linarith
  then show ?thesis using effective_auto [OF assms] by blast
qed

lemma auto_tmpfs_is_half_witness:
  "\<exists>t. parse_size (effective_work_tmpfs_size (new_pool ''ci'' ''t'' ''acme'')) = Some t \<and> 2 * t \<le> 2147483648"
proof -
  have "work_tmpfs_enabled (new_pool ''ci'' ''t'' ''acme'')"
    "lower (strip (work_tmpfs_size (new_pool ''ci'' ''t'' ''acme''))) = ''auto''"
    "parse_size (memory_limit (new_pool ''ci'' ''t'' ''acme'')) = Some 2147483648"
    by code_simp+
  from auto_tmpfs_is_half [OF this] show ?thesis by auto
qed

end
