(* ===== verification/HostMetrics.thy ===== *)
theory HostMetrics
  imports PyVal
begin

text \<open>
  \<open>orchestrator/rorch/hostmetrics.py\<close>: what the host has free. The files under
  \<open>/proc\<close> and \<open>/sys\<close> are the argument \<open>fs\<close>: \<open>read_text\<close> is \<open>None\<close> where reading raises
  \<open>OSError\<close>, \<open>list_dir\<close> gives the names in a directory.
\<close>

record HostMetrics =
  hm_cores :: int
  hm_cpu_count :: int
  hm_load1 :: pyfloat
  hm_mem_total_mb :: int
  hm_mem_available_mb :: int
  hm_temp_c :: "rat option"

record filesystem =
  read_text :: "string \<Rightarrow> string option"
  list_dir :: "string \<Rightarrow> string list"

section \<open>Free cores and temperature\<close>

text \<open>
  \<open>math.floor(cores * max(0.0, 1.0 - load1 / cpu_count))\<close>. \<open>max(0.0, nan)\<close> is \<open>0.0\<close>;
  a load of minus infinity makes \<open>math.floor\<close> raise.
\<close>

definition free_cores :: "HostMetrics \<Rightarrow> int result" where
  "free_cores m =
     (if hm_cpu_count m = 0 then Inr 0
      else (case hm_load1 m of
              Fin l \<Rightarrow> Inr \<lfloor>of_int (hm_cores m) * max 0 (1 - l / of_int (hm_cpu_count m))\<rfloor>
            | PosInf \<Rightarrow> Inr 0
            | NaN \<Rightarrow> Inr 0
            | NegInf \<Rightarrow> Inl (OverflowError ''cannot convert float infinity to integer'')))"

definition metrics_is_hot :: "HostMetrics \<Rightarrow> rat \<Rightarrow> bool" where
  "metrics_is_hot m max_temp = (case hm_temp_c m of None \<Rightarrow> False | Some t \<Rightarrow> max_temp \<le> t)"

section \<open>Reading the host\<close>

definition host_load1 :: "filesystem \<Rightarrow> string \<Rightarrow> pyfloat" where
  "host_load1 fs path =
     (case read_text fs path of
        None \<Rightarrow> Fin 0
      | Some text \<Rightarrow>
          (case split_ws text of
             [] \<Rightarrow> Fin 0
           | w # _ \<Rightarrow> (case float_of_str w of None \<Rightarrow> Fin 0 | Some f \<Rightarrow> f)))"

text \<open>The first line with the key decides: a malformed value ends the scan with 0.\<close>

fun meminfo_scan :: "string \<Rightarrow> string list \<Rightarrow> int" where
  "meminfo_scan key [] = 0"
| "meminfo_scan key (line # rest) =
     (if before_first (CHR '':'') line = key
      then (case split_ws (after_first (CHR '':'') line) of
              [] \<Rightarrow> 0
            | w # _ \<Rightarrow> (case py_int w of None \<Rightarrow> 0 | Some kb \<Rightarrow> kb div 1024))
      else meminfo_scan key rest)"

text \<open>\<open>text.splitlines()\<close> for text whose line breaks are newlines.\<close>

definition splitlines :: "string \<Rightarrow> string list" where
  "splitlines s =
     (let ls = split_on (CHR 0x0A) s in if last ls = [] then butlast ls else ls)"

definition meminfo_mb :: "filesystem \<Rightarrow> string \<Rightarrow> string \<Rightarrow> int" where
  "meminfo_mb fs path key =
     (case read_text fs path of None \<Rightarrow> 0 | Some text \<Rightarrow> meminfo_scan key (splitlines text))"

definition file_text :: "filesystem \<Rightarrow> string \<Rightarrow> string" where
  "file_text fs path = (case read_text fs path of None \<Rightarrow> '''' | Some t \<Rightarrow> strip t)"

definition CPU_SENSORS :: "(string \<times> string) list" where
  "CPU_SENSORS = [(''k10temp'', ''Tctl''), (''zenpower'', ''Tdie''), (''coretemp'', ''Package id 0'')]"

definition sorted_glob :: "filesystem \<Rightarrow> string \<Rightarrow> string \<Rightarrow> string list" where
  "sorted_glob fs dir pattern =
     map (\<lambda>n. dir @ ''/'' @ n) (sort (filter (glob pattern) (list_dir fs dir)))"

text \<open>\<open>chips.setdefault(name, chip)\<close>: the first chip of a name is kept.\<close>

fun chip_table :: "filesystem \<Rightarrow> string list \<Rightarrow> (string, string) dict \<Rightarrow> (string, string) dict" where
  "chip_table fs [] chips = chips"
| "chip_table fs (c # cs) chips =
     (let name = file_text fs (c @ ''/name'')
      in chip_table fs cs
           (if name \<noteq> [] \<and> map_of chips name = None then dict_set name c chips else chips))"

definition signed_digits :: "string \<Rightarrow> bool" where
  "signed_digits s = all_digits (dropWhile (\<lambda>c. c = CHR ''-'') s)"

text \<open>
  \<open>int(value) / 1000\<close> raises \<open>ValueError\<close> on more than one leading minus, which
  \<open>lstrip("-").isdigit()\<close> lets through.
\<close>

fun label_scan :: "filesystem \<Rightarrow> string \<Rightarrow> string list \<Rightarrow> rat option result" where
  "label_scan fs label [] = Inr None"
| "label_scan fs label (f # rest) =
     (if file_text fs f = label
      then (let value = file_text fs (replace_all ''_label'' ''_input'' f)
            in if value \<noteq> [] \<and> signed_digits value
               then (case py_int value of
                       None \<Rightarrow> Inl (ValueError ''invalid literal for int() with base 10'')
                     | Some n \<Rightarrow> Inr (Some (of_int n / 1000)))
               else label_scan fs label rest)
      else label_scan fs label rest)"

fun sensor_scan :: "filesystem \<Rightarrow> (string, string) dict \<Rightarrow> (string \<times> string) list \<Rightarrow> rat option result" where
  "sensor_scan fs chips [] = Inr None"
| "sensor_scan fs chips ((name, label) # rest) =
     (case map_of chips name of
        None \<Rightarrow> sensor_scan fs chips rest
      | Some chip \<Rightarrow>
          bind_result (label_scan fs label (sorted_glob fs chip ''temp*_label''))
            (\<lambda>r. case r of Some t \<Rightarrow> Inr (Some t) | None \<Rightarrow> sensor_scan fs chips rest))"

definition cpu_temp :: "filesystem \<Rightarrow> string \<Rightarrow> rat option result" where
  "cpu_temp fs hwmon = sensor_scan fs (chip_table fs (sorted_glob fs hwmon ''hwmon*'') []) CPU_SENSORS"

text \<open>
  \<open>read()\<close>: \<open>affinity\<close> is the size of \<open>os.sched_getaffinity(0)\<close>, \<open>None\<close> where the call
  raises; \<open>cpus\<close> is \<open>os.cpu_count()\<close>.
\<close>

definition read_cores :: "int option \<Rightarrow> int option \<Rightarrow> int" where
  "read_cores affinity cpus =
     (case affinity of Some n \<Rightarrow> n
      | None \<Rightarrow> (case cpus of Some n \<Rightarrow> if n = 0 then 1 else n | None \<Rightarrow> 1))"

definition read_metrics :: "filesystem \<Rightarrow> int option \<Rightarrow> int option \<Rightarrow> HostMetrics result" where
  "read_metrics fs affinity cpus =
     bind_result (cpu_temp fs ''/sys/class/hwmon'')
       (\<lambda>t. Inr \<lparr>hm_cores = read_cores affinity cpus,
                 hm_cpu_count = (case cpus of Some n \<Rightarrow> if n = 0 then 1 else n | None \<Rightarrow> 1),
                 hm_load1 = host_load1 fs ''/proc/loadavg'',
                 hm_mem_total_mb = meminfo_mb fs ''/proc/meminfo'' ''MemTotal'',
                 hm_mem_available_mb = meminfo_mb fs ''/proc/meminfo'' ''MemAvailable'',
                 hm_temp_c = t\<rparr>)"

section \<open>Bounds\<close>

lemma free_cores_bounds:
  assumes f: "free_cores m = Inr n" and c: "0 \<le> hm_cores m" and k: "0 < hm_cpu_count m"
    and l: "pf_le (Fin 0) (hm_load1 m)"
  shows "0 \<le> n \<and> n \<le> hm_cores m"
proof (cases "hm_load1 m")
  case (Fin x)
  with l have x: "0 \<le> x" by simp
  let ?s = "max 0 (1 - x / of_int (hm_cpu_count m)) :: rat"
  have s: "0 \<le> ?s" "?s \<le> 1" using x k by auto
  have n: "n = \<lfloor>of_int (hm_cores m) * ?s\<rfloor>" using f Fin k by (simp add: free_cores_def)
  have "of_int (hm_cores m) * ?s \<le> of_int (hm_cores m) * (1::rat)"
    using s c by (intro mult_left_mono) auto
  then have "n \<le> hm_cores m" using n by (simp add: floor_le_iff)
  moreover have "0 \<le> n" using n s c by simp
  ultimately show ?thesis by simp
qed (use f c k l in \<open>auto simp: free_cores_def\<close>)

lemma metrics_is_hot_unknown: "hm_temp_c m = None \<Longrightarrow> \<not> metrics_is_hot m t"
  by (simp add: metrics_is_hot_def)

section \<open>Properties\<close>

text \<open>The free cores a host reports are between zero and its cores, for every load the
  kernel can report, and an idle host reports all of them.\<close>

lemma free_cores_range:
  assumes "0 \<le> hm_cores m" "0 < hm_cpu_count m" "hm_load1 m = Fin l" "0 \<le> l"
  shows "\<exists>n. free_cores m = Inr n \<and> 0 \<le> n \<and> n \<le> hm_cores m \<and> (l = 0 \<longrightarrow> n = hm_cores m)"
proof -
  obtain n where n: "free_cores m = Inr n" using assms by (simp add: free_cores_def)
  have "0 \<le> n \<and> n \<le> hm_cores m" using free_cores_bounds [OF n] assms by simp
  moreover have "l = 0 \<Longrightarrow> n = hm_cores m" using n assms by (simp add: free_cores_def)
  ultimately show ?thesis using n by blast
qed

lemma free_cores_range_witness:
  "\<exists>n. free_cores \<lparr>hm_cores = 8, hm_cpu_count = 8, hm_load1 = Fin (5/2), hm_mem_total_mb = 0,
     hm_mem_available_mb = 0, hm_temp_c = None\<rparr> = Inr n \<and> 0 \<le> n \<and> n \<le> 8"
  using free_cores_range [of "\<lparr>hm_cores = 8, hm_cpu_count = 8, hm_load1 = Fin (5/2), hm_mem_total_mb = 0,
     hm_mem_available_mb = 0, hm_temp_c = None\<rparr>" "5/2"] by simp

end
