(* ===== verification/Federation.thy ===== *)
theory Federation
  imports HostMetrics PyJson
begin

text \<open>
  \<open>orchestrator/rorch/federation.py\<close>: equal peers share one queue. The configuration
  block (\<open>parse_config\<close>), the deterministic \<open>split\<close>, the validation of a peer's
  snapshot, and the \<open>Federation\<close> object with its peer views. A snapshot, a \<open>dict\<close> in the
  code, is the record \<open>Snapshot\<close>: \<open>build_snapshot\<close> and \<open>validate_snapshot\<close>, the only
  producers, give every field.
\<close>

section \<open>Configuration\<close>

record PeerConfig =
  peer_name :: string
  peer_url :: string

record FederationConfig =
  fed_enabled :: bool
  max_temp_c :: rat
  rescue_after_seconds :: int
  stale_after_seconds :: int
  timeout_seconds :: rat
  fed_peers :: "PeerConfig list"

definition default_federation_config :: FederationConfig where
  "default_federation_config =
     \<lparr>fed_enabled = False, max_temp_c = 85, rescue_after_seconds = 180, stale_after_seconds = 60,
      timeout_seconds = 2, fed_peers = []\<rparr>"

definition name_ok :: "string \<Rightarrow> bool" where
  "name_ok s =
     (case s of
        [] \<Rightarrow> False
      | c # t \<Rightarrow> (is_lower_alpha c \<or> is_digit c) \<and>
          list_all (\<lambda>x. is_lower_alpha x \<or> is_digit x \<or> x = CHR ''-'') t)"

text \<open>\<open>re.fullmatch(r"https?://[^\s/]+(/\S*)?", url)\<close>.\<close>

definition url_rest_ok :: "string \<Rightarrow> bool" where
  "url_rest_ok s =
     (let host = takeWhile (\<lambda>c. \<not> is_space c \<and> c \<noteq> CHR ''/'') s;
          tail = dropWhile (\<lambda>c. \<not> is_space c \<and> c \<noteq> CHR ''/'') s
      in host \<noteq> [] \<and> (tail = [] \<or> hd tail = CHR ''/'' \<and> list_all (\<lambda>c. \<not> is_space c) tail))"

definition url_ok :: "string \<Rightarrow> bool" where
  "url_ok s =
     (if starts_with s ''http://'' then url_rest_ok (drop 7 s)
      else starts_with s ''https://'' \<and> url_rest_ok (drop 8 s))"

definition parse_peer :: "(pyval \<Rightarrow> string) \<Rightarrow> pyval \<Rightarrow> PeerConfig result" where
  "parse_peer rp v =
     (case v of
        PDict d \<Rightarrow> Inr \<lparr>peer_name = strip (py_str_of rp (pget d ''name'' (PStr ''''))),
                        peer_url = rstrip_if (\<lambda>c. c = CHR ''/'') (py_str_of rp (pget d ''url'' (PStr '''')))\<rparr>
      | _ \<Rightarrow> Inl (AttributeError ''no attribute get''))"

text \<open>Iterating \<open>raw.get("peers") or []\<close>: a string or a dict yields strings, which have no \<open>get\<close>.\<close>

definition parse_peers :: "(pyval \<Rightarrow> string) \<Rightarrow> pyval \<Rightarrow> PeerConfig list result" where
  "parse_peers rp v =
     (if \<not> truthy v then Inr []
      else (case v of
              PList vs \<Rightarrow> map_result (parse_peer rp) vs
            | PStr _ \<Rightarrow> Inl (AttributeError ''no attribute get'')
            | PDict _ \<Rightarrow> Inl (AttributeError ''no attribute get'')
            | _ \<Rightarrow> Inl (TypeError ''object is not iterable'')))"

definition fin :: "pyfloat \<Rightarrow> rat" where
  "fin f = (case f of Fin r \<Rightarrow> r | _ \<Rightarrow> 0)"

definition duplicate_names :: "PeerConfig list \<Rightarrow> bool" where
  "duplicate_names ps = (\<not> distinct (map peer_name ps))"

definition config_errors :: "bool \<Rightarrow> pyfloat \<Rightarrow> int \<Rightarrow> int \<Rightarrow> pyfloat \<Rightarrow> PeerConfig list \<Rightarrow> string list" where
  "config_errors enabled temp rescue stale timeout ps =
     (if pf_le (Fin 30) temp \<and> pf_le temp (Fin 110) then []
      else [''federation.max_temp_c must be between 30 and 110'']) @
     (if rescue < 0 \<or> stale \<le> 0 then [''federation rescue/stale seconds must be positive''] else []) @
     (if pf_lt (Fin 0) timeout \<and> pf_le timeout (Fin 10) then []
      else [''federation.timeout_seconds must be in (0, 10]'']) @
     concat (map (\<lambda>p.
       (if name_ok (peer_name p) then [] else [''federation peer name '' @ quoted (peer_name p) @ '' must be lowercase letters, digits, -'']) @
       (if url_ok (peer_url p) then [] else [''federation peer '' @ quoted (peer_name p) @ '' url must be http(s)://host[:port]''])) ps) @
     (if duplicate_names ps then [''federation peer names must be unique''] else []) @
     (if enabled \<and> ps = [] then [''federation.enabled needs at least one peer''] else [])"

text \<open>
  \<open>parse_config\<close>. The \<open>except\<close> clause names \<open>TypeError\<close>, \<open>ValueError\<close> and
  \<open>AttributeError\<close>; any other exception escapes to the caller.
\<close>

fun caught_by_parse :: "py_error \<Rightarrow> bool" where
  "caught_by_parse (TypeError _) = True"
| "caught_by_parse (ValueError _) = True"
| "caught_by_parse (AttributeError _) = True"
| "caught_by_parse _ = False"

definition raw_config :: "(pyval \<Rightarrow> string) \<Rightarrow> (string \<times> pyval) list \<Rightarrow>
    (bool \<times> pyfloat \<times> int \<times> int \<times> pyfloat \<times> PeerConfig list) result" where
  "raw_config rp d =
     bind_result (py_float_of (pget d ''max_temp_c'' (PInt 85))) (\<lambda>temp.
     bind_result (py_int_of (pget d ''rescue_after_seconds'' (PInt 180))) (\<lambda>rescue.
     bind_result (py_int_of (pget d ''stale_after_seconds'' (PInt 60))) (\<lambda>stale.
     bind_result (py_float_of (pget d ''timeout_seconds'' (PInt 2))) (\<lambda>timeout.
     bind_result (parse_peers rp (pget d ''peers'' PNone)) (\<lambda>ps.
       Inr (truthy (pget d ''enabled'' (PBool False)), temp, rescue, stale, timeout, ps))))))"

definition parse_config :: "(pyval \<Rightarrow> string) \<Rightarrow> pyval \<Rightarrow> (FederationConfig \<times> string list) result" where
  "parse_config rp raw =
     (case raw of
        PNone \<Rightarrow> Inr (default_federation_config, [])
      | PDict d \<Rightarrow>
          (case raw_config rp d of
             Inl e \<Rightarrow> if caught_by_parse e then Inr (default_federation_config, [''federation: invalid value''])
                      else Inl e
           | Inr (enabled, temp, rescue, stale, timeout, ps) \<Rightarrow>
               let errors = config_errors enabled temp rescue stale timeout ps
               in Inr (if errors \<noteq> [] then (default_federation_config, errors)
                       else (\<lparr>fed_enabled = enabled, max_temp_c = fin temp, rescue_after_seconds = rescue,
                              stale_after_seconds = stale, timeout_seconds = fin timeout, fed_peers = ps\<rparr>, [])))
      | _ \<Rightarrow> Inr (default_federation_config, [''federation must be a mapping'']))"

section \<open>The split\<close>

record Slot =
  slot_name :: string
  slot_free_cores :: int
  slot_capacity :: int

definition share_of :: "(string, int) dict \<Rightarrow> string \<Rightarrow> int" where
  "share_of shares n = dict_get shares n 0"

definition slot_key :: "(string, int) dict \<Rightarrow> Slot \<Rightarrow> rat" where
  "slot_key shares s =
     of_int (slot_free_cores s + 1) / of_int (share_of shares (slot_name s) + 1)"

fun split_rounds :: "nat \<Rightarrow> Slot list \<Rightarrow> (string, int) dict \<Rightarrow> (string, int) dict" where
  "split_rounds 0 open_slots shares = shares"
| "split_rounds (Suc n) open_slots shares =
     (let open_slots = filter (\<lambda>s. share_of shares (slot_name s) < slot_capacity s) open_slots
      in case open_slots of
           [] \<Rightarrow> shares
         | s # ss \<Rightarrow>
             let best = slot_name (max_by (slot_key shares) s ss)
             in split_rounds n open_slots (dict_set best (share_of shares best + 1) shares))"

definition initial_shares :: "Slot list \<Rightarrow> (string, int) dict" where
  "initial_shares slots = fold (\<lambda>s d. dict_set (slot_name s) 0 d) slots []"

definition split :: "int \<Rightarrow> Slot list \<Rightarrow> (string, int) dict" where
  "split queued slots =
     split_rounds (nat (max 0 queued)) (sort_key slot_name slots) (initial_shares slots)"

section \<open>Snapshots\<close>

record PoolCounts =
  cnt_running :: int
  cnt_busy :: int
  cnt_max_runners :: int

record HostView =
  hv_cores :: int
  hv_cpu_count :: int
  hv_load1 :: pyfloat
  hv_mem_total_mb :: int
  hv_mem_available_mb :: int
  hv_temp_c :: "rat option"
  hv_free_cores :: int

record Snapshot =
  sn_instance :: string
  sn_version :: string
  sn_ts :: rat
  sn_host :: HostView
  sn_pools :: "(string, PoolCounts) dict"
  sn_global_free :: "int option"

definition temp_reached :: "rat option \<Rightarrow> rat \<Rightarrow> bool" where
  "temp_reached temp max_temp = (case temp of None \<Rightarrow> False | Some t \<Rightarrow> max_temp \<le> t)"

definition slot_for :: "Snapshot \<Rightarrow> string \<Rightarrow> rat \<Rightarrow> Slot option" where
  "slot_for sn pool max_temp =
     (case map_of (sn_pools sn) pool of
        None \<Rightarrow> None
      | Some counts \<Rightarrow>
          let hot = temp_reached (hv_temp_c (sn_host sn)) max_temp;
              capacity = cnt_max_runners counts - cnt_busy counts;
              capacity = (case sn_global_free sn of
                            None \<Rightarrow> capacity
                          | Some g \<Rightarrow> min capacity (g + cnt_running counts - cnt_busy counts))
          in Some \<lparr>slot_name = sn_instance sn, slot_free_cores = hv_free_cores (sn_host sn),
                   slot_capacity = (if hot then 0 else max 0 capacity)\<rparr>)"

definition host_as_dict :: "HostMetrics \<Rightarrow> HostView result" where
  "host_as_dict m =
     bind_result (free_cores m) (\<lambda>n.
       Inr \<lparr>hv_cores = hm_cores m, hv_cpu_count = hm_cpu_count m, hv_load1 = hm_load1 m,
            hv_mem_total_mb = hm_mem_total_mb m, hv_mem_available_mb = hm_mem_available_mb m,
            hv_temp_c = hm_temp_c m, hv_free_cores = n\<rparr>)"

definition build_snapshot :: "string \<Rightarrow> string \<Rightarrow> HostMetrics \<Rightarrow> (string, PoolCounts) dict \<Rightarrow>
    int option \<Rightarrow> rat \<Rightarrow> Snapshot result" where
  "build_snapshot inst version metrics pools global_free now =
     bind_result (host_as_dict metrics) (\<lambda>h.
       Inr \<lparr>sn_instance = inst, sn_version = version, sn_ts = now, sn_host = h, sn_pools = pools,
            sn_global_free = global_free\<rparr>)"

section \<open>Validating a peer's snapshot\<close>

definition MAX_COUNT :: int where "MAX_COUNT = 1000"
definition MAX_CORES :: int where "MAX_CORES = 1024"

text \<open>
  \<open>math.isfinite(n)\<close> converts an \<open>int\<close> to a float first, which overflows from
  \<open>2^1024 - 2^970\<close> on.
\<close>

definition int_fits_float :: "int \<Rightarrow> bool" where
  "int_fits_float n = (\<bar>n\<bar> < 2 ^ 1024 - 2 ^ 970)"

definition check_range :: "rat \<Rightarrow> rat \<Rightarrow> rat \<Rightarrow> string \<Rightarrow> rat result" where
  "check_range x low high what =
     (if low \<le> x \<and> x \<le> high then Inr x else Inl (ValueError (what @ '' out of range'')))"

definition number :: "pyval \<Rightarrow> rat \<Rightarrow> rat \<Rightarrow> string \<Rightarrow> rat result" where
  "number v low high what =
     (case v of
        PInt n \<Rightarrow> if int_fits_float n then check_range (of_int n) low high what
                  else Inl (OverflowError ''int too large to convert to float'')
      | PFloat (Fin r) \<Rightarrow> check_range r low high what
      | PFloat _ \<Rightarrow> Inl (ValueError (what @ '' out of range''))
      | _ \<Rightarrow> Inl (ValueError (what @ '' is not a number'')))"

definition int_number :: "pyval \<Rightarrow> rat \<Rightarrow> rat \<Rightarrow> string \<Rightarrow> int result" where
  "int_number v low high what = bind_result (number v low high what) (\<lambda>r. Inr (trunc_rat r))"

definition clean_counts :: "string \<times> pyval \<Rightarrow> (string \<times> PoolCounts) result" where
  "clean_counts entry =
     (case entry of (name, v) \<Rightarrow>
       (case v of
          PDict c \<Rightarrow>
            if 200 < length name then Inl (ValueError ''bad pool entry'')
            else
              bind_result (int_number (pget c ''running'' PNone) 0 (of_int MAX_COUNT) (name @ ''.running'')) (\<lambda>r.
              bind_result (int_number (pget c ''busy'' PNone) 0 (of_int MAX_COUNT) (name @ ''.busy'')) (\<lambda>b.
              bind_result (int_number (pget c ''max_runners'' PNone) 0 (of_int MAX_COUNT) (name @ ''.max_runners'')) (\<lambda>m.
                Inr (name, \<lparr>cnt_running = r, cnt_busy = b, cnt_max_runners = m\<rparr>))))
        | _ \<Rightarrow> Inl (ValueError ''bad pool entry'')))"

definition clean_host :: "(string \<times> pyval) list \<Rightarrow> HostView result" where
  "clean_host h =
     bind_result (int_number (pget h ''cores'' PNone) 1 (of_int MAX_CORES) ''cores'') (\<lambda>cores.
     bind_result (int_number (pget h ''cpu_count'' PNone) 1 (of_int MAX_CORES) ''cpu_count'') (\<lambda>cpus.
     bind_result (number (pget h ''load1'' PNone) 0 100000 ''load1'') (\<lambda>load.
     bind_result (int_number (pget h ''mem_total_mb'' PNone) 0 (2 ^ 30) ''mem_total_mb'') (\<lambda>mt.
     bind_result (int_number (pget h ''mem_available_mb'' PNone) 0 (2 ^ 30) ''mem_available_mb'') (\<lambda>ma.
     bind_result (case pget h ''temp_c'' PNone of PNone \<Rightarrow> Inr None
                  | t \<Rightarrow> bind_result (number t (- 50) 150 ''temp_c'') (\<lambda>r. Inr (Some r))) (\<lambda>temp.
     bind_result (int_number (pget h ''free_cores'' PNone) 0 (of_int MAX_CORES) ''free_cores'') (\<lambda>fc.
       Inr \<lparr>hv_cores = cores, hv_cpu_count = cpus, hv_load1 = Fin load, hv_mem_total_mb = mt,
            hv_mem_available_mb = ma, hv_temp_c = temp, hv_free_cores = fc\<rparr>)))))))"

definition validate_snapshot :: "(pyval \<Rightarrow> string) \<Rightarrow> pyval \<Rightarrow> Snapshot result" where
  "validate_snapshot rp data =
     (case data of
        PDict d \<Rightarrow>
          (case pget d ''instance'' PNone of
             PStr inst \<Rightarrow>
               if \<not> (inst = [] \<or> name_ok inst) then Inl (ValueError ''bad instance'')
               else
                 (case (pget d ''host'' PNone, pget d ''pools'' PNone) of
                    (PDict host, PDict pools) \<Rightarrow>
                      if MAX_COUNT < int (length pools) then Inl (ValueError ''host or pools missing'')
                      else
                        bind_result (map_result clean_counts pools) (\<lambda>clean_pools.
                        bind_result (number (pget d ''ts'' (PInt 0)) 0 (10 ^ 11) ''ts'') (\<lambda>ts.
                        bind_result (clean_host host) (\<lambda>h.
                        bind_result (case pget d ''global_free'' PNone of PNone \<Rightarrow> Inr None
                                     | g \<Rightarrow> bind_result (int_number g 0 (of_int MAX_COUNT) ''global_free'') (\<lambda>n. Inr (Some n))) (\<lambda>gf.
                          Inr \<lparr>sn_instance = inst, sn_version = take 64 (py_str_of rp (pget d ''version'' (PStr ''''))),
                               sn_ts = ts, sn_host = h, sn_pools = clean_pools, sn_global_free = gf\<rparr>))))
                  | _ \<Rightarrow> Inl (ValueError ''host or pools missing''))
           | _ \<Rightarrow> Inl (ValueError ''bad instance''))
      | _ \<Rightarrow> Inl (ValueError ''snapshot is not an object''))"

section \<open>The federation object\<close>

record PeerView =
  pv_snapshot :: "Snapshot option"
  pv_ok_at :: rat
  pv_error :: string

definition new_view :: PeerView where
  "new_view = \<lparr>pv_snapshot = None, pv_ok_at = 0, pv_error = []\<rparr>"

record Federation =
  fed_config :: FederationConfig
  fed_token :: string
  fed_own :: "Snapshot option"
  fed_views :: "(string, PeerView) dict"

definition new_federation :: "FederationConfig \<Rightarrow> string \<Rightarrow> Federation" where
  "new_federation cfg token = \<lparr>fed_config = cfg, fed_token = token, fed_own = None, fed_views = []\<rparr>"

text \<open>\<open>str(error)[:200] or type(error).__name__\<close>.\<close>

fun error_name :: "py_error \<Rightarrow> string" where
  "error_name (ValueError _) = ''ValueError''"
| "error_name (TypeError _) = ''TypeError''"
| "error_name (KeyError _) = ''KeyError''"
| "error_name IndexError = ''IndexError''"
| "error_name (RuntimeError _) = ''RuntimeError''"
| "error_name (OSError _) = ''OSError''"
| "error_name (OverflowError _) = ''OverflowError''"
| "error_name (ZeroDivisionError _) = ''ZeroDivisionError''"
| "error_name (DatabaseError _ _) = ''OperationalError''"
| "error_name (AttributeError _) = ''AttributeError''"
| "error_name (GitHubRateLimitError _ _) = ''GitHubRateLimitError''"
| "error_name (SystemExit _) = ''SystemExit''"

fun error_message :: "py_error \<Rightarrow> string" where
  "error_message (ValueError m) = m"
| "error_message (TypeError m) = m"
| "error_message (KeyError k) = quoted k"
| "error_message IndexError = ''list index out of range''"
| "error_message (RuntimeError m) = m"
| "error_message (OSError m) = m"
| "error_message (OverflowError m) = m"
| "error_message (ZeroDivisionError m) = m"
| "error_message (DatabaseError _ m) = m"
| "error_message (AttributeError m) = m"
| "error_message (GitHubRateLimitError _ r) = r"
| "error_message (SystemExit n) = show_int n"

definition error_text :: "py_error \<Rightarrow> string" where
  "error_text e = (let t = take 200 (error_message e) in if t = [] then error_name e else t)"

text \<open>
  \<open>fetch_snapshot\<close>: \<open>http\<close> is the request to a URL with an \<open>Authorization\<close> header, and what it gives the
  body of the response, one character per byte. A longer body is cut off, and then no JSON.
\<close>

definition PEER_PATH :: string where "PEER_PATH = ''/peer/state''"

definition fetch_snapshot :: "(string \<Rightarrow> string \<Rightarrow> 'w \<Rightarrow> string result \<times> 'w) \<Rightarrow> string \<Rightarrow> string \<Rightarrow> 'w \<Rightarrow> pyval result \<times> 'w" where
  "fetch_snapshot http url token w =
     (case http (url @ PEER_PATH) (''Bearer '' @ token) w of
        (r, w') \<Rightarrow> (bind_result r (\<lambda>body. loads (take (256 * 1024) body)), w'))"

text \<open>
  One peer of \<open>refresh\<close>. \<open>response\<close> is what \<open>fetch\<close> gave for this peer (an exception, or
  the parsed JSON) and \<open>now\<close> the clock after it.
\<close>

definition refresh_peer :: "(pyval \<Rightarrow> string) \<Rightarrow> PeerConfig \<Rightarrow> pyval result \<Rightarrow> rat \<Rightarrow> Federation \<Rightarrow> Federation" where
  "refresh_peer rp peer response now f =
     (case bind_result response (validate_snapshot rp) of
        Inl e \<Rightarrow>
          let view = dict_get (fed_views f) (peer_name peer) new_view
          in f\<lparr>fed_views := dict_set (peer_name peer) (view\<lparr>pv_error := error_text e\<rparr>) (fed_views f)\<rparr>
      | Inr snapshot \<Rightarrow>
          f\<lparr>fed_views := dict_set (peer_name peer)
              \<lparr>pv_snapshot = Some snapshot, pv_ok_at = now, pv_error = []\<rparr> (fed_views f)\<rparr>)"

definition refresh :: "(pyval \<Rightarrow> string) \<Rightarrow> (PeerConfig \<Rightarrow> pyval result) \<Rightarrow> (PeerConfig \<Rightarrow> rat) \<Rightarrow>
    Snapshot \<Rightarrow> Federation \<Rightarrow> Federation" where
  "refresh rp fetch clock own f =
     fold (\<lambda>peer. refresh_peer rp peer (fetch peer) (clock peer)) (fed_peers (fed_config f))
       (f\<lparr>fed_own := Some own\<rparr>)"

definition own_instance :: "Federation \<Rightarrow> string option" where
  "own_instance f = map_option sn_instance (fed_own f)"

definition view_fresh :: "Federation \<Rightarrow> rat \<Rightarrow> PeerView \<Rightarrow> bool" where
  "view_fresh f now v =
     (case pv_snapshot v of
        None \<Rightarrow> False
      | Some s \<Rightarrow> now - pv_ok_at v \<le> of_int (stale_after_seconds (fed_config f)) \<and>
          Some (sn_instance s) \<noteq> own_instance f)"

definition fresh_peers :: "Federation \<Rightarrow> rat \<Rightarrow> Snapshot list" where
  "fresh_peers f now =
     List.map_filter pv_snapshot (filter (view_fresh f now) (map snd (fed_views f)))"

definition is_hot :: "Federation \<Rightarrow> bool" where
  "is_hot f =
     (case fed_own f of
        None \<Rightarrow> False
      | Some own \<Rightarrow> fed_enabled (fed_config f) \<and>
          temp_reached (hv_temp_c (sn_host own)) (max_temp_c (fed_config f)))"

definition runs_pool :: "string \<Rightarrow> Snapshot \<Rightarrow> bool" where
  "runs_pool pool s = (map_of (sn_pools s) pool \<noteq> None)"

definition covers :: "Federation \<Rightarrow> string \<Rightarrow> rat \<Rightarrow> bool" where
  "covers f pool now =
     (case fed_own f of
        None \<Rightarrow> False
      | Some own \<Rightarrow> fed_enabled (fed_config f) \<and> runs_pool pool own \<and>
          list_ex (runs_pool pool) (fresh_peers f now))"

text \<open>The age of a queued job; a job with no readable timestamp is infinitely old.\<close>

datatype age = Age rat | InfiniteAge

instantiation age :: linorder
begin

fun less_eq_age :: "age \<Rightarrow> age \<Rightarrow> bool" where
  "less_eq_age (Age a) (Age b) = (a \<le> b)"
| "less_eq_age InfiniteAge (Age b) = False"
| "less_eq_age a InfiniteAge = True"

definition less_age :: "age \<Rightarrow> age \<Rightarrow> bool" where
  "less_age a b = (a \<le> b \<and> \<not> b \<le> (a::age))"

instance
proof
  fix a b c :: age
  show "a < b \<longleftrightarrow> a \<le> b \<and> \<not> b \<le> a" by (rule less_age_def)
  show "a \<le> a" by (cases a) simp_all
  show "a \<le> b \<Longrightarrow> b \<le> c \<Longrightarrow> a \<le> c" by (cases a; cases b; cases c) simp_all
  show "a \<le> b \<Longrightarrow> b \<le> a \<Longrightarrow> a = b" by (cases a; cases b) simp_all
  show "a \<le> b \<or> b \<le> a" by (cases a; cases b) auto
qed

end

text \<open>\<open>age >= seconds\<close>.\<close>

definition age_at_least :: "int \<Rightarrow> age \<Rightarrow> bool" where
  "age_at_least n a = (Age (of_int n) \<le> a)"

lemma age_at_least_simps [simp]: "age_at_least n (Age a) = (of_int n \<le> a)" "age_at_least n InfiniteAge"
  by (simp_all add: age_at_least_def)

lemma age_at_least_antimono: "m \<le> n \<Longrightarrow> age_at_least n a \<Longrightarrow> age_at_least m a"
  unfolding age_at_least_def by (rule order_trans [of "Age (of_int m)" "Age (of_int n)"]) simp_all

definition federation_slots :: "Federation \<Rightarrow> string \<Rightarrow> rat \<Rightarrow> Slot list" where
  "federation_slots f pool now =
     List.map_filter (\<lambda>s. slot_for s pool (max_temp_c (fed_config f)))
       ((case fed_own f of None \<Rightarrow> [] | Some own \<Rightarrow> [own]) @ fresh_peers f now)"

definition rescue_count :: "Federation \<Rightarrow> age list \<Rightarrow> int" where
  "rescue_count f ages = int (length (filter (age_at_least (rescue_after_seconds (fed_config f))) ages))"

definition queue_input :: "Federation \<Rightarrow> string \<Rightarrow> age list \<Rightarrow> rat \<Rightarrow> int \<times> (string, int) dict" where
  "queue_input f pool ages now =
     (let shares = split (int (length ages)) (federation_slots f pool now);
          mine = share_of shares (case own_instance f of None \<Rightarrow> [] | Some i \<Rightarrow> i)
      in (if is_hot f then 0 else max mine (rescue_count f ages), shares))"

section \<open>Status and the peer listener\<close>

record PeerStatus =
  ps_name :: string
  ps_url :: string
  ps_ok :: bool
  ps_age_seconds :: "rat option"
  ps_error :: string
  ps_snapshot :: "Snapshot option"

text \<open>\<open>round(now - view.ok_at, 1)\<close> is display rounding and is left out.\<close>

definition peer_status :: "Federation \<Rightarrow> rat \<Rightarrow> PeerConfig \<Rightarrow> PeerStatus" where
  "peer_status f now p =
     (let v = dict_get (fed_views f) (peer_name p) new_view
      in \<lparr>ps_name = peer_name p, ps_url = peer_url p,
          ps_ok = (pv_snapshot v \<noteq> None \<and> pv_error v = []),
          ps_age_seconds = (if pv_snapshot v = None then None else Some (now - pv_ok_at v)),
          ps_error = pv_error v, ps_snapshot = pv_snapshot v\<rparr>)"

definition federation_status :: "Federation \<Rightarrow> rat \<Rightarrow> bool \<times> rat \<times> bool \<times> Snapshot option \<times> PeerStatus list" where
  "federation_status f now =
     (fed_enabled (fed_config f), max_temp_c (fed_config f), is_hot f, fed_own f,
      map (peer_status f now) (fed_peers (fed_config f)))"

datatype peer_response = PeerUnauthorized | PeerStarting | PeerState Snapshot

definition bearer_token :: "string \<Rightarrow> string" where
  "bearer_token header = (if starts_with header ''Bearer '' then drop 7 header else [])"

definition peer_state :: "Federation \<Rightarrow> string \<Rightarrow> peer_response result" where
  "peer_state f header =
     (if fed_token f = [] then Inr PeerUnauthorized
      else bind_result (compare_digest (bearer_token header) (fed_token f)) (\<lambda>ok.
        if \<not> ok then Inr PeerUnauthorized
        else (case fed_own f of None \<Rightarrow> Inr PeerStarting | Some own \<Rightarrow> Inr (PeerState own))))"

end
