(* ===== verification/Effect.thy ===== *)
theory Effect
  imports Prelude
begin

text \<open>
  Code with state and exceptions: an action takes the state and returns a result (a value
  or an exception) with the new state. State changes made before an exception stay, as in
  Python. \<open>catch\<close> is \<open>try/except\<close>, \<open>ensure\<close> is \<open>try/finally\<close>.
\<close>

type_synonym ('s, 'a) eff = "'s \<Rightarrow> 'a result \<times> 's"

definition ret :: "'a \<Rightarrow> ('s, 'a) eff" where
  "ret x s = (Inr x, s)"

definition raise_error :: "py_error \<Rightarrow> ('s, 'a) eff" where
  "raise_error e s = (Inl e, s)"

definition andThen :: "('s, 'a) eff \<Rightarrow> ('a \<Rightarrow> ('s, 'b) eff) \<Rightarrow> ('s, 'b) eff" where
  "andThen m f s = (case m s of (Inl e, s') \<Rightarrow> (Inl e, s') | (Inr x, s') \<Rightarrow> f x s')"

definition catch :: "('s, 'a) eff \<Rightarrow> (py_error \<Rightarrow> ('s, 'a) eff) \<Rightarrow> ('s, 'a) eff" where
  "catch m h s = (case m s of (Inl e, s') \<Rightarrow> h e s' | (Inr x, s') \<Rightarrow> (Inr x, s'))"

text \<open>A pure computation that may raise.\<close>

definition lift_result :: "'a result \<Rightarrow> ('s, 'a) eff" where
  "lift_result r s = (r, s)"

text \<open>\<open>try: m finally: f\<close>, for a cleanup that does not raise.\<close>

definition ensure :: "('s, 'a) eff \<Rightarrow> ('s \<Rightarrow> 's) \<Rightarrow> ('s, 'a) eff" where
  "ensure m f s = (case m s of (r, s') \<Rightarrow> (r, f s'))"

definition attempt :: "('s, 'a) eff \<Rightarrow> ('s, 'a result) eff" where
  "attempt m s = (case m s of (r, s') \<Rightarrow> (Inr r, s'))"

definition read_state :: "('s \<Rightarrow> 'a) \<Rightarrow> ('s, 'a) eff" where
  "read_state f s = (Inr (f s), s)"

definition update_state :: "('s \<Rightarrow> 's) \<Rightarrow> ('s, unit) eff" where
  "update_state f s = (Inr (), f s)"

text \<open>\<open>try: m except Exception: pass\<close>, for an action whose value is not used.\<close>

definition swallow :: "('s, 'a) eff \<Rightarrow> ('s, unit) eff" where
  "swallow m s = (Inr (), snd (m s))"

fun each :: "('a \<Rightarrow> ('s, 'b) eff) \<Rightarrow> 'a list \<Rightarrow> ('s, unit) eff" where
  "each f [] s = (Inr (), s)"
| "each f (x # xs) s = andThen (f x) (\<lambda>_. each f xs) s"

fun collect :: "('a \<Rightarrow> ('s, 'b) eff) \<Rightarrow> 'a list \<Rightarrow> ('s, 'b list) eff" where
  "collect f [] s = (Inr [], s)"
| "collect f (x # xs) s = andThen (f x) (\<lambda>y. andThen (collect f xs) (\<lambda>ys. ret (y # ys))) s"

named_theorems eff_simps "unfolding of the effect combinators"

lemmas [eff_simps] = ret_def raise_error_def andThen_def catch_def ensure_def attempt_def
  read_state_def update_state_def swallow_def

lemma ret_apply [simp]: "ret x s = (Inr x, s)"
  by (simp add: ret_def)

lemma raise_apply [simp]: "raise_error e s = (Inl e, s)"
  by (simp add: raise_error_def)

lemma read_state_apply [simp]: "read_state f s = (Inr (f s), s)"
  by (simp add: read_state_def)

lemma update_state_apply [simp]: "update_state f s = (Inr (), f s)"
  by (simp add: update_state_def)

lemma andThen_Inl [simp]: "m s = (Inl e, s') \<Longrightarrow> andThen m f s = (Inl e, s')"
  by (simp add: andThen_def)

lemma andThen_Inr [simp]: "m s = (Inr x, s') \<Longrightarrow> andThen m f s = f x s'"
  by (simp add: andThen_def)

lemma andThen_ret [simp]: "andThen (ret x) f = f x"
  by (simp add: fun_eq_iff)

lemma snd_swallow [simp]: "snd (swallow m s) = snd (m s)"
  by (simp add: swallow_def)

lemma fst_swallow [simp]: "fst (swallow m s) = Inr ()"
  by (simp add: swallow_def)

lemma snd_attempt [simp]: "snd (attempt m s) = snd (m s)"
  by (simp add: attempt_def split: prod.splits)

lemma snd_ensure [simp]: "snd (ensure m f s) = f (snd (m s))"
  by (simp add: ensure_def split: prod.splits)

section \<open>What an action leaves unchanged\<close>

text \<open>
  \<open>keeps v m\<close>: the view \<open>v\<close> of the state is the same after \<open>m\<close>, however \<open>m\<close> ends.
  The combinators keep what their parts keep.
\<close>

definition keeps :: "('s \<Rightarrow> 'v) \<Rightarrow> ('s, 'a) eff \<Rightarrow> bool" where
  "keeps v m \<longleftrightarrow> (\<forall>s. v (snd (m s)) = v s)"

named_theorems keeps_intros "introduction rules for keeps"

lemma keepsD: "keeps v m \<Longrightarrow> v (snd (m s)) = v s"
  by (simp add: keeps_def)

lemma keeps_ret [keeps_intros]: "keeps v (ret x)"
  by (simp add: keeps_def)

lemma keeps_raise [keeps_intros]: "keeps v (raise_error e)"
  by (simp add: keeps_def)

lemma keeps_read [keeps_intros]: "keeps v (read_state f)"
  by (simp add: keeps_def)

lemma keeps_update [keeps_intros]: "(\<And>s. v (f s) = v s) \<Longrightarrow> keeps v (update_state f)"
  by (simp add: keeps_def)

lemma keeps_andThen [keeps_intros]:
  "keeps v m \<Longrightarrow> (\<And>x. keeps v (f x)) \<Longrightarrow> keeps v (andThen m f)"
  unfolding keeps_def andThen_def by (auto split: prod.splits sum.splits) (metis snd_conv)+

lemma keeps_catch [keeps_intros]:
  "keeps v m \<Longrightarrow> (\<And>e. keeps v (h e)) \<Longrightarrow> keeps v (catch m h)"
  unfolding keeps_def catch_def by (auto split: prod.splits sum.splits) (metis snd_conv)+

lemma keeps_ensure [keeps_intros]:
  "keeps v m \<Longrightarrow> (\<And>s. v (f s) = v s) \<Longrightarrow> keeps v (ensure m f)"
  by (simp add: keeps_def)

lemma keeps_attempt [keeps_intros]: "keeps v m \<Longrightarrow> keeps v (attempt m)"
  by (simp add: keeps_def)

lemma keeps_swallow [keeps_intros]: "keeps v m \<Longrightarrow> keeps v (swallow m)"
  by (simp add: keeps_def)

lemma keeps_each [keeps_intros]: "(\<And>x. keeps v (f x)) \<Longrightarrow> keeps v (each f xs)"
proof (induction xs)
  case Nil
  then show ?case by (simp add: keeps_def)
next
  case (Cons x xs)
  have "keeps v (each f xs)" using Cons by simp
  then have "keeps v (andThen (f x) (\<lambda>_. each f xs))" using Cons.prems by (intro keeps_andThen)
  then show ?case by (simp add: keeps_def)
qed

lemma keeps_collect [keeps_intros]: "(\<And>x. keeps v (f x)) \<Longrightarrow> keeps v (collect f xs)"
proof (induction xs)
  case Nil
  then show ?case by (simp add: keeps_def)
next
  case (Cons x xs)
  have "keeps v (collect f xs)" using Cons by simp
  then have "keeps v (andThen (f x) (\<lambda>y. andThen (collect f xs) (\<lambda>ys. ret (y # ys))))"
    using Cons.prems by (intro keeps_intros)
  then show ?case by (simp add: keeps_def)
qed

lemma keeps_if [keeps_intros]: "(c \<Longrightarrow> keeps v m) \<Longrightarrow> (\<not> c \<Longrightarrow> keeps v n) \<Longrightarrow> keeps v (if c then m else n)"
  by simp

lemma keeps_case_option [keeps_intros]:
  "keeps v m \<Longrightarrow> (\<And>x. keeps v (f x)) \<Longrightarrow> keeps v (case a of None \<Rightarrow> m | Some x \<Rightarrow> f x)"
  by (cases a) simp_all

lemma keeps_prod [keeps_intros]: "(\<And>a b. keeps v (f a b)) \<Longrightarrow> keeps v (case x of (a, b) \<Rightarrow> f a b)"
  by (cases x) simp

lemma keeps_case_sum [keeps_intros]:
  "(\<And>x. keeps v (f x)) \<Longrightarrow> (\<And>y. keeps v (g y)) \<Longrightarrow> keeps v (case a of Inl x \<Rightarrow> f x | Inr y \<Rightarrow> g y)"
  by (cases a) simp_all

section \<open>What an action returns\<close>

text \<open>\<open>yields P m\<close>: when \<open>m\<close> returns normally, its value satisfies \<open>P\<close>.\<close>

definition yields :: "('a \<Rightarrow> bool) \<Rightarrow> ('s, 'a) eff \<Rightarrow> bool" where
  "yields P m \<longleftrightarrow> (\<forall>s x s'. m s = (Inr x, s') \<longrightarrow> P x)"

named_theorems yields_intros "introduction rules for yields"

lemma yieldsD: "yields P m \<Longrightarrow> m s = (Inr x, s') \<Longrightarrow> P x"
  unfolding yields_def by blast

lemma yields_ret [yields_intros]: "P x \<Longrightarrow> yields P (ret x)"
  by (simp add: yields_def)

lemma yields_raise [yields_intros]: "yields P (raise_error e)"
  by (simp add: yields_def)

lemma yields_andThen [yields_intros]: "(\<And>x. yields P (f x)) \<Longrightarrow> yields P (andThen m f)"
  unfolding yields_def andThen_def by (auto split: prod.splits sum.splits)

lemma yields_andThen_dep:
  "yields Q m \<Longrightarrow> (\<And>x. Q x \<Longrightarrow> yields P (f x)) \<Longrightarrow> yields P (andThen m f)"
  unfolding yields_def andThen_def by (fastforce split: prod.splits sum.splits)

lemma yields_catch [yields_intros]:
  "yields P m \<Longrightarrow> (\<And>e. yields P (h e)) \<Longrightarrow> yields P (catch m h)"
  unfolding yields_def catch_def by (auto split: prod.splits sum.splits)

lemma yields_if [yields_intros]: "(c \<Longrightarrow> yields P m) \<Longrightarrow> (\<not> c \<Longrightarrow> yields P n) \<Longrightarrow> yields P (if c then m else n)"
  by simp

lemma yields_case_option [yields_intros]:
  "(a = None \<Longrightarrow> yields P m) \<Longrightarrow> (\<And>x. a = Some x \<Longrightarrow> yields P (f x)) \<Longrightarrow>
   yields P (case a of None \<Rightarrow> m | Some x \<Rightarrow> f x)"
  by (cases a) simp_all

lemma yields_prod [yields_intros]: "(\<And>a b. yields P (f a b)) \<Longrightarrow> yields P (case x of (a, b) \<Rightarrow> f a b)"
  by (cases x) simp

lemma yields_attempt: "yields P m \<Longrightarrow> yields (\<lambda>r. case r of Inl _ \<Rightarrow> True | Inr x \<Rightarrow> P x) (attempt m)"
  unfolding yields_def attempt_def by (auto split: prod.splits sum.splits)

lemma andThen_InrD:
  "andThen m f s = (Inr y, s'') \<Longrightarrow> \<exists>x s'. m s = (Inr x, s') \<and> f x s' = (Inr y, s'')"
  by (auto simp: andThen_def split: prod.splits sum.splits)

lemma collect_yields:
  assumes "collect f xs s = (Inr ys, s')" "\<And>x. yields (P x) (f x)"
  shows "list_all2 P xs ys"
  using assms(1)
proof (induction xs arbitrary: s ys)
  case Nil
  then show ?case by simp
next
  case (Cons x xs)
  from Cons.prems obtain y t where y: "f x s = (Inr y, t)"
    and rest: "andThen (collect f xs) (\<lambda>ys. ret (y # ys)) t = (Inr ys, s')"
    by (auto dest!: andThen_InrD)
  from rest obtain zs where zs: "collect f xs t = (Inr zs, s')" "ys = y # zs"
    by (auto dest!: andThen_InrD)
  with Cons.IH [OF zs(1)] yieldsD [OF assms(2) y] show ?case by simp
qed

section \<open>Invariants of the state\<close>

text \<open>\<open>preserves I m\<close>: from a state with \<open>I\<close>, the state is in \<open>I\<close> however \<open>m\<close> ends.\<close>

definition preserves :: "('s \<Rightarrow> bool) \<Rightarrow> ('s, 'a) eff \<Rightarrow> bool" where
  "preserves I m \<longleftrightarrow> (\<forall>s. I s \<longrightarrow> I (snd (m s)))"

named_theorems preserves_intros "introduction rules for preserves"

lemma preservesI: "(\<And>s. I s \<Longrightarrow> I (snd (m s))) \<Longrightarrow> preserves I m"
  by (simp add: preserves_def)

lemma preservesD: "preserves I m \<Longrightarrow> I s \<Longrightarrow> I (snd (m s))"
  by (simp add: preserves_def)

lemma preserves_swallow: "preserves I m \<Longrightarrow> preserves I (swallow m)"
  by (simp add: preserves_def swallow_def)

lemma preserves_attempt: "preserves I m \<Longrightarrow> preserves I (attempt m)"
  by (auto simp: preserves_def attempt_def split: prod.splits)

lemma keeps_preserves: "keeps v m \<Longrightarrow> (\<And>s. I s = J (v s)) \<Longrightarrow> preserves I m"
  by (simp add: preserves_def keeps_def)

lemma preserves_ret [preserves_intros]: "preserves I (ret x)"
  by (simp add: preserves_def)

lemma preserves_raise [preserves_intros]: "preserves I (raise_error e)"
  by (simp add: preserves_def)

lemma preserves_read [preserves_intros]: "preserves I (read_state f)"
  by (simp add: preserves_def)

lemma preserves_update [preserves_intros]: "(\<And>s. I s \<Longrightarrow> I (f s)) \<Longrightarrow> preserves I (update_state f)"
  by (simp add: preserves_def)

lemma preserves_andThen [preserves_intros]:
  "preserves I m \<Longrightarrow> (\<And>x. preserves I (f x)) \<Longrightarrow> preserves I (andThen m f)"
  unfolding preserves_def andThen_def by (auto split: prod.splits sum.splits)

text \<open>The continuation may use what the first part returned.\<close>

lemma preserves_andThen_dep:
  assumes "preserves I m" "\<And>s x s'. I s \<Longrightarrow> m s = (Inr x, s') \<Longrightarrow> I (snd (f x s'))"
  shows "preserves I (andThen m f)"
proof (rule preservesI)
  fix s assume s: "I s"
  obtain r s' where m: "m s = (r, s')" by force
  have "I s'" using preservesD [OF assms(1) s] m by simp
  then show "I (snd (andThen m f s))"
    using assms(2) [OF s] m by (cases r) (simp_all add: andThen_def)
qed

lemma preserves_andThen_yields:
  "preserves I m \<Longrightarrow> yields Q m \<Longrightarrow> (\<And>x. Q x \<Longrightarrow> preserves I (f x)) \<Longrightarrow> preserves I (andThen m f)"
  by (rule preserves_andThen_dep) (auto dest: yieldsD preservesD intro: preservesD simp: preserves_def, metis snd_conv yieldsD)

lemma preserves_catch [preserves_intros]:
  "preserves I m \<Longrightarrow> (\<And>e. preserves I (h e)) \<Longrightarrow> preserves I (catch m h)"
  unfolding preserves_def catch_def by (auto split: prod.splits sum.splits)

lemma preserves_if [preserves_intros]:
  "(c \<Longrightarrow> preserves I m) \<Longrightarrow> (\<not> c \<Longrightarrow> preserves I n) \<Longrightarrow> preserves I (if c then m else n)"
  by simp

lemma preserves_case_option [preserves_intros]:
  "(a = None \<Longrightarrow> preserves I m) \<Longrightarrow> (\<And>x. a = Some x \<Longrightarrow> preserves I (f x)) \<Longrightarrow>
   preserves I (case a of None \<Rightarrow> m | Some x \<Rightarrow> f x)"
  by (cases a) simp_all

lemma preserves_each [preserves_intros]: "(\<And>x. preserves I (f x)) \<Longrightarrow> preserves I (each f xs)"
proof (induction xs)
  case Nil
  then show ?case by (simp add: preserves_def)
next
  case (Cons x xs)
  have "preserves I (each f xs)" using Cons by simp
  then have "preserves I (andThen (f x) (\<lambda>_. each f xs))" using Cons.prems by (intro preserves_andThen)
  then show ?case by (simp add: preserves_def)
qed

lemma keeps_lift [keeps_intros]: "keeps v (lift_result r)"
  by (simp add: keeps_def lift_result_def)

lemma preserves_lift [preserves_intros]: "preserves I (lift_result r)"
  by (simp add: preserves_def lift_result_def)

lemma preserves_prod [preserves_intros]:
  "(\<And>a b. preserves I (f a b)) \<Longrightarrow> preserves I (case x of (a, b) \<Rightarrow> f a b)"
  by (cases x) simp

end
