(* ===== verification/Protocols.thy ===== *)
theory Protocols
  imports Config Federation Effect
begin

text \<open>
  \<open>orchestrator/rorch/protocols.py\<close>: the values that cross the component boundaries and
  the two protocols the scaler is written against, \<open>RunnerAPIClient\<close> and
  \<open>ContainerManager\<close>, as records of operations over a world type; \<open>StorePort\<close> is the part
  of the \<open>Store\<close> interface the scaler calls, and \<open>Runtime_env\<close> the clocks, the digest and
  the thread pool. A client of a protocol is a definition that takes such a record, as the
  Python class takes the object. \<open>get_queued_count\<close> and \<open>get_queued_ages\<close> return the
  collected jobs beside the value instead of appending to a list argument.
\<close>

record RunnerInfo =
  runner_id :: int
  runner_name :: string
  runner_status :: string
  runner_busy :: bool

record JobInfo =
  job_id :: int
  job_repo :: string
  job_workflow :: string
  job_name :: string
  job_runner :: string
  job_status :: string
  job_conclusion :: string
  job_url :: string
  job_started_at :: string
  job_completed_at :: string

record ContainerInfo =
  ci_name :: string
  ci_image :: string
  ci_status :: string
  ci_running_for :: string
  ci_minutes :: pyfloat

record 'w RunnerAPIClient =
  list_repositories_op :: "PoolConfig \<Rightarrow> ('w, string list option) eff"
  get_queued_count_op :: "PoolConfig \<Rightarrow> ('w, int \<times> JobInfo list) eff"
  get_queued_ages_op :: "PoolConfig \<Rightarrow> ('w, age list \<times> JobInfo list) eff"
  list_runners_op :: "PoolConfig \<Rightarrow> ('w, RunnerInfo list option) eff"
  deregister_runner_op :: "PoolConfig \<Rightarrow> int \<Rightarrow> ('w, bool) eff"

text \<open>The operations of \<open>ContainerManager\<close> the scaler calls.\<close>

record 'w ContainerManager =
  running_containers_op :: "string \<Rightarrow> ('w, string list) eff"
  cleanup_exited_op :: "string \<Rightarrow> ('w, unit) eff"
  cleanup_stuck_op :: "string \<Rightarrow> string set \<Rightarrow> int \<Rightarrow> ('w, unit) eff"
  spawn_runner_op :: "PoolConfig \<Rightarrow> ('w, bool) eff"

record TickSnapshot =
  ts_pool :: string
  ts_display :: string
  ts_containers :: int
  ts_online :: int
  ts_idle :: int
  ts_busy :: int
  ts_queued :: int
  ts_duration :: rat

record PoolState =
  st_paused :: bool
  st_draining :: bool

definition default_pool_state :: PoolState where
  "default_pool_state = \<lparr>st_paused = False, st_draining = False\<rparr>"

record 'w StorePort =
  record_tick_op :: "TickSnapshot \<Rightarrow> ('w, unit) eff"
  record_event_op :: "string \<Rightarrow> string \<Rightarrow> string \<Rightarrow> string \<Rightarrow> ('w, unit) eff"
  sync_jobs_op :: "string \<Rightarrow> JobInfo list \<Rightarrow> ('w, unit) eff"
  replace_runner_status_op :: "string \<Rightarrow> (string \<times> string \<times> bool) list \<Rightarrow> ('w, unit) eff"

text \<open>
  \<open>monotonic_op\<close> and \<open>wall_clock_op\<close> are the two clocks, \<open>sha256_op\<close> the digest of a
  token, \<open>submit_op\<close> the hand-over of a task to a thread pool, which raises
  \<open>RuntimeError\<close> when no thread can be started.
\<close>

record 'w RuntimeEnv =
  monotonic_op :: "('w, rat) eff"
  wall_clock_op :: "('w, rat) eff"
  submit_op :: "('w, unit) eff"
  sha256_op :: "string \<Rightarrow> string"

record 'w Ports =
  api :: "'w RunnerAPIClient"
  docker :: "'w ContainerManager"
  store :: "'w StorePort option"
  runtime :: "'w RuntimeEnv"

end
