(* ===== verification/Scaler.thy ===== *)
theory Scaler
  imports Protocols
begin

text \<open>
  \<open>orchestrator/rorch/scaler.py\<close>: \<open>PoolScaler\<close>. The object's fields are the record
  \<open>PoolScaler\<close>, with the world its collaborators act on in the last field. Every method is
  an action on that record. Threads: the repository inspections and the runner operations
  of one tick run here one after the other, in the order they are submitted; what
  interleaves across pools (reserving, spawning and releasing slots of the global cap) is
  the step relation of the theory \<open>GlobalCap\<close>. Log lines are not modelled.
\<close>

definition MAX_REPOSITORY_CACHE_ENTRIES :: nat where
  "MAX_REPOSITORY_CACHE_ENTRIES = 128"

definition GLOBAL_CONTAINER_PREFIX :: string where
  "GLOBAL_CONTAINER_PREFIX = ''gh-runner''"

record RepositoryCacheEntry =
  rc_repositories :: "string list"
  rc_expires_at :: rat

record PoolInspection =
  insp_pool :: PoolConfig
  insp_running :: int
  insp_queued :: int
  insp_idle :: int
  insp_busy :: int
  insp_offline_runners :: "RunnerInfo list"
  insp_duration_seconds :: rat

definition insp_online :: "PoolInspection \<Rightarrow> int" where
  "insp_online i = insp_idle i + insp_busy i"

type_synonym repo_cache_key = "string \<times> string \<times> string"
type_synonym poll_key = "string \<times> string \<times> string \<times> string"

record 'w PoolScaler =
  max_total_runners :: int
  repository_cache :: "(repo_cache_key, RepositoryCacheEntry) dict"
  next_poll_at :: "(poll_key, rat) dict"
  reserved_spawns :: int
  federation :: "Federation option"
  pool_counts :: "(string, PoolCounts) dict"
  world :: 'w

definition new_scaler :: "int \<Rightarrow> 'w \<Rightarrow> 'w PoolScaler" where
  "new_scaler cap w =
     \<lparr>max_total_runners = cap, repository_cache = [], next_poll_at = [], reserved_spawns = 0,
      federation = None, pool_counts = [], world = w\<rparr>"

text \<open>A collaborator's action, run on the world inside the scaler's state.\<close>

definition on_world :: "('w, 'a) eff \<Rightarrow> ('w PoolScaler, 'a) eff" where
  "on_world m s = (case m (world s) of (r, w) \<Rightarrow> (r, s\<lparr>world := w\<rparr>))"

definition set_max_total_runners :: "int \<Rightarrow> 'w PoolScaler \<Rightarrow> 'w PoolScaler" where
  "set_max_total_runners v s = s\<lparr>max_total_runners := v\<rparr>"

section \<open>Keys\<close>

definition pool_key :: "'w Ports \<Rightarrow> PoolConfig \<Rightarrow> poll_key" where
  "pool_key e p =
     (pool_name p, lower (pool_owner p), lower (pool_repo p), sha256_op (runtime e) (pool_pat p))"

definition cache_key :: "'w Ports \<Rightarrow> PoolConfig \<Rightarrow> repo_cache_key" where
  "cache_key e p = (pool_name p, lower (pool_owner p), sha256_op (runtime e) (pool_pat p))"

section \<open>The global cap\<close>

text \<open>
  The arithmetic of \<open>_reserve_spawns\<close> under \<open>_cap_lock\<close>: \<open>running\<close> is the number of
  containers \<open>docker ps\<close> listed.
\<close>

definition grant :: "int \<Rightarrow> int \<Rightarrow> int \<Rightarrow> int \<Rightarrow> int" where
  "grant cap running reserved to_spawn =
     (if 0 < cap then min to_spawn (max 0 (cap - running - reserved)) else to_spawn)"

definition reserve_spawns :: "'w Ports \<Rightarrow> int \<Rightarrow> ('w PoolScaler, int) eff" where
  "reserve_spawns e to_spawn =
     (if to_spawn \<le> 0 then ret 0
      else
        andThen (read_state max_total_runners) (\<lambda>cap.
        andThen (if 0 < cap
                 then andThen (on_world (running_containers_op (docker e) GLOBAL_CONTAINER_PREFIX))
                        (\<lambda>names. ret (int (length names)))
                 else ret 0) (\<lambda>running.
        andThen (read_state reserved_spawns) (\<lambda>reserved.
          let granted = grant cap running reserved to_spawn
          in andThen (update_state (\<lambda>s. s\<lparr>reserved_spawns := reserved_spawns s + granted\<rparr>))
               (\<lambda>_. ret granted)))))"

definition release_spawns :: "int \<Rightarrow> 'w PoolScaler \<Rightarrow> 'w PoolScaler" where
  "release_spawns n s =
     (if n \<le> 0 then s else s\<lparr>reserved_spawns := max 0 (reserved_spawns s - n)\<rparr>)"

definition spawn_reserved :: "'w Ports \<Rightarrow> PoolConfig \<Rightarrow> ('w PoolScaler, bool) eff" where
  "spawn_reserved e p = ensure (on_world (spawn_runner_op (docker e) p)) (release_spawns 1)"

section \<open>Recording in the store\<close>

text \<open>Each is skipped without a store, and a failure of the store never reaches the tick.\<close>

definition with_store :: "'w Ports \<Rightarrow> ('w StorePort \<Rightarrow> ('w, unit) eff) \<Rightarrow> ('w PoolScaler, unit) eff" where
  "with_store e f = (case store e of None \<Rightarrow> ret () | Some st \<Rightarrow> swallow (on_world (f st)))"

definition EVENT_DEREGISTER :: string where "EVENT_DEREGISTER = ''deregister''"

definition scaler_record_event :: "'w Ports \<Rightarrow> string \<Rightarrow> string \<Rightarrow> string \<Rightarrow> string \<Rightarrow> ('w PoolScaler, unit) eff" where
  "scaler_record_event e event container pool reason =
     with_store e (\<lambda>st. record_event_op st event container pool reason)"

definition record_snapshot :: "'w Ports \<Rightarrow> PoolInspection \<Rightarrow> ('w PoolScaler, unit) eff" where
  "record_snapshot e i =
     with_store e (\<lambda>st. record_tick_op st
       \<lparr>ts_pool = pool_name (insp_pool i), ts_display = display (insp_pool i),
        ts_containers = insp_running i, ts_online = insp_online i, ts_idle = insp_idle i,
        ts_busy = insp_busy i, ts_queued = insp_queued i, ts_duration = insp_duration_seconds i\<rparr>)"

definition record_runner_status :: "'w Ports \<Rightarrow> PoolConfig \<Rightarrow> RunnerInfo list \<Rightarrow> string \<Rightarrow> ('w PoolScaler, unit) eff" where
  "record_runner_status e p runners pfx =
     with_store e (\<lambda>st. replace_runner_status_op st (pool_name p)
       (map (\<lambda>r. (runner_name r, runner_status r, runner_busy r))
          (filter (\<lambda>r. starts_with (runner_name r) pfx) runners)))"

definition record_jobs :: "'w Ports \<Rightarrow> PoolConfig \<Rightarrow> JobInfo list \<Rightarrow> ('w PoolScaler, unit) eff" where
  "record_jobs e p jobs = with_store e (\<lambda>st. sync_jobs_op st (pool_name p) jobs)"

section \<open>Inspecting a pool\<close>

definition federated_queue :: "'w Ports \<Rightarrow> PoolConfig \<Rightarrow> ('w PoolScaler, int \<times> JobInfo list) eff" where
  "federated_queue e p =
     andThen (on_world (get_queued_ages_op (api e) p)) (\<lambda>(ages, jobs).
     andThen (read_state federation) (\<lambda>fed.
       case fed of
         None \<Rightarrow> raise_error (RuntimeError ''federation'')
       | Some f \<Rightarrow> andThen (on_world (monotonic_op (runtime e))) (\<lambda>now.
           ret (fst (queue_input f (pool_name p) ages now), jobs))))"

text \<open>
  \<open>_inspect_pool\<close>. A runner belongs to the pool when its name starts with the prefix and a
  dash; \<open>None\<close> from \<open>list_runners\<close> raises \<open>RuntimeError\<close>.
\<close>

definition own_runners :: "string \<Rightarrow> RunnerInfo list \<Rightarrow> RunnerInfo list" where
  "own_runners pfx rs = filter (\<lambda>r. starts_with (runner_name r) (pfx @ ''-'')) rs"

definition online_runners :: "string \<Rightarrow> RunnerInfo list \<Rightarrow> RunnerInfo list" where
  "online_runners pfx rs = filter (\<lambda>r. runner_status r = ''online'') (own_runners pfx rs)"

definition idle_count :: "string \<Rightarrow> RunnerInfo list \<Rightarrow> int" where
  "idle_count pfx rs = int (length (filter (\<lambda>r. \<not> runner_busy r) (online_runners pfx rs)))"

definition busy_count :: "string \<Rightarrow> RunnerInfo list \<Rightarrow> int" where
  "busy_count pfx rs = int (length (filter runner_busy (online_runners pfx rs)))"

definition offline_runners :: "string \<Rightarrow> string set \<Rightarrow> RunnerInfo list \<Rightarrow> RunnerInfo list" where
  "offline_runners pfx running_names rs =
     filter (\<lambda>r. runner_status r = ''offline'' \<and> runner_name r \<notin> running_names) (own_runners pfx rs)"

definition alive_names :: "string \<Rightarrow> RunnerInfo list \<Rightarrow> string set" where
  "alive_names pfx rs =
     set (map runner_name (online_runners pfx rs)) \<union> set (map runner_name (filter runner_busy rs))"

definition inspect_pool :: "'w Ports \<Rightarrow> bool \<Rightarrow> PoolConfig \<Rightarrow> ('w PoolScaler, PoolInspection) eff" where
  "inspect_pool e federated p =
     (let pfx = container_prefix p
      in andThen (on_world (monotonic_op (runtime e))) (\<lambda>started.
         andThen (on_world (cleanup_exited_op (docker e) pfx)) (\<lambda>_.
         andThen (on_world (running_containers_op (docker e) pfx)) (\<lambda>names.
         andThen (on_world (list_runners_op (api e) p)) (\<lambda>runners.
           case runners of
             None \<Rightarrow> raise_error (RuntimeError (''failed to list runners for '' @ display p))
           | Some rs \<Rightarrow>
               andThen (record_runner_status e p rs pfx) (\<lambda>_.
               andThen (on_world (cleanup_stuck_op (docker e) pfx
                          (set names \<inter> alive_names pfx rs) (stuck_timeout p))) (\<lambda>_.
               andThen (if federated then federated_queue e p
                        else on_world (get_queued_count_op (api e) p)) (\<lambda>(queued, jobs).
               andThen (record_jobs e p jobs) (\<lambda>_.
               andThen (on_world (monotonic_op (runtime e))) (\<lambda>finished.
                 ret \<lparr>insp_pool = p, insp_running = int (card (set names)), insp_queued = queued,
                      insp_idle = idle_count pfx rs, insp_busy = busy_count pfx rs,
                      insp_offline_runners = offline_runners pfx (set names) rs,
                      insp_duration_seconds = finished - started\<rparr>))))))))))"

text \<open>
  \<open>_inspect_pools_parallel\<close>: every pool is inspected whatever the others do; a rate limit
  wins over other failures, and any failure gives \<open>None\<close>.
\<close>

fun last_rate_limit :: "'a result list \<Rightarrow> py_error option" where
  "last_rate_limit [] = None"
| "last_rate_limit (r # rs) =
     (case last_rate_limit rs of
        Some e \<Rightarrow> Some e
      | None \<Rightarrow> (case r of Inl (GitHubRateLimitError t m) \<Rightarrow> Some (GitHubRateLimitError t m) | _ \<Rightarrow> None))"

definition inspect_pools_parallel :: "'w Ports \<Rightarrow> PoolConfig list \<Rightarrow> ('w PoolScaler, PoolInspection list option) eff" where
  "inspect_pools_parallel e pools =
     andThen (collect (\<lambda>p. attempt (inspect_pool e False p)) pools) (\<lambda>results.
       case last_rate_limit results of
         Some err \<Rightarrow> raise_error err
       | None \<Rightarrow>
           ret (if list_all (\<lambda>r. \<not> isl r) results
                then Some (sort_key (\<lambda>i. pool_repo (insp_pool i)) (map projr results)) else None))"

section \<open>Spawn decisions\<close>

definition calculate_spawn_count :: "PoolConfig \<Rightarrow> PoolInspection \<Rightarrow> int" where
  "calculate_spawn_count p i =
     (let desired = min (max_runners p) (max (min_idle p) (insp_busy i + insp_queued i))
      in max 0 (desired - insp_running i))"

definition needed :: "PoolInspection \<Rightarrow> int" where
  "needed i = max 0 (insp_busy i + insp_queued i - insp_running i)"

definition repo_of :: "PoolInspection \<Rightarrow> string" where
  "repo_of i = pool_repo (insp_pool i)"

text \<open>
  The round-robin of \<open>_tick_personal\<close>. One pass over the ordered inspections gives each
  repository that still needs a runner one more, until the capacity is used.
\<close>

type_synonym allocations = "(string, int) dict"

definition alloc_of :: "allocations \<Rightarrow> string \<Rightarrow> int" where
  "alloc_of a r = dict_get a r 0"

fun allocation_round :: "PoolInspection list \<Rightarrow> allocations \<Rightarrow> int \<Rightarrow> bool \<Rightarrow> allocations \<times> int \<times> bool" where
  "allocation_round [] a capacity allocated = (a, capacity, allocated)"
| "allocation_round (i # is) a capacity allocated =
     (if needed i \<le> alloc_of a (repo_of i) then allocation_round is a capacity allocated
      else
        let a = dict_set (repo_of i) (alloc_of a (repo_of i) + 1) a; capacity = capacity - 1
        in if capacity = 0 then (a, capacity, True) else allocation_round is a capacity True)"

lemma allocation_round_progress:
  "allocation_round is a c b = (a', c', True) \<Longrightarrow> \<not> b \<Longrightarrow> 0 < c \<Longrightarrow> c' < c \<and> 0 \<le> c'"
proof -
  have "allocation_round is a c b = (a', c', d) \<Longrightarrow> 0 < c \<Longrightarrow> 0 \<le> c' \<and> c' \<le> c \<and> (d \<longrightarrow> b \<or> c' < c)"
    for "is" a c b a' c' d
  proof (induction "is" a c b rule: allocation_round.induct)
    case (1 a c b)
    then show ?case by simp
  next
    case (2 i "is" a c b)
    show ?case
    proof (cases "needed i \<le> alloc_of a (repo_of i)")
      case True
      with 2 show ?thesis by simp
    next
      case False
      show ?thesis
      proof (cases "c - 1 = 0")
        case True
        with False 2 show ?thesis by (auto simp: Let_def)
      next
        case c: False
        with False "2.prems" have "allocation_round is
            (dict_set (repo_of i) (alloc_of a (repo_of i) + 1) a) (c - 1) True = (a', c', d)"
          by (simp add: Let_def)
        from "2.IH"(2) [OF False refl refl c this] "2.prems" c show ?thesis by auto
      qed
    qed
  qed
  then show "allocation_round is a c b = (a', c', True) \<Longrightarrow> \<not> b \<Longrightarrow> 0 < c \<Longrightarrow> c' < c \<and> 0 \<le> c'"
    by blast
qed

function allocate :: "PoolInspection list \<Rightarrow> allocations \<Rightarrow> int \<Rightarrow> allocations" where
  "allocate ordered a capacity =
     (if capacity \<le> 0 then a
      else (case allocation_round ordered a capacity False of
              (a', capacity', allocated) \<Rightarrow>
                if allocated then allocate ordered a' capacity' else a'))"
  by pat_completeness auto
termination
  by (relation "measure (\<lambda>(ordered, a, capacity). nat capacity)")
    (auto dest: allocation_round_progress [OF sym])

declare allocate.simps [simp del]

definition allocation_order :: "PoolInspection list \<Rightarrow> PoolInspection list" where
  "allocation_order is = sort_key (\<lambda>i. (- insp_queued i, repo_of i)) is"

definition initial_allocations :: "PoolInspection list \<Rightarrow> allocations" where
  "initial_allocations is = fold (\<lambda>i a. dict_set (repo_of i) 0 a) is []"

definition personal_allocations :: "PoolInspection list \<Rightarrow> int \<Rightarrow> (PoolConfig \<times> int) list" where
  "personal_allocations is capacity =
     (let ordered = allocation_order is;
          a = allocate ordered (initial_allocations is) capacity
      in map (\<lambda>i. (insp_pool i, alloc_of a (repo_of i))) ordered)"

definition personal_request :: "PoolConfig \<Rightarrow> PoolInspection list \<Rightarrow> int" where
  "personal_request p is =
     min (max 0 (max_runners p - sum_list (map insp_running is))) (sum_list (map needed is))"

section \<open>Runner operations\<close>

datatype runner_op = Deregister PoolConfig RunnerInfo | Spawn PoolConfig

definition deregister_runner :: "'w Ports \<Rightarrow> PoolConfig \<Rightarrow> RunnerInfo \<Rightarrow> ('w PoolScaler, bool) eff" where
  "deregister_runner e p r =
     andThen (on_world (deregister_runner_op (api e) p (runner_id r))) (\<lambda>ok.
       if ok then andThen (scaler_record_event e EVENT_DEREGISTER (runner_name r) (pool_name p) ''offline'')
                    (\<lambda>_. ret True)
       else ret False)"

fun interleave :: "'a list \<Rightarrow> 'a list \<Rightarrow> 'a list" where
  "interleave [] ys = ys"
| "interleave xs [] = xs"
| "interleave (x # xs) (y # ys) = x # y # interleave xs ys"

definition operation_queue :: "PoolInspection list \<Rightarrow> (PoolConfig \<times> int) list \<Rightarrow> runner_op list" where
  "operation_queue is spawns =
     (let deregistration_jobs = concat (map (\<lambda>i. map (Deregister (insp_pool i)) (insp_offline_runners i)) is);
          spawn_jobs = concat (map (\<lambda>(p, n). replicate (nat n) (Spawn p)) spawns)
      in interleave (rev deregistration_jobs) (rev spawn_jobs))"

fun perform :: "'w Ports \<Rightarrow> runner_op \<Rightarrow> ('w PoolScaler, bool) eff" where
  "perform e (Deregister p r) = deregister_runner e p r"
| "perform e (Spawn p) = spawn_reserved e p"

fun is_spawn :: "runner_op \<Rightarrow> bool" where
  "is_spawn (Spawn _) = True"
| "is_spawn (Deregister _ _) = False"

text \<open>
  The submission loop of \<open>_execute_runner_operations\<close>: hand a task over, count it if it is
  a spawn. A task's own exception is logged when its future is collected. When the
  hand-over itself raises, the exception leaves the function and the count is lost.
\<close>

fun submit_all :: "'w Ports \<Rightarrow> runner_op list \<Rightarrow> int \<Rightarrow> ('w PoolScaler, int) eff" where
  "submit_all e [] submitted = ret submitted"
| "submit_all e (op # ops) submitted =
     andThen (on_world (submit_op (runtime e))) (\<lambda>_.
     andThen (attempt (perform e op)) (\<lambda>_.
       submit_all e ops (if is_spawn op then submitted + 1 else submitted)))"

definition execute_runner_operations :: "'w Ports \<Rightarrow> PoolInspection list \<Rightarrow> (PoolConfig \<times> int) list \<Rightarrow>
    ('w PoolScaler, int) eff" where
  "execute_runner_operations e is spawns = submit_all e (operation_queue is spawns) 0"

definition run_runner_operations :: "'w Ports \<Rightarrow> PoolInspection list \<Rightarrow> (PoolConfig \<times> int) list \<Rightarrow>
    ('w PoolScaler, unit) eff" where
  "run_runner_operations e is spawns s =
     (let spawn_count = sum_list (map snd spawns)
      in case execute_runner_operations e is spawns s of
           (Inr submitted, s') \<Rightarrow> (Inr (), release_spawns (spawn_count - submitted) s')
         | (Inl err, s') \<Rightarrow> (Inl err, release_spawns (spawn_count - 0) s'))"

section \<open>Repository discovery\<close>

definition oldest_key :: "(repo_cache_key, RepositoryCacheEntry) dict \<Rightarrow> repo_cache_key option" where
  "oldest_key d =
     (case d of [] \<Rightarrow> None
      | x # xs \<Rightarrow> Some (fst (min_by (\<lambda>kv. rc_expires_at (snd kv)) x xs)))"

definition store_repositories :: "repo_cache_key \<Rightarrow> string list \<Rightarrow> rat \<Rightarrow> 'w PoolScaler \<Rightarrow> 'w PoolScaler" where
  "store_repositories k repos expires s =
     (let cache = repository_cache s;
          cache = (if map_of cache k = None \<and> MAX_REPOSITORY_CACHE_ENTRIES \<le> length cache
                   then (case oldest_key cache of None \<Rightarrow> cache | Some old \<Rightarrow> dict_del old cache)
                   else cache)
      in s\<lparr>repository_cache := dict_set k \<lparr>rc_repositories = repos, rc_expires_at = expires\<rparr> cache\<rparr>)"

definition get_personal_repositories :: "'w Ports \<Rightarrow> PoolConfig \<Rightarrow> rat \<Rightarrow> ('w PoolScaler, string list) eff" where
  "get_personal_repositories e p now =
     (let k = cache_key e p
      in andThen (read_state (\<lambda>s. map_of (repository_cache s) k)) (\<lambda>cached.
         if (case cached of None \<Rightarrow> False | Some c \<Rightarrow> now < rc_expires_at c)
         then ret (case cached of None \<Rightarrow> [] | Some c \<Rightarrow> rc_repositories c)
         else andThen (on_world (list_repositories_op (api e) p)) (\<lambda>found.
           case found of
             None \<Rightarrow> ret (case cached of None \<Rightarrow> [] | Some c \<Rightarrow> rc_repositories c)
           | Some repos \<Rightarrow>
               if repo_discovery_ttl p = 0
               then andThen (update_state (\<lambda>s. s\<lparr>repository_cache := dict_del k (repository_cache s)\<rparr>))
                      (\<lambda>_. ret repos)
               else andThen (update_state (store_repositories k repos (now + of_int (repo_discovery_ttl p))))
                      (\<lambda>_. ret repos))))"

section \<open>The tick\<close>

definition tick_single :: "'w Ports \<Rightarrow> PoolConfig \<Rightarrow> bool \<Rightarrow> ('w PoolScaler, unit) eff" where
  "tick_single e p draining =
     andThen (read_state federation) (\<lambda>fed.
     andThen (case fed of None \<Rightarrow> ret False
              | Some f \<Rightarrow> andThen (on_world (monotonic_op (runtime e))) (\<lambda>now. ret (covers f (pool_name p) now)))
       (\<lambda>federated.
     andThen (inspect_pool e federated p) (\<lambda>inspection.
     andThen (update_state (\<lambda>s. s\<lparr>pool_counts := dict_set (pool_name p)
         \<lparr>cnt_running = insp_running inspection, cnt_busy = insp_busy inspection,
          cnt_max_runners = max_runners p\<rparr> (pool_counts s)\<rparr>)) (\<lambda>_.
     andThen (record_snapshot e inspection) (\<lambda>_.
       let to_spawn =
         (if draining then 0
          else if (case fed of None \<Rightarrow> False | Some f \<Rightarrow> is_hot f) then 0
          else calculate_spawn_count p inspection)
       in andThen (reserve_spawns e to_spawn) (\<lambda>granted.
            run_runner_operations e [inspection] [(p, granted)]))))))"

definition tick_personal :: "'w Ports \<Rightarrow> PoolConfig \<Rightarrow> rat \<Rightarrow> bool \<Rightarrow> ('w PoolScaler, unit) eff" where
  "tick_personal e p now draining =
     andThen (get_personal_repositories e p now) (\<lambda>names.
     if names = [] then ret ()
     else andThen (inspect_pools_parallel e (map (for_repository p) names)) (\<lambda>found.
       case found of
         None \<Rightarrow> ret ()
       | Some inspections \<Rightarrow>
           andThen (each (record_snapshot e) inspections) (\<lambda>_.
           andThen (if draining then ret 0 else reserve_spawns e (personal_request p inspections)) (\<lambda>capacity.
             run_runner_operations e inspections (personal_allocations inspections capacity)))))"

definition backoff_poll :: "poll_key \<Rightarrow> rat \<Rightarrow> rat \<Rightarrow> rat \<Rightarrow> 'w PoolScaler \<Rightarrow> 'w PoolScaler" where
  "backoff_poll k now retry_at wall s =
     (let retry_after = max 1 (retry_at - wall)
      in s\<lparr>next_poll_at := dict_set k (max (dict_get (next_poll_at s) k 0) (now + retry_after)) (next_poll_at s)\<rparr>)"

definition tick_body :: "'w Ports \<Rightarrow> PoolConfig \<Rightarrow> bool \<Rightarrow> rat \<Rightarrow> ('w PoolScaler, unit) eff" where
  "tick_body e p draining now =
     catch (if is_personal_level p then tick_personal e p now draining else tick_single e p draining)
       (\<lambda>err. case err of
          GitHubRateLimitError retry_at reason \<Rightarrow>
            andThen (on_world (wall_clock_op (runtime e))) (\<lambda>wall.
              update_state (backoff_poll (pool_key e p) now retry_at wall))
        | _ \<Rightarrow> raise_error err)"

definition tick :: "'w Ports \<Rightarrow> PoolConfig \<Rightarrow> PoolState \<Rightarrow> ('w PoolScaler, unit) eff" where
  "tick e p state =
     (if st_paused state then ret ()
      else
        let k = pool_key e p
        in andThen (on_world (monotonic_op (runtime e))) (\<lambda>now.
           andThen (read_state (\<lambda>s. dict_get (next_poll_at s) k 0)) (\<lambda>next.
             if now < next then ret ()
             else andThen (update_state (\<lambda>s.
                    if 0 < github_poll_interval p
                    then s\<lparr>next_poll_at := dict_set k (now + of_int (github_poll_interval p)) (next_poll_at s)\<rparr>
                    else s)) (\<lambda>_. tick_body e p (st_draining state) now))))"

end
