(* ===== verification/GithubClient.thy ===== *)
theory GithubClient
  imports Protocols PyJson
begin

text \<open>
  \<open>orchestrator/rorch/github_client.py\<close> and \<open>gitea_client.py\<close>: the REST client with its
  rate-limit bookkeeping, conditional cache and shared scans, the queue scan, and the client
  that sends each pool to its own forge. The network, the clocks, \<open>sha256\<close>
  and \<open>datetime.fromisoformat\<close> are the record \<open>HttpEnv\<close>. Requests run one after the other
  here; the semaphore and the locks guard the same dictionaries the state record holds. A
  GET that gives Python's \<open>None\<close> gives \<open>PNone\<close>.
\<close>

definition MAX_CONDITIONAL_CACHE_ENTRIES :: nat where "MAX_CONDITIONAL_CACHE_ENTRIES = 2048"
definition SECONDARY_RATE_LIMIT_BASE_SECONDS :: int where "SECONDARY_RATE_LIMIT_BASE_SECONDS = 60"
definition SECONDARY_RATE_LIMIT_MAX_SECONDS :: int where "SECONDARY_RATE_LIMIT_MAX_SECONDS = 900"
definition MUTATION_DELAY_SECONDS :: rat where "MUTATION_DELAY_SECONDS = 1"
definition ACTIVE_RUN_STATUSES :: "string list" where
  "ACTIVE_RUN_STATUSES = [''queued'', ''pending'', ''in_progress'']"
definition SHARED_SCAN_SECONDS :: rat where "SHARED_SCAN_SECONDS = 10"
definition MAX_SHARED_SCAN_ENTRIES :: nat where "MAX_SHARED_SCAN_ENTRIES = 512"

section \<open>The outside\<close>

type_synonym headers = "(string, string) dict"

text \<open>
  What \<open>urlopen\<close> can give: a response, an \<open>HTTPError\<close> with its status, headers and text, or
  any other exception.
\<close>

datatype http_outcome = HttpOk int headers string | HttpFault int headers string | HttpFailed

text \<open>\<open>http_op method url token etag\<close>; \<open>etag\<close> is the \<open>If-None-Match\<close> header, when sent.\<close>

record 'w HttpEnv =
  http_op :: "string \<Rightarrow> string \<Rightarrow> string \<Rightarrow> string option \<Rightarrow> 'w \<Rightarrow> http_outcome \<times> 'w"
  wall_op :: "'w \<Rightarrow> rat \<times> 'w"
  mono_op :: "'w \<Rightarrow> rat \<times> 'w"
  sleep_op :: "rat \<Rightarrow> 'w \<Rightarrow> 'w"
  digest :: "string \<Rightarrow> string"
  iso_epoch :: "string \<Rightarrow> rat option"
  str_text :: "pyval \<Rightarrow> string"
  page_fuel :: nat

text \<open>A forge: the base of its API, the change its client makes to a path and the size of a full
  page of repositories.\<close>

record Forge =
  api_base :: string
  rewrite_path :: "string \<Rightarrow> string"
  rate_limit_reserve :: int
  repo_page_size :: nat

definition github_forge :: "int \<Rightarrow> Forge" where
  "github_forge reserve =
     \<lparr>api_base = ''https://api.github.com'', rewrite_path = (\<lambda>p. p), rate_limit_reserve = reserve,
      repo_page_size = 100\<rparr>"

definition gitea_forge :: "string \<Rightarrow> Forge" where
  "gitea_forge url =
     \<lparr>api_base = rstrip_if (\<lambda>c. c = CHR ''/'') url @ ''/api/v1'',
      rewrite_path = replace_all ''per_page='' ''limit='', rate_limit_reserve = 100, repo_page_size = 50\<rparr>"

section \<open>The client's state\<close>

record ConditionalResponse =
  cr_etag :: string
  cr_data :: pyval

type_synonym req_key = "string \<times> string"

record 'w GitHubClient =
  blocked_until :: "(string, rat) dict"
  secondary_failures :: "(string, int) dict"
  conditional_cache :: "(req_key, ConditionalResponse) dict"
  shared_scans :: "(req_key, rat \<times> pyval) dict"
  last_mutation_at :: rat
  last_remaining :: "int option"
  last_reset_at :: "rat option"
  blocked_until_any :: rat
  gh_world :: 'w

definition new_github_client :: "'w \<Rightarrow> 'w GitHubClient" where
  "new_github_client w =
     \<lparr>blocked_until = [], secondary_failures = [], conditional_cache = [], shared_scans = [],
      last_mutation_at = 0, last_remaining = None, last_reset_at = None, blocked_until_any = 0, gh_world = w\<rparr>"

type_synonym ('w, 'a) gh = "('w GitHubClient, 'a) eff"

definition outside :: "('w \<Rightarrow> 'a \<times> 'w) \<Rightarrow> ('w, 'a) gh" where
  "outside f s = (case f (gh_world s) of (x, w) \<Rightarrow> (Inr x, s\<lparr>gh_world := w\<rparr>))"

section \<open>Rate limits\<close>

definition int_header :: "headers \<Rightarrow> string \<Rightarrow> int option" where
  "int_header h name = (case map_of h name of None \<Rightarrow> None | Some v \<Rightarrow> py_int v)"

definition raise_if_blocked :: "string \<Rightarrow> rat \<Rightarrow> ('w, unit) gh" where
  "raise_if_blocked token now =
     andThen (read_state (\<lambda>s. dict_get (blocked_until s) token 0)) (\<lambda>until.
     if until \<le> now then update_state (\<lambda>s. s\<lparr>blocked_until := dict_del token (blocked_until s)\<rparr>)
     else raise_error (GitHubRateLimitError until ''GitHub API cooldown is active''))"

definition block_token :: "string \<Rightarrow> rat \<Rightarrow> 'w GitHubClient \<Rightarrow> 'w GitHubClient" where
  "block_token token retry_at s =
     s\<lparr>blocked_until := dict_set token (max (dict_get (blocked_until s) token 0) retry_at) (blocked_until s),
       blocked_until_any := max (blocked_until_any s) retry_at\<rparr>"

definition is_mutation :: "string \<Rightarrow> bool" where
  "is_mutation meth = (meth \<in> {''POST'', ''PATCH'', ''PUT'', ''DELETE''})"

definition pace_mutation :: "'w HttpEnv \<Rightarrow> string \<Rightarrow> ('w, unit) gh" where
  "pace_mutation e meth =
     (if \<not> is_mutation meth then ret ()
      else
        andThen (outside (wall_op e)) (\<lambda>now.
        andThen (read_state last_mutation_at) (\<lambda>last.
          let delay = MUTATION_DELAY_SECONDS - (now - last)
          in andThen (if 0 < delay then outside (\<lambda>w. ((), sleep_op e delay w)) else ret ()) (\<lambda>_.
             andThen (outside (wall_op e)) (\<lambda>after.
               update_state (\<lambda>s. s\<lparr>last_mutation_at := after\<rparr>))))))"

text \<open>\<open>_update_rate_limit\<close>: remembers the headers and blocks the token at the reserve.\<close>

definition note_headers :: "headers \<Rightarrow> 'w GitHubClient \<Rightarrow> 'w GitHubClient" where
  "note_headers h s =
     (let s = (case int_header h ''X-RateLimit-Remaining'' of None \<Rightarrow> s | Some n \<Rightarrow> s\<lparr>last_remaining := Some n\<rparr>)
      in (case int_header h ''X-RateLimit-Reset'' of None \<Rightarrow> s | Some n \<Rightarrow> s\<lparr>last_reset_at := Some (of_int n)\<rparr>))"

definition update_rate_limit :: "'w HttpEnv \<Rightarrow> Forge \<Rightarrow> string \<Rightarrow> headers \<Rightarrow> ('w, unit) gh" where
  "update_rate_limit e fg token h =
     andThen (update_state (note_headers h)) (\<lambda>_.
       case (int_header h ''X-RateLimit-Remaining'', int_header h ''X-RateLimit-Reset'') of
         (Some remaining, Some reset_at) \<Rightarrow>
           if remaining \<le> rate_limit_reserve fg
           then andThen (outside (wall_op e)) (\<lambda>now.
             if now < of_int reset_at
             then andThen (update_state (block_token token (of_int (reset_at + 1)))) (\<lambda>_.
               raise_error (GitHubRateLimitError (of_int (reset_at + 1))
                 (''GitHub API reserve reached ('' @ show_int remaining @ '' remaining)'')))
             else ret ())
           else ret ()
       | _ \<Rightarrow> ret ())"

text \<open>\<open>"rate limit" in body.lower()\<close>.\<close>

definition is_rate_limit_error :: "int \<Rightarrow> headers \<Rightarrow> string \<Rightarrow> bool" where
  "is_rate_limit_error code h body =
     (code = 429 \<or> map_of h ''X-RateLimit-Remaining'' = Some ''0'' \<or> contains (lower body) ''rate limit'' \<or>
      map_of h ''Retry-After'' \<noteq> None)"

definition secondary_delay :: "int \<Rightarrow> int" where
  "secondary_delay failures =
     min (SECONDARY_RATE_LIMIT_BASE_SECONDS * 2 ^ nat (failures - 1)) SECONDARY_RATE_LIMIT_MAX_SECONDS"

definition secondary_backoff :: "string \<Rightarrow> rat \<Rightarrow> ('w, rat \<times> string) gh" where
  "secondary_backoff token now =
     andThen (read_state (\<lambda>s. dict_get (secondary_failures s) token 0 + 1)) (\<lambda>failures.
     andThen (update_state (\<lambda>s. s\<lparr>secondary_failures := dict_set token failures (secondary_failures s)\<rparr>)) (\<lambda>_.
       ret (now + of_int (secondary_delay failures),
         ''GitHub secondary rate limit; backing off '' @ show_int (secondary_delay failures) @ ''s'')))"

definition rate_limit_retry :: "'w HttpEnv \<Rightarrow> string \<Rightarrow> headers \<Rightarrow> string \<Rightarrow> ('w, rat \<times> string) gh" where
  "rate_limit_retry e token h body =
     andThen (outside (wall_op e)) (\<lambda>now.
       case int_header h ''Retry-After'' of
         Some n \<Rightarrow> ret (now + of_int n, ''GitHub requested retry after '' @ show_int n @ ''s'')
       | None \<Rightarrow>
           (case (int_header h ''X-RateLimit-Remaining'', int_header h ''X-RateLimit-Reset'') of
              (Some remaining, Some reset_at) \<Rightarrow>
                if remaining = 0
                then ret (of_int (reset_at + 1), ''GitHub primary rate limit exhausted: '' @ take 120 body)
                else secondary_backoff token now
            | _ \<Rightarrow> secondary_backoff token now))"

section \<open>One request\<close>

definition move_to_end :: "'k \<Rightarrow> ('k, 'v) dict \<Rightarrow> ('k, 'v) dict" where
  "move_to_end k d = (case map_of d k of None \<Rightarrow> d | Some v \<Rightarrow> dict_del k d @ [(k, v)])"

text \<open>The \<open>while\<close> loop pops from the front until at most 2048 entries are left.\<close>

definition cache_conditional :: "req_key \<Rightarrow> string option \<Rightarrow> pyval \<Rightarrow> 'w GitHubClient \<Rightarrow> 'w GitHubClient" where
  "cache_conditional k etag data s =
     (if etag = None \<or> etag = Some []
      then s\<lparr>conditional_cache := dict_del k (conditional_cache s)\<rparr>
      else
        let c = move_to_end k (dict_set k \<lparr>cr_etag = the etag, cr_data = data\<rparr> (conditional_cache s))
        in s\<lparr>conditional_cache := drop (length c - MAX_CONDITIONAL_CACHE_ENTRIES) c\<rparr>)"

definition clear_failures :: "string \<Rightarrow> 'w GitHubClient \<Rightarrow> 'w GitHubClient" where
  "clear_failures token s = s\<lparr>secondary_failures := dict_del token (secondary_failures s)\<rparr>"

text \<open>\<open>except GitHubRateLimitError: raise\<close>, \<open>except Exception: return None\<close>.\<close>

definition none_on_error :: "('w, pyval) gh \<Rightarrow> ('w, pyval) gh" where
  "none_on_error m = catch m (\<lambda>err. case err of GitHubRateLimitError _ _ \<Rightarrow> raise_error err | _ \<Rightarrow> ret PNone)"

definition on_response :: "'w HttpEnv \<Rightarrow> Forge \<Rightarrow> string \<Rightarrow> req_key \<Rightarrow> int \<Rightarrow> headers \<Rightarrow> string \<Rightarrow> ('w, pyval) gh" where
  "on_response e fg meth k status h body =
     none_on_error
       (andThen (update_rate_limit e fg (fst k) h) (\<lambda>_.
        andThen (update_state (clear_failures (fst k))) (\<lambda>_.
          if meth = ''DELETE'' then ret (PBool (status = 204))
          else andThen (lift_result (loads body)) (\<lambda>data.
               andThen (update_state (cache_conditional k (map_of h ''ETag'') data)) (\<lambda>_. ret data)))))"

definition on_fault :: "'w HttpEnv \<Rightarrow> Forge \<Rightarrow> req_key \<Rightarrow> ConditionalResponse option \<Rightarrow> int \<Rightarrow> headers \<Rightarrow> string \<Rightarrow> ('w, pyval) gh" where
  "on_fault e fg k cached code h text =
     (if code = 304 \<and> cached \<noteq> None
      then andThen (update_rate_limit e fg (fst k) h) (\<lambda>_.
           andThen (update_state (clear_failures (fst k))) (\<lambda>_.
           andThen (update_state (\<lambda>s. s\<lparr>conditional_cache := move_to_end k (conditional_cache s)\<rparr>)) (\<lambda>_.
             ret (cr_data (the cached)))))
      else if is_rate_limit_error code h text
      then andThen (rate_limit_retry e (fst k) h text) (\<lambda>(retry_at, reason).
           andThen (update_state (block_token (fst k) retry_at)) (\<lambda>_.
             raise_error (GitHubRateLimitError retry_at reason)))
      else ret PNone)"

definition request :: "'w HttpEnv \<Rightarrow> Forge \<Rightarrow> string \<Rightarrow> string \<Rightarrow> string \<Rightarrow> ('w, pyval) gh" where
  "request e fg pat raw_path meth =
     (let path = rewrite_path fg raw_path; token = digest e pat; k = (token, path)
      in andThen (outside (wall_op e)) (\<lambda>now.
         andThen (raise_if_blocked token now) (\<lambda>_.
         andThen (read_state (\<lambda>s. if meth = ''GET'' then map_of (conditional_cache s) k else None)) (\<lambda>cached.
         andThen (pace_mutation e meth) (\<lambda>_.
         andThen (outside (http_op e meth (api_base fg @ path) pat (map_option cr_etag cached))) (\<lambda>outcome.
           case outcome of
             HttpOk status h body \<Rightarrow> on_response e fg meth k status h body
           | HttpFault code h text \<Rightarrow> on_fault e fg k cached code h text
           | HttpFailed \<Rightarrow> ret PNone))))))"

definition get_request :: "'w HttpEnv \<Rightarrow> Forge \<Rightarrow> string \<Rightarrow> string \<Rightarrow> ('w, pyval) gh" where
  "get_request e fg pat path = request e fg pat path ''GET''"

definition delete_request :: "'w HttpEnv \<Rightarrow> Forge \<Rightarrow> string \<Rightarrow> string \<Rightarrow> ('w, pyval) gh" where
  "delete_request e fg pat path = request e fg pat path ''DELETE''"

definition drop_stale_scans :: "rat \<Rightarrow> 'w GitHubClient \<Rightarrow> 'w GitHubClient" where
  "drop_stale_scans now s =
     s\<lparr>shared_scans := filter (\<lambda>(_, t, _). now - t < SHARED_SCAN_SECONDS) (shared_scans s)\<rparr>"

definition keep_scan :: "req_key \<Rightarrow> rat \<Rightarrow> pyval \<Rightarrow> 'w GitHubClient \<Rightarrow> 'w GitHubClient" where
  "keep_scan k now data s =
     (let s = s\<lparr>shared_scans := dict_set k (now, data) (shared_scans s)\<rparr>
      in if MAX_SHARED_SCAN_ENTRIES < length (shared_scans s) then drop_stale_scans now s else s)"

definition get_shared :: "'w HttpEnv \<Rightarrow> Forge \<Rightarrow> string \<Rightarrow> string \<Rightarrow> ('w, pyval) gh" where
  "get_shared e fg pat path =
     (let k = (digest e pat, path)
      in andThen (outside (mono_op e)) (\<lambda>now.
         andThen (read_state (\<lambda>s. map_of (shared_scans s) k)) (\<lambda>hit.
           if (case hit of None \<Rightarrow> False | Some (t, _) \<Rightarrow> now - t < SHARED_SCAN_SECONDS)
           then ret (snd (the hit))
           else andThen (get_request e fg pat path) (\<lambda>data.
                if data = PNone then ret PNone
                else andThen (update_state (keep_scan k now data)) (\<lambda>_. ret data)))))"

text \<open>\<open>rate_limit_status\<close>: remaining, reset time, reserve, and the cooldown while it lasts.\<close>

definition rate_limit_status :: "'w HttpEnv \<Rightarrow> Forge \<Rightarrow> ('w, int option \<times> rat option \<times> int \<times> rat) gh" where
  "rate_limit_status e fg =
     andThen (outside (wall_op e)) (\<lambda>now.
       read_state (\<lambda>s. (last_remaining s, last_reset_at s, rate_limit_reserve fg,
         if now < blocked_until_any s then blocked_until_any s else 0)))"

end
