(* ===== verification/ForgeClient.thy ===== *)
theory ForgeClient
  imports GithubClient
begin

text \<open>
  The operations of \<open>GitHubClient\<close> on top of \<open>_request\<close> (repositories, the queue scan,
  runners, deregistration), \<open>GiteaClient\<close> and \<open>ForgeClients\<close>. Responses are parsed values,
  and a response of the wrong shape raises what Python raises.
\<close>

section \<open>Repositories\<close>

text \<open>One entry of a repository page: its name, or \<open>None\<close> when the loop skips it.\<close>

definition select_repo :: "PoolConfig \<Rightarrow> pyval \<Rightarrow> string option result" where
  "select_repo p v =
     bind_result (py_get v ''owner'' (PDict [])) (\<lambda>ow.
     bind_result (py_get ow ''login'' (PStr [])) (\<lambda>login.
     bind_result (py_get v ''name'' (PStr [])) (\<lambda>name.
     bind_result (py_lower login) (\<lambda>l.
       if l \<noteq> lower (pool_owner p) \<or> \<not> truthy name then Inr None
       else if truthy (pget (dict_items v) ''archived'' PNone) \<or> truthy (pget (dict_items v) ''disabled'' PNone)
       then Inr None
       else if \<not> truthy (pget (dict_items v) ''private'' (PBool True)) \<and> \<not> include_public_repos p then Inr None
       else (case name of
               PStr n \<Rightarrow> Inr (if excludes_repo p n then None else Some n)
             | _ \<Rightarrow> Inl (TypeError ''repository name is not a string''))))))"

definition repo_page_path :: "Forge \<Rightarrow> nat \<Rightarrow> string" where
  "repo_page_path fg page =
     ''/user/repos?affiliation=owner&visibility=all&per_page='' @ show_nat (repo_page_size fg) @ ''&page='' @ show_nat page"

text \<open>
  The loop asks for pages until one is shorter than the page size; a server that never sends
  a short page keeps it going, so the model bounds the pages by \<open>page_fuel\<close>.
\<close>

fun repo_pages :: "'w HttpEnv \<Rightarrow> Forge \<Rightarrow> PoolConfig \<Rightarrow> nat \<Rightarrow> nat \<Rightarrow> string list \<Rightarrow> ('w, string list option) gh" where
  "repo_pages e fg p 0 page found = raise_error (RuntimeError ''page limit of the model'')"
| "repo_pages e fg p (Suc n) page found =
     andThen (get_request e fg (pool_pat p) (repo_page_path fg page)) (\<lambda>data.
       if \<not> is_list data then ret None
       else andThen (lift_result (map_result (select_repo p) (list_items data))) (\<lambda>names.
            let found = found @ List.map_filter (\<lambda>x. x) names
            in if length (list_items data) < repo_page_size fg then ret (Some found)
               else repo_pages e fg p n (Suc page) found))"

definition list_repositories :: "'w HttpEnv \<Rightarrow> Forge \<Rightarrow> PoolConfig \<Rightarrow> ('w, string list option) gh" where
  "list_repositories e fg p =
     andThen (repo_pages e fg p (page_fuel e) 1 []) (\<lambda>r.
       ret (map_option (\<lambda>names. sort (remdups names)) r))"

definition is_public_repo :: "'w HttpEnv \<Rightarrow> Forge \<Rightarrow> PoolConfig \<Rightarrow> ('w, bool option) gh" where
  "is_public_repo e fg p =
     (if pool_repo p = [] then ret None
      else andThen (get_request e fg (pool_pat p) (''/repos/'' @ pool_owner p @ ''/'' @ pool_repo p)) (\<lambda>data.
        ret (case data of
               PDict d \<Rightarrow> map_option (\<lambda>v. \<not> truthy v) (map_of d ''private'')
             | _ \<Rightarrow> None)))"

section \<open>The queue scan\<close>

record QueueScan =
  qs_queued :: int
  qs_failed :: int
  qs_ages :: "age list"

definition empty_scan :: QueueScan where
  "empty_scan = \<lparr>qs_queued = 0, qs_failed = 0, qs_ages = []\<rparr>"

definition failed_scan :: QueueScan where
  "failed_scan = \<lparr>qs_queued = 0, qs_failed = 1, qs_ages = []\<rparr>"

definition add_scan :: "QueueScan \<Rightarrow> QueueScan \<Rightarrow> QueueScan" where
  "add_scan a b = \<lparr>qs_queued = qs_queued a + qs_queued b, qs_failed = qs_failed a + qs_failed b,
     qs_ages = qs_ages a @ qs_ages b\<rparr>"

text \<open>\<open>_job_info\<close>: \<open>str(x or "")\<close> and friends on a job that is known to be a dict.\<close>

definition text_or_empty :: "(pyval \<Rightarrow> string) \<Rightarrow> pyval \<Rightarrow> string" where
  "text_or_empty rp v = py_str_of rp (py_or v (PStr []))"

definition job_info :: "(pyval \<Rightarrow> string) \<Rightarrow> pyval \<Rightarrow> pyval \<Rightarrow> string \<Rightarrow> JobInfo result" where
  "job_info rp job run repo =
     bind_result (py_get job ''id'' (PInt 0)) (\<lambda>i.
     bind_result (py_int_of i) (\<lambda>n.
     bind_result (py_get run ''workflow_name'' PNone) (\<lambda>w.
       let j = dict_items job; r = dict_items run
       in Inr \<lparr>job_id = n, job_repo = repo,
               job_workflow = text_or_empty rp (py_or w (py_or (pget r ''name'' PNone) (pget r ''display_title'' PNone))),
               job_name = py_str_of rp (pget j ''name'' (PStr [])),
               job_runner = text_or_empty rp (pget j ''runner_name'' PNone),
               job_status = py_str_of rp (pget j ''status'' (PStr [])),
               job_conclusion = text_or_empty rp (pget j ''conclusion'' PNone),
               job_url = text_or_empty rp (pget j ''html_url'' PNone),
               job_started_at = text_or_empty rp (pget j ''started_at'' PNone),
               job_completed_at = text_or_empty rp (pget j ''completed_at'' PNone)\<rparr>)))"

text \<open>\<open>_age\<close>: an unreadable timestamp is infinitely old.\<close>

definition job_age :: "'w HttpEnv \<Rightarrow> (string \<times> pyval) list \<Rightarrow> ('w, age) gh" where
  "job_age e d =
     (case map_of d ''created_at'' of
        None \<Rightarrow> ret InfiniteAge
      | Some v \<Rightarrow>
          (case iso_epoch e (replace_all ''Z'' ''+00:00'' (py_str_of (str_text e) v)) of
             None \<Rightarrow> ret InfiniteAge
           | Some t \<Rightarrow> andThen (outside (wall_op e)) (\<lambda>now. ret (Age (now - t)))))"

fun label_text :: "pyval \<Rightarrow> string result" where
  "label_text (PStr s) = Inr s"
| "label_text _ = Inl (AttributeError ''no attribute lower'')"

definition job_labels :: "(string \<times> pyval) list \<Rightarrow> string list result" where
  "job_labels d = bind_result (py_iter (py_or (pget d ''labels'' PNone) (PList []))) (map_result label_text)"

datatype scanned_job = QueuedFor age | NotServed | Seen JobInfo

definition scan_job :: "'w HttpEnv \<Rightarrow> PoolConfig \<Rightarrow> string \<Rightarrow> pyval \<Rightarrow> pyval \<Rightarrow> ('w, scanned_job) gh" where
  "scan_job e p repo run job =
     andThen (lift_result (py_get job ''status'' PNone)) (\<lambda>status.
       if status = PStr ''queued''
       then andThen (lift_result (job_labels (dict_items job))) (\<lambda>labels.
              if serves_labels p labels then andThen (job_age e (dict_items job)) (\<lambda>a. ret (QueuedFor a))
              else ret NotServed)
       else andThen (lift_result (job_info (str_text e) job run repo)) (\<lambda>j. ret (Seen j)))"

fun queued_age :: "scanned_job \<Rightarrow> age option" where
  "queued_age (QueuedFor a) = Some a"
| "queued_age _ = None"

fun seen_job :: "scanned_job \<Rightarrow> JobInfo option" where
  "seen_job (Seen j) = Some j"
| "seen_job _ = None"

text \<open>\<open>not pool.queued_min_age or age >= pool.queued_min_age\<close>.\<close>

definition old_enough :: "PoolConfig \<Rightarrow> age \<Rightarrow> bool" where
  "old_enough p a = (queued_min_age p = 0 \<or> age_at_least (queued_min_age p) a)"

definition scan_of :: "PoolConfig \<Rightarrow> age list \<Rightarrow> QueueScan" where
  "scan_of p ages = \<lparr>qs_queued = int (length (filter (old_enough p) ages)), qs_failed = 0, qs_ages = ages\<rparr>"

definition run_jobs_path :: "PoolConfig \<Rightarrow> string \<Rightarrow> string \<Rightarrow> string" where
  "run_jobs_path p repo run_id =
     ''/repos/'' @ pool_owner p @ ''/'' @ repo @ ''/actions/runs/'' @ run_id @ ''/jobs?filter=latest&per_page=50''"

definition scan_run :: "'w HttpEnv \<Rightarrow> Forge \<Rightarrow> PoolConfig \<Rightarrow> string \<Rightarrow> pyval \<Rightarrow> ('w, QueueScan \<times> JobInfo list) gh" where
  "scan_run e fg p repo run =
     andThen (lift_result (py_item run ''id'')) (\<lambda>run_id.
     andThen (get_shared e fg (pool_pat p) (run_jobs_path p repo (py_str_of (str_text e) run_id))) (\<lambda>data.
       if data = PNone then ret (failed_scan, [])
       else andThen (lift_result (bind_result (py_get data ''jobs'' (PList [])) py_iter)) (\<lambda>raw.
            andThen (collect (scan_job e p repo run) raw) (\<lambda>scanned.
              ret (scan_of p (List.map_filter queued_age scanned), List.map_filter seen_job scanned)))))"

text \<open>The runs of one listing; a run already seen under another status is skipped.\<close>

fun scan_runs :: "'w HttpEnv \<Rightarrow> Forge \<Rightarrow> PoolConfig \<Rightarrow> string \<Rightarrow> pyval list \<Rightarrow>
    QueueScan \<times> JobInfo list \<times> pyval list \<Rightarrow> ('w, QueueScan \<times> JobInfo list \<times> pyval list) gh" where
  "scan_runs e fg p repo [] acc = ret acc"
| "scan_runs e fg p repo (run # runs) (scan, jobs, seen) =
     andThen (lift_result (py_item run ''id'')) (\<lambda>run_id.
       if run_id \<in> set seen then scan_runs e fg p repo runs (scan, jobs, seen)
       else andThen (scan_run e fg p repo run) (\<lambda>(more, js).
            scan_runs e fg p repo runs (add_scan scan more, jobs @ js, run_id # seen)))"

definition runs_path :: "PoolConfig \<Rightarrow> string \<Rightarrow> string \<Rightarrow> string" where
  "runs_path p repo status =
     ''/repos/'' @ pool_owner p @ ''/'' @ repo @ ''/actions/runs?status='' @ status @ ''&per_page=50''"

fun scan_statuses :: "'w HttpEnv \<Rightarrow> Forge \<Rightarrow> PoolConfig \<Rightarrow> string \<Rightarrow> string list \<Rightarrow>
    QueueScan \<times> JobInfo list \<times> pyval list \<Rightarrow> ('w, QueueScan \<times> JobInfo list \<times> pyval list) gh" where
  "scan_statuses e fg p repo [] acc = ret acc"
| "scan_statuses e fg p repo (status # rest) (scan, jobs, seen) =
     andThen (get_shared e fg (pool_pat p) (runs_path p repo status)) (\<lambda>data.
       if data = PNone then scan_statuses e fg p repo rest (add_scan scan failed_scan, jobs, seen)
       else andThen (lift_result (bind_result (py_get data ''workflow_runs'' (PList [])) py_iter)) (\<lambda>runs.
            andThen (scan_runs e fg p repo runs (scan, jobs, seen)) (scan_statuses e fg p repo rest)))"

definition scan_repo :: "'w HttpEnv \<Rightarrow> Forge \<Rightarrow> PoolConfig \<Rightarrow> string \<Rightarrow> ('w, QueueScan \<times> JobInfo list) gh" where
  "scan_repo e fg p repo =
     andThen (scan_statuses e fg p repo ACTIVE_RUN_STATUSES (empty_scan, [], [])) (\<lambda>(scan, jobs, _). ret (scan, jobs))"

definition pool_repositories :: "'w HttpEnv \<Rightarrow> Forge \<Rightarrow> PoolConfig \<Rightarrow> ('w, string list option) gh" where
  "pool_repositories e fg p =
     (if is_personal_level p then list_repositories e fg p
      else andThen (get_request e fg (pool_pat p) (''/orgs/'' @ pool_owner p @ ''/repos?per_page=100&type=all'')) (\<lambda>data.
        if \<not> is_list data then ret None
        else andThen (lift_result (map_result (\<lambda>r. py_item r ''name'') (list_items data))) (\<lambda>names.
             ret (Some (map (py_str_of (str_text e)) names)))))"

text \<open>\<open>sum(scans, QueueScan())\<close> over the repositories.\<close>

fun scan_repositories :: "'w HttpEnv \<Rightarrow> Forge \<Rightarrow> PoolConfig \<Rightarrow> string list \<Rightarrow> QueueScan \<times> JobInfo list \<Rightarrow>
    ('w, QueueScan \<times> JobInfo list) gh" where
  "scan_repositories e fg p [] acc = ret acc"
| "scan_repositories e fg p (r # rs) (scan, jobs) =
     andThen (scan_repo e fg p r) (\<lambda>(more, js).
       scan_repositories e fg p rs (add_scan scan more, jobs @ js))"

definition scan_queue :: "'w HttpEnv \<Rightarrow> Forge \<Rightarrow> PoolConfig \<Rightarrow> ('w, QueueScan \<times> JobInfo list) gh" where
  "scan_queue e fg p =
     (if pool_repo p \<noteq> [] then scan_repo e fg p (pool_repo p)
      else andThen (pool_repositories e fg p) (\<lambda>r.
        case r of None \<Rightarrow> ret (failed_scan, [])
        | Some repos \<Rightarrow> scan_repositories e fg p repos (empty_scan, [])))"

definition get_queued_count :: "'w HttpEnv \<Rightarrow> Forge \<Rightarrow> PoolConfig \<Rightarrow> ('w, int \<times> JobInfo list) gh" where
  "get_queued_count e fg p = andThen (scan_queue e fg p) (\<lambda>(scan, jobs). ret (qs_queued scan, jobs))"

definition get_queued_ages :: "'w HttpEnv \<Rightarrow> Forge \<Rightarrow> PoolConfig \<Rightarrow> ('w, age list \<times> JobInfo list) gh" where
  "get_queued_ages e fg p = andThen (scan_queue e fg p) (\<lambda>(scan, jobs). ret (qs_ages scan, jobs))"

section \<open>Runners\<close>

text \<open>A runner entry is used when it is a dict with an integer id and a string name; \<open>True\<close> is an integer.\<close>

fun int_like :: "pyval \<Rightarrow> int option" where
  "int_like (PInt n) = Some n"
| "int_like (PBool b) = Some (if b then 1 else 0)"
| "int_like _ = None"

definition runner_of :: "pyval \<Rightarrow> RunnerInfo option" where
  "runner_of v =
     (case v of
        PDict d \<Rightarrow>
          (case (int_like (pget d ''id'' PNone), pget d ''name'' PNone) of
             (Some i, PStr n) \<Rightarrow>
               Some \<lparr>runner_id = i, runner_name = n,
                     runner_status = (case pget d ''status'' PNone of PStr s \<Rightarrow> s | _ \<Rightarrow> ''unknown''),
                     runner_busy = (pget d ''busy'' PNone = PBool True)\<rparr>
           | _ \<Rightarrow> None)
      | _ \<Rightarrow> None)"

definition list_runners :: "'w HttpEnv \<Rightarrow> Forge \<Rightarrow> PoolConfig \<Rightarrow> ('w, RunnerInfo list option) gh" where
  "list_runners e fg p =
     andThen (get_request e fg (pool_pat p) (api_runners_path p)) (\<lambda>data.
       ret (case data of
              PDict d \<Rightarrow> (case pget d ''runners'' PNone of
                            PList rs \<Rightarrow> Some (List.map_filter runner_of rs)
                          | _ \<Rightarrow> None)
            | _ \<Rightarrow> None))"

definition gh_deregister_runner :: "'w HttpEnv \<Rightarrow> Forge \<Rightarrow> PoolConfig \<Rightarrow> int \<Rightarrow> ('w, bool) gh" where
  "gh_deregister_runner e fg p i =
     andThen (delete_request e fg (pool_pat p) (api_runners_path p @ ''/'' @ show_int i)) (\<lambda>r. ret (r = PBool True))"

definition gitea_registration_token :: "'w HttpEnv \<Rightarrow> Forge \<Rightarrow> PoolConfig \<Rightarrow> ('w, string option) gh" where
  "gitea_registration_token e fg p =
     andThen (request e fg (pool_pat p) (api_runners_path p @ ''/registration-token'') ''POST'') (\<lambda>data.
       ret (case data of
              PDict d \<Rightarrow> (case pget d ''token'' PNone of PStr t \<Rightarrow> if t = [] then None else Some t | _ \<Rightarrow> None)
            | _ \<Rightarrow> None))"

section \<open>Which client serves a pool\<close>

text \<open>
  \<open>ForgeClients\<close>: one GitHub client and one Gitea client per base URL, made on first use.
  The clients act on one world, kept in \<open>fc_world\<close>; a client's own world field is only
  set while it runs.
\<close>

record 'w ForgeClients =
  fc_github :: "'w GitHubClient"
  fc_gitea :: "(string, 'w GitHubClient) dict"
  fc_reserve :: int
  fc_world :: 'w

definition forge_for :: "int \<Rightarrow> PoolConfig \<Rightarrow> Forge" where
  "forge_for reserve p = (if is_gitea p then gitea_forge (base_url p) else github_forge reserve)"

definition client_for :: "PoolConfig \<Rightarrow> 'w ForgeClients \<Rightarrow> 'w GitHubClient" where
  "client_for p s =
     (if is_gitea p then dict_get (fc_gitea s) (base_url p) (new_github_client (fc_world s)) else fc_github s)"

definition put_client :: "PoolConfig \<Rightarrow> 'w GitHubClient \<Rightarrow> 'w ForgeClients \<Rightarrow> 'w ForgeClients" where
  "put_client p c s =
     (if is_gitea p then s\<lparr>fc_gitea := dict_set (base_url p) c (fc_gitea s), fc_world := gh_world c\<rparr>
      else s\<lparr>fc_github := c, fc_world := gh_world c\<rparr>)"

definition on_forge :: "(Forge \<Rightarrow> PoolConfig \<Rightarrow> ('w, 'a) gh) \<Rightarrow> PoolConfig \<Rightarrow> ('w ForgeClients, 'a) eff" where
  "on_forge f p s =
     (case f (forge_for (fc_reserve s) p) p ((client_for p s)\<lparr>gh_world := fc_world s\<rparr>) of
        (r, c) \<Rightarrow> (r, put_client p c s))"

definition forge_api :: "'w HttpEnv \<Rightarrow> 'w ForgeClients RunnerAPIClient" where
  "forge_api e =
     \<lparr>list_repositories_op = on_forge (list_repositories e),
      get_queued_count_op = on_forge (get_queued_count e),
      get_queued_ages_op = on_forge (get_queued_ages e),
      list_runners_op = on_forge (list_runners e),
      deregister_runner_op = (\<lambda>p i. on_forge (\<lambda>fg p. gh_deregister_runner e fg p i) p)\<rparr>"

definition forge_registration_token :: "'w HttpEnv \<Rightarrow> PoolConfig \<Rightarrow> ('w ForgeClients, string option) eff" where
  "forge_registration_token e = on_forge (gitea_registration_token e)"

end
