(* ===== verification/Version.thy ===== *)
theory Version
  imports PyVal
begin

text \<open>
  \<open>orchestrator/rorch/version.py\<close>: which release is running, and the \<open>{version}\<close>
  placeholder of image names. The environment, \<open>pyproject.toml\<close> (what reading and parsing it
  gave; a \<open>TOMLDecodeError\<close> is a \<open>ValueError\<close>) and the package metadata are arguments.
\<close>

definition UNKNOWN :: string where "UNKNOWN = ''unknown''"

definition normalise :: "string \<Rightarrow> string" where
  "normalise raw =
     (let raw = strip raw
      in case raw of
           c # d # t \<Rightarrow> if c = CHR ''v'' \<and> is_digit d then d # t else raw
         | _ \<Rightarrow> raw)"

definition from_pyproject :: "(pyval \<Rightarrow> string) \<Rightarrow> pyval result \<Rightarrow> string result" where
  "from_pyproject rp doc =
     (case bind_result doc (\<lambda>v. bind_result (py_item v ''project'') (\<lambda>p. py_item p ''version'')) of
        Inr v \<Rightarrow> Inr (py_str_of rp v)
      | Inl (OSError _) \<Rightarrow> Inr [] | Inl (KeyError _) \<Rightarrow> Inr [] | Inl (TypeError _) \<Rightarrow> Inr [] | Inl (ValueError _) \<Rightarrow> Inr []
      | Inl err \<Rightarrow> Inl err)"

text \<open>\<open>None\<close> stands for \<open>PackageNotFoundError\<close>.\<close>

definition from_metadata :: "string option \<Rightarrow> string" where
  "from_metadata installed = (case installed of None \<Rightarrow> [] | Some v \<Rightarrow> v)"

definition resolve_version :: "string option \<Rightarrow> string option \<Rightarrow> string option \<Rightarrow> string" where
  "resolve_version build pyproject metadata =
     (let build = (case build of None \<Rightarrow> [] | Some v \<Rightarrow> v);
          pyproject = (case pyproject of None \<Rightarrow> [] | Some v \<Rightarrow> v);
          metadata = normalise (from_metadata metadata)
      in if strip build \<noteq> [] then normalise build
         else if strip pyproject \<noteq> [] then normalise pyproject
         else if metadata \<noteq> [] then metadata else UNKNOWN)"

definition get_version :: "(pyval \<Rightarrow> string) \<Rightarrow> (string \<Rightarrow> string option) \<Rightarrow> pyval result \<Rightarrow> string option \<Rightarrow> string result" where
  "get_version rp env doc installed =
     bind_result (from_pyproject rp doc) (\<lambda>p. Inr (resolve_version (env ''RORCH_BUILD_VERSION'') (Some p) installed))"

definition VERSION_PLACEHOLDER :: string where "VERSION_PLACEHOLDER = ''{version}''"

definition expand_image :: "string \<Rightarrow> string \<Rightarrow> string" where
  "expand_image version img =
     (if \<not> contains img VERSION_PLACEHOLDER then img
      else replace_all VERSION_PLACEHOLDER (if version \<noteq> [] \<and> version \<noteq> UNKNOWN then version else ''latest'') img)"

lemma resolve_version_build: "strip v \<noteq> [] \<Longrightarrow> resolve_version (Some v) p m = normalise v"
  by (simp add: resolve_version_def)

lemma normalise_unprefixed: "normalise s = [] \<Longrightarrow> strip s = []"
  by (auto simp: normalise_def Let_def split: list.splits if_splits)

lemma resolve_version_nonempty: "resolve_version b p m \<noteq> []"
  using normalise_unprefixed by (auto simp: resolve_version_def Let_def UNKNOWN_def)

lemma get_version_nonempty: "get_version rp env doc installed = Inr v \<Longrightarrow> v \<noteq> []"
  by (auto simp: get_version_def bind_result_Inr_iff resolve_version_nonempty)

lemma unreadable_pyproject: "from_pyproject rp (Inl (OSError m)) = Inr []"
  by (simp add: from_pyproject_def)

end
