(* ===== verification/DockerClient.thy ===== *)
theory DockerClient
  imports Protocols Version
begin

text \<open>
  \<open>orchestrator/rorch/docker_client.py\<close>: container management through the Docker command
  line. The daemon behind the command is \<open>docker_op\<close>: the arguments in, standard output,
  standard error and the exit code out, over a world it may change. The clock, the socket's
  group, fresh names, the build context and the two collaborators (event store, registration
  tokens) are the rest of \<open>DockerEnv\<close>. The clean-up workers run one after the other, each
  failing on its own; their time limit is not modelled, and neither are log lines.
\<close>

definition ORCHESTRATOR_CONTAINER :: string where "ORCHESTRATOR_CONTAINER = ''gh-runner-orchestrator''"
definition RUNNER_BUILD_CONTEXT :: string where "RUNNER_BUILD_CONTEXT = ''/app/runner-image''"
definition BUILD_RETRY_SECONDS :: rat where "BUILD_RETRY_SECONDS = 300"
definition KEEP_LABEL :: string where "KEEP_LABEL = ''rorch.keep=true''"
definition GID_LABEL :: string where "GID_LABEL = ''rorch.docker_gid''"
definition RUNTIME_GID :: string where "RUNTIME_GID = ''runtime''"
definition RUNNER_WORK_DIR :: string where "RUNNER_WORK_DIR = ''/home/runner/actions-runner/_work''"
definition JOB_STARTED_HOOK_PATH :: string where "JOB_STARTED_HOOK_PATH = ''/opt/rorch/job-started-hook.sh''"
definition TOOL_CACHE_DIR :: string where "TOOL_CACHE_DIR = ''/opt/hostedtoolcache''"
definition TOOL_CACHE_ENV :: "string list" where "TOOL_CACHE_ENV = [''RUNNER_TOOL_CACHE'', ''AGENT_TOOLSDIRECTORY'']"
definition RUNNER_JOB_NETWORK_PREFIX :: string where "RUNNER_JOB_NETWORK_PREFIX = ''github_network_''"
definition PROTECTED_CONTAINER_PREFIXES :: "string list" where
  "PROTECTED_CONTAINER_PREFIXES = [''gh-runner-'', ''rorch-'']"

definition EVENT_SPAWN :: string where "EVENT_SPAWN = ''spawn''"
definition EVENT_SPAWN_FAILED :: string where "EVENT_SPAWN_FAILED = ''spawn_failed''"
definition EVENT_EXIT :: string where "EVENT_EXIT = ''exit''"
definition EVENT_STUCK_KILL :: string where "EVENT_STUCK_KILL = ''stuck_kill''"
definition EVENT_AGED_KILL :: string where "EVENT_AGED_KILL = ''aged_kill''"
definition EVENT_MANUAL_STOP :: string where "EVENT_MANUAL_STOP = ''manual_stop''"

definition tab :: char where "tab = CHR 0x09"
definition newline :: char where "newline = CHR 0x0A"

section \<open>Reading Docker's output\<close>

definition is_registry_ref :: "string \<Rightarrow> bool" where
  "is_registry_ref img = (CHR ''/'' \<in> set (before_first (CHR ''@'') img))"

definition pinned_runner_version :: "string \<Rightarrow> string" where
  "pinned_runner_version img =
     (let tag = after_first (CHR '':'') img; parts = split_on (CHR ''.'') tag
      in if 2 \<le> length parts \<and> list_all all_digits parts then tag else [])"

fun pf_scale :: "rat \<Rightarrow> pyfloat \<Rightarrow> pyfloat" where
  "pf_scale k (Fin r) = Fin (k * r)"
| "pf_scale k f = f"

definition parse_running_minutes :: "string \<Rightarrow> pyfloat option" where
  "parse_running_minutes running_for =
     (case split_ws (lower running_for) of
        n # u # _ \<Rightarrow>
          (case float_of_str n of
             None \<Rightarrow> None
           | Some v \<Rightarrow>
               if contains u ''second'' then Some (pf_scale (1 / 60) v)
               else if contains u ''minute'' then Some v
               else if contains u ''hour'' then Some (pf_scale 60 v)
               else if contains u ''day'' then Some (pf_scale (60 * 24) v)
               else None)
      | _ \<Rightarrow> None)"

text \<open>
  \<open>datetime.strptime(" ".join(created_at.split()[:3]), "%Y-%m-%d %H:%M:%S %z")\<close> as seconds
  since 1970; \<open>None\<close> where it raises \<open>ValueError\<close>. Fractions of a second in the offset are
  not read.
\<close>

definition small_number :: "nat \<Rightarrow> nat \<Rightarrow> string \<Rightarrow> int option" where
  "small_number low high s =
     (if all_digits s \<and> length s \<le> 2 \<and> int low \<le> digits_value 0 s \<and> digits_value 0 s \<le> int high
      then Some (digits_value 0 s) else None)"

definition leap :: "int \<Rightarrow> bool" where
  "leap y = (y mod 4 = 0 \<and> (y mod 100 \<noteq> 0 \<or> y mod 400 = 0))"

definition month_days :: "int \<Rightarrow> int \<Rightarrow> int" where
  "month_days y m = (if m = 2 then (if leap y then 29 else 28) else if m \<in> {4, 6, 9, 11} then 30 else 31)"

definition days_before_year :: "int \<Rightarrow> int" where
  "days_before_year y = 365 * (y - 1) + (y - 1) div 4 - (y - 1) div 100 + (y - 1) div 400"

definition days_before_month :: "int \<Rightarrow> int \<Rightarrow> int" where
  "days_before_month y m = sum_list (map (\<lambda>k. month_days y (int k)) [1..<nat m])"

definition epoch_days :: "int \<Rightarrow> int \<Rightarrow> int \<Rightarrow> int" where
  "epoch_days y m d = days_before_year y + days_before_month y m + d - 719163"

definition read_date :: "string \<Rightarrow> int option" where
  "read_date s =
     (case split_on (CHR ''-'') s of
        [y, m, d] \<Rightarrow>
          (case (small_number 1 12 m, small_number 1 31 d) of
             (Some m, Some d) \<Rightarrow>
               let y' = digits_value 0 y
               in if all_digits y \<and> length y = 4 \<and> 1 \<le> y' \<and> d \<le> month_days y' m
                  then Some (epoch_days y' m d) else None
           | _ \<Rightarrow> None)
      | _ \<Rightarrow> None)"

definition read_time :: "string \<Rightarrow> int option" where
  "read_time s =
     (case split_on (CHR '':'') s of
        [h, m, sec] \<Rightarrow>
          (case (small_number 0 23 h, small_number 0 59 m, small_number 0 59 sec) of
             (Some h, Some m, Some sec) \<Rightarrow> Some (h * 3600 + m * 60 + sec)
           | _ \<Rightarrow> None)
      | _ \<Rightarrow> None)"

definition two_digits :: "nat \<Rightarrow> string \<Rightarrow> int option" where
  "two_digits high s = (if length s = 2 then small_number 0 high s else None)"

definition offset_of :: "string list \<Rightarrow> int option" where
  "offset_of parts =
     (case parts of
        [h, m] \<Rightarrow> (case (two_digits 23 h, two_digits 59 m) of (Some h, Some m) \<Rightarrow> Some (h * 3600 + m * 60) | _ \<Rightarrow> None)
      | [h, m, s] \<Rightarrow> (case (two_digits 23 h, two_digits 59 m, two_digits 59 s) of
            (Some h, Some m, Some s) \<Rightarrow> Some (h * 3600 + m * 60 + s) | _ \<Rightarrow> None)
      | _ \<Rightarrow> None)"

fun pairs_of :: "string \<Rightarrow> string list" where
  "pairs_of (a # b # t) = [a, b] # pairs_of t"
| "pairs_of [] = []"
| "pairs_of [a] = [[a]]"

definition read_offset :: "string \<Rightarrow> int option" where
  "read_offset s =
     (if s = ''Z'' then Some 0
      else (case s of
              [] \<Rightarrow> None
            | c # t \<Rightarrow>
                let parts = (if CHR '':'' \<in> set t then split_on (CHR '':'') t else pairs_of t)
                in if c = CHR ''+'' then offset_of parts
                   else if c = CHR ''-'' then map_option uminus (offset_of parts) else None))"

definition parse_created_at :: "string \<Rightarrow> int option" where
  "parse_created_at created_at =
     (case take 3 (split_ws created_at) of
        [d, t, z] \<Rightarrow>
          (case (read_date d, read_time t, read_offset z) of
             (Some d, Some t, Some z) \<Rightarrow> Some (d * 86400 + t - z)
           | _ \<Rightarrow> None)
      | _ \<Rightarrow> None)"

definition label_keys :: "string \<Rightarrow> string set" where
  "label_keys labels = set (map (before_first (CHR ''='')) (filter (\<lambda>x. x \<noteq> []) (split_on (CHR '','') labels)))"

definition pattern_hits :: "string \<Rightarrow> string \<Rightarrow> string \<Rightarrow> bool" where
  "pattern_hits name labels pattern =
     (if starts_with pattern ''label='' then drop 6 pattern \<in> label_keys labels else glob pattern name)"

definition is_ci_container :: "string \<Rightarrow> string \<Rightarrow> string \<Rightarrow> string list \<Rightarrow> bool" where
  "is_ci_container name networks labels patterns =
     (if list_ex (starts_with name) PROTECTED_CONTAINER_PREFIXES then False
      else if list_ex (\<lambda>n. starts_with n RUNNER_JOB_NETWORK_PREFIX) (split_on (CHR '','') networks) then True
      else list_ex (pattern_hits name labels) patterns)"

definition pool_of :: "string \<Rightarrow> string" where
  "pool_of container =
     (let parts = split_on (CHR ''-'') container
      in if 3 < length parts then join ''-'' (butlast (drop 2 parts)) else [])"

text \<open>The lines of an output and their tab-separated columns.\<close>

definition lines_of :: "string \<Rightarrow> string list" where
  "lines_of out = split_on newline out"

definition columns :: "string \<Rightarrow> string list" where
  "columns line = split_on tab line"

section \<open>The client\<close>

record 'w DockerEnv =
  docker_op :: "string list \<Rightarrow> ('w, string \<times> string \<times> int) eff"
  docker_gid_op :: "('w, int) eff"
  d_mono_op :: "('w, rat) eff"
  fresh_uid_op :: "('w, string) eff"
  has_dockerfile_op :: "('w, bool) eff"
  record_op :: "(string \<Rightarrow> string \<Rightarrow> string \<Rightarrow> string \<Rightarrow> ('w, unit) eff) option"
  registration_token_op :: "(PoolConfig \<Rightarrow> ('w, string option) eff) option"
  release :: string
  show_float :: "pyfloat \<Rightarrow> string"
  volume_created :: "string \<Rightarrow> rat option"

record 'w DockerClient =
  build_retry_at :: "(string, rat) dict"
  d_world :: 'w

type_synonym ('w, 'a) dc = "('w DockerClient, 'a) eff"

definition on_daemon :: "('w, 'a) eff \<Rightarrow> ('w, 'a) dc" where
  "on_daemon m s = (case m (d_world s) of (r, w) \<Rightarrow> (r, s\<lparr>d_world := w\<rparr>))"

definition docker_capture :: "'w DockerEnv \<Rightarrow> string list \<Rightarrow> ('w, string \<times> int) dc" where
  "docker_capture e args = andThen (on_daemon (docker_op e args)) (\<lambda>(out, _, code). ret (strip out, code))"

definition docker_exec :: "'w DockerEnv \<Rightarrow> string list \<Rightarrow> ('w, int) dc" where
  "docker_exec e args = andThen (on_daemon (docker_op e args)) (\<lambda>(_, _, code). ret code)"

definition docker_record :: "'w DockerEnv \<Rightarrow> string \<Rightarrow> string \<Rightarrow> string \<Rightarrow> string \<Rightarrow> ('w, unit) dc" where
  "docker_record e event container pool reason =
     (case record_op e of None \<Rightarrow> ret () | Some f \<Rightarrow> swallow (on_daemon (f event container pool reason)))"

text \<open>\<open>_run_parallel\<close>: a failing item is logged and the others still run.\<close>

definition run_parallel :: "('a \<Rightarrow> ('w, unit) dc) \<Rightarrow> 'a list \<Rightarrow> ('w, unit) dc" where
  "run_parallel f items = each (\<lambda>x. swallow (f x)) items"

section \<open>Listing and stopping\<close>

definition name_filter :: "string \<Rightarrow> string" where
  "name_filter pfx = ''name=^'' @ pfx @ ''-''"

definition running_containers :: "'w DockerEnv \<Rightarrow> string \<Rightarrow> ('w, string list) dc" where
  "running_containers e pfx =
     andThen (docker_capture e [''ps'', ''--filter'', name_filter pfx, ''--format'', ''{{.Names}}'']) (\<lambda>(out, _).
       ret (filter (\<lambda>n. n \<noteq> []) (lines_of out)))"

definition detail_of :: "string \<Rightarrow> ContainerInfo option" where
  "detail_of line =
     (case columns line of
        [name, img, status, running_for] \<Rightarrow>
          Some \<lparr>ci_name = name, ci_image = img, ci_status = status, ci_running_for = running_for,
                ci_minutes = (case parse_running_minutes running_for of
                                None \<Rightarrow> Fin 0 | Some f \<Rightarrow> if f = Fin 0 then Fin 0 else f)\<rparr>
      | _ \<Rightarrow> None)"

definition container_details :: "'w DockerEnv \<Rightarrow> string \<Rightarrow> ('w, ContainerInfo list) dc" where
  "container_details e pfx =
     andThen (docker_capture e [''ps'', ''--filter'', name_filter pfx, ''--format'',
       ''{{.Names}}'' @ [tab] @ ''{{.Image}}'' @ [tab] @ ''{{.Status}}'' @ [tab] @ ''{{.RunningFor}}'']) (\<lambda>(out, _).
       ret (if out = [] then [] else List.map_filter detail_of (lines_of out)))"

definition rm_force :: "string \<Rightarrow> string list" where
  "rm_force name = [''rm'', ''-f'', ''-v'', name]"

definition stop_container :: "'w DockerEnv \<Rightarrow> string \<Rightarrow> ('w, bool) dc" where
  "stop_container e name =
     andThen (docker_capture e (rm_force name)) (\<lambda>(_, code).
       if code = 0
       then andThen (docker_record e EVENT_MANUAL_STOP name (pool_of name) []) (\<lambda>_. ret True)
       else andThen (running_containers e (before_last (CHR ''-'') name)) (\<lambda>names. ret (name \<notin> set names)))"

definition container_logs :: "'w DockerEnv \<Rightarrow> string \<Rightarrow> int \<Rightarrow> ('w, string) dc" where
  "container_logs e name tail =
     andThen (on_daemon (docker_op e [''logs'', ''--tail'', show_int (max 1 (min tail 5000)), name]))
       (\<lambda>(out, err, _). ret (out @ err))"

section \<open>Cleaning up\<close>

definition exited_rows :: "string \<Rightarrow> string list list" where
  "exited_rows out = map columns (filter (\<lambda>l. l \<noteq> []) (lines_of out))"

definition remove_exited :: "'w DockerEnv \<Rightarrow> string list \<Rightarrow> ('w, unit) dc" where
  "remove_exited e row =
     (let name = hd row; status = (if 1 < length row then row ! 1 else [])
      in andThen (if status \<noteq> [] \<and> \<not> starts_with status ''Exited (0)''
                  then andThen (on_daemon (docker_op e [''logs'', ''--tail'', ''5'', name])) (\<lambda>_. ret ())
                  else ret ()) (\<lambda>_.
         andThen (docker_capture e [''rm'', ''-v'', name]) (\<lambda>_.
           docker_record e EVENT_EXIT name (pool_of name) status)))"

definition cleanup_exited :: "'w DockerEnv \<Rightarrow> string \<Rightarrow> ('w, unit) dc" where
  "cleanup_exited e pfx =
     andThen (docker_capture e [''ps'', ''-a'', ''--filter'', name_filter pfx, ''--filter'', ''status=exited'',
       ''--format'', ''{{.Names}}'' @ [tab] @ ''{{.Status}}'']) (\<lambda>(out, _).
       if out = [] then ret () else run_parallel (remove_exited e) (exited_rows out))"

text \<open>\<open>None\<close> when Docker cannot say.\<close>

definition running_job_of :: "string \<Rightarrow> bool" where
  "running_job_of out =
     (if contains out ''Runner.Worker'' then True
      else
        let processes = tl (lines_of out);
            daemon = filter (\<lambda>l. contains l ''gitea-runner daemon'') processes
        in daemon \<noteq> [] \<and> length daemon < length processes)"

definition has_running_job :: "'w DockerEnv \<Rightarrow> string \<Rightarrow> ('w, bool option) dc" where
  "has_running_job e name =
     andThen (docker_capture e [''top'', name]) (\<lambda>(out, code).
       ret (if code \<noteq> 0 then None else Some (running_job_of out)))"

text \<open>A container's age reaches the limit; an age that cannot be read does not.\<close>

definition aged_at_least :: "int \<Rightarrow> string \<Rightarrow> bool" where
  "aged_at_least limit running_for =
     (case parse_running_minutes running_for of None \<Rightarrow> False | Some m \<Rightarrow> \<not> pf_lt m (Fin (of_int limit)))"

fun select_stuck :: "'w DockerEnv \<Rightarrow> string set \<Rightarrow> int \<Rightarrow> string list list \<Rightarrow> ('w, string list) dc" where
  "select_stuck e online limit [] = ret []"
| "select_stuck e online limit (row # rows) =
     (case row of
        [name, running_for] \<Rightarrow>
          if name \<in> online \<or> \<not> aged_at_least limit running_for then select_stuck e online limit rows
          else andThen (has_running_job e name) (\<lambda>busy.
               andThen (select_stuck e online limit rows) (\<lambda>rest.
                 ret (if busy = Some False then name # rest else rest)))
      | _ \<Rightarrow> select_stuck e online limit rows)"

definition kill_container :: "'w DockerEnv \<Rightarrow> string \<Rightarrow> string \<Rightarrow> string \<Rightarrow> ('w, unit) dc" where
  "kill_container e event reason name =
     andThen (docker_capture e (rm_force name)) (\<lambda>_. docker_record e event name (pool_of name) reason)"

definition ps_running_for :: "string \<Rightarrow> string list" where
  "ps_running_for pfx = [''ps'', ''--filter'', name_filter pfx, ''--format'', ''{{.Names}}'' @ [tab] @ ''{{.RunningFor}}'']"

definition cleanup_stuck :: "'w DockerEnv \<Rightarrow> string \<Rightarrow> string set \<Rightarrow> int \<Rightarrow> ('w, unit) dc" where
  "cleanup_stuck e pfx online limit =
     andThen (docker_capture e (ps_running_for pfx)) (\<lambda>(out, _).
       if out = [] then ret ()
       else andThen (select_stuck e online limit (map columns (lines_of out))) (\<lambda>names.
            run_parallel (kill_container e EVENT_STUCK_KILL (''never came online within '' @ show_int limit @ ''m'')) names))"

definition aged_names :: "int \<Rightarrow> string set \<Rightarrow> string \<Rightarrow> string list" where
  "aged_names limit exclude out =
     List.map_filter (\<lambda>row. case row of
         [name, running_for] \<Rightarrow> if name \<notin> exclude \<and> aged_at_least limit running_for then Some name else None
       | _ \<Rightarrow> None) (map columns (lines_of out))"

definition cleanup_aged :: "'w DockerEnv \<Rightarrow> string \<Rightarrow> int \<Rightarrow> string set \<Rightarrow> ('w, unit) dc" where
  "cleanup_aged e pfx limit exclude =
     (if limit \<le> 0 then ret ()
      else andThen (docker_capture e (ps_running_for pfx)) (\<lambda>(out, _).
        run_parallel (kill_container e EVENT_AGED_KILL (''exceeded '' @ show_int limit @ ''m lifetime ceiling''))
          (if out = [] then [] else aged_names limit exclude out)))"

definition leftover_names :: "int \<Rightarrow> string list \<Rightarrow> rat \<Rightarrow> string \<Rightarrow> string list" where
  "leftover_names limit patterns now out =
     List.map_filter (\<lambda>row. case row of
         [name, created_at, networks, labels] \<Rightarrow>
           (if is_ci_container name networks labels patterns
            then (case parse_created_at created_at of
                    None \<Rightarrow> None
                  | Some t \<Rightarrow> if (now - of_int t) / 60 < of_int limit then None else Some name)
            else None)
       | _ \<Rightarrow> None) (map columns (lines_of out))"

definition cleanup_ci_containers :: "'w DockerEnv \<Rightarrow> int \<Rightarrow> string list \<Rightarrow> rat \<Rightarrow> ('w, unit) dc" where
  "cleanup_ci_containers e limit patterns now =
     (if limit \<le> 0 then ret ()
      else andThen (docker_capture e [''ps'', ''-a'', ''--format'',
          ''{{.Names}}'' @ [tab] @ ''{{.CreatedAt}}'' @ [tab] @ ''{{.Networks}}'' @ [tab] @ ''{{.Labels}}'']) (\<lambda>(out, _).
        run_parallel (\<lambda>name. andThen (docker_capture e (rm_force name)) (\<lambda>_. ret ()))
          (if out = [] then [] else leftover_names limit patterns now out)))"

section \<open>Images\<close>

definition image_state :: "'w DockerEnv \<Rightarrow> string \<Rightarrow> int \<Rightarrow> ('w, string option) dc" where
  "image_state e img gid =
     andThen (docker_capture e [''image'', ''inspect'', ''-f'',
        ''{{index .Config.Labels '' @ [CHR 0x22] @ GID_LABEL @ [CHR 0x22] @ ''}}'', img]) (\<lambda>(out, code).
       ret (if code \<noteq> 0 then Some ''missing''
            else let label = strip out
                 in if label = RUNTIME_GID \<or> label = show_int gid then None
                    else Some (''built for docker GID '' @ (if label \<noteq> [] then label else ''unknown'')
                      @ '', host socket is '' @ show_int gid)))"

definition backing_off :: "'w DockerEnv \<Rightarrow> string \<Rightarrow> ('w, bool) dc" where
  "backing_off e img =
     andThen (read_state (\<lambda>s. dict_get (build_retry_at s) img 0)) (\<lambda>retry_at.
     andThen (on_daemon (d_mono_op e)) (\<lambda>now. ret (now < retry_at)))"

definition back_off :: "'w DockerEnv \<Rightarrow> string \<Rightarrow> ('w, unit) dc" where
  "back_off e img =
     andThen (on_daemon (d_mono_op e)) (\<lambda>now.
       update_state (\<lambda>s. s\<lparr>build_retry_at := dict_set img (now + BUILD_RETRY_SECONDS) (build_retry_at s)\<rparr>))"

definition pull_image :: "'w DockerEnv \<Rightarrow> string \<Rightarrow> int \<Rightarrow> ('w, bool) dc" where
  "pull_image e img gid =
     andThen (backing_off e img) (\<lambda>wait.
       if wait then ret False
       else andThen (docker_exec e [''pull'', img]) (\<lambda>code.
         if code \<noteq> 0 then andThen (back_off e img) (\<lambda>_. ret False)
         else andThen (image_state e img gid) (\<lambda>after. ret (after = None))))"

definition build_command :: "string \<Rightarrow> string list" where
  "build_command img =
     (let pinned = pinned_runner_version img
      in [''build''] @ (if pinned = [] then [] else [''--build-arg'', ''RUNNER_VERSION='' @ pinned]) @
         [''-t'', img, RUNNER_BUILD_CONTEXT])"

definition build_image :: "'w DockerEnv \<Rightarrow> string \<Rightarrow> ('w, bool) dc" where
  "build_image e img =
     andThen (on_daemon (has_dockerfile_op e)) (\<lambda>present.
       if \<not> present then ret False
       else andThen (backing_off e img) (\<lambda>wait.
         if wait then ret False
         else andThen (docker_exec e (build_command img)) (\<lambda>code.
           if code \<noteq> 0 then andThen (back_off e img) (\<lambda>_. ret False) else ret True)))"

definition ensure_image :: "'w DockerEnv \<Rightarrow> string \<Rightarrow> ('w, bool) dc" where
  "ensure_image e name =
     (let img = expand_image (release e) name
      in andThen (on_daemon (docker_gid_op e)) (\<lambda>gid.
         andThen (image_state e img gid) (\<lambda>reason.
           if reason = None then ret True
           else if is_registry_ref img then pull_image e img gid
           else build_image e img)))"

section \<open>Spawning\<close>

definition CACHE_MOUNTS :: "(string \<times> string) list" where
  "CACHE_MOUNTS = [(''cache'', ''/home/runner/.cache''), (''npm'', ''/home/runner/.npm''),
     (''composer'', ''/home/runner/.composer''), (''nuget'', ''/home/runner/.nuget'')]"

definition base_args :: "PoolConfig \<Rightarrow> string \<Rightarrow> string list" where
  "base_args p name =
     [''run'', ''-d'', ''--name'', name, ''--restart'', ''no'', ''--network'', network_mode p,
      ''--memory'', memory_limit p, ''--memory-swap'', memory_limit p, ''--pids-limit'', ''512'',
      ''-v'', ''/var/run/docker.sock:/var/run/docker.sock'', ''-v'', TOOL_CACHE_DIR @ '':'' @ TOOL_CACHE_DIR]"

definition cache_args :: "PoolConfig \<Rightarrow> string list" where
  "cache_args p =
     concat (map (\<lambda>(h, c). [''-v'', ''/opt/runner-cache/'' @ container_prefix p @ ''/'' @ h @ '':'' @ c]) CACHE_MOUNTS)"

definition tmpfs_args :: "PoolConfig \<Rightarrow> string list" where
  "tmpfs_args p =
     (if work_tmpfs_enabled p
      then [''--tmpfs'', RUNNER_WORK_DIR @ '':rw,exec,size='' @ effective_work_tmpfs_size p @ '',uid=1000,gid=1000'']
      else [])"

text \<open>The credentials the container gets: a registration token for Gitea, the PAT for GitHub.\<close>

definition credential_args :: "PoolConfig \<Rightarrow> string \<Rightarrow> string list" where
  "credential_args p token =
     (if is_gitea p
      then [''-e'', ''RORCH_PROVIDER=gitea'', ''-e'', ''GITEA_URL='' @ base_url p,
            ''-e'', ''GITEA_RUNNER_REGISTRATION_TOKEN='' @ token]
      else [''-e'', ''GITHUB_PAT='' @ pool_pat p])"

definition runner_args :: "PoolConfig \<Rightarrow> string \<Rightarrow> string list" where
  "runner_args p name =
     [''-e'', ''GITHUB_OWNER='' @ pool_owner p, ''-e'', ''GITHUB_REPO='' @ pool_repo p,
      ''-e'', ''RUNNER_NAME='' @ name, ''-e'', ''RUNNER_LABELS='' @ runner_labels p] @
     concat (map (\<lambda>v. [''-e'', v @ ''='' @ TOOL_CACHE_DIR]) TOOL_CACHE_ENV)"

definition hook_args :: "PoolConfig \<Rightarrow> string list" where
  "hook_args p =
     (if job_started_hook p = [] then []
      else [''--mount'', ''type=bind,src='' @ job_started_hook p @ '',dst='' @ JOB_STARTED_HOOK_PATH @ '',readonly'',
            ''-e'', ''ACTIONS_RUNNER_HOOK_JOB_STARTED='' @ JOB_STARTED_HOOK_PATH])"

definition cpu_args :: "(pyfloat \<Rightarrow> string) \<Rightarrow> PoolConfig \<Rightarrow> string list" where
  "cpu_args show p = (if pf_lt (Fin 0) (cpu_limit p) then [''--cpus'', show (cpu_limit p)] else [])"

definition run_args :: "(pyfloat \<Rightarrow> string) \<Rightarrow> PoolConfig \<Rightarrow> string \<Rightarrow> string \<Rightarrow> string \<Rightarrow> string list" where
  "run_args show p img name token =
     base_args p name @ cache_args p @ tmpfs_args p @ credential_args p token @ runner_args p name @
     hook_args p @ cpu_args show p @ [img]"

definition launch :: "'w DockerEnv \<Rightarrow> PoolConfig \<Rightarrow> string \<Rightarrow> string \<Rightarrow> string \<Rightarrow> ('w, bool) dc" where
  "launch e p img name token =
     andThen (docker_exec e (run_args (show_float e) p img name token)) (\<lambda>code.
       if code = 0
       then andThen (docker_record e EVENT_SPAWN name (pool_name p) (display p)) (\<lambda>_. ret True)
       else andThen (docker_record e EVENT_SPAWN_FAILED name (pool_name p) (''docker run exit '' @ show_int code))
              (\<lambda>_. ret False))"

definition spawn_runner :: "'w DockerEnv \<Rightarrow> PoolConfig \<Rightarrow> ('w, bool) dc" where
  "spawn_runner e p =
     (let img = expand_image (release e) (runner_image p)
      in andThen (ensure_image e img) (\<lambda>ok.
         if \<not> ok
         then andThen (docker_record e EVENT_SPAWN_FAILED [] (pool_name p) (''image '' @ img @ '' unusable'')) (\<lambda>_. ret False)
         else
           andThen (on_daemon (fresh_uid_op e)) (\<lambda>uid.
             let name = container_prefix p @ ''-'' @ uid
             in if is_gitea p
                then andThen (case registration_token_op e of None \<Rightarrow> ret None | Some f \<Rightarrow> on_daemon (f p)) (\<lambda>token.
                  case token of
                    None \<Rightarrow> andThen (docker_record e EVENT_SPAWN_FAILED [] (pool_name p) ''no Gitea registration token'') (\<lambda>_. ret False)
                  | Some t \<Rightarrow>
                      if t = [] then andThen (docker_record e EVENT_SPAWN_FAILED [] (pool_name p) ''no Gitea registration token'') (\<lambda>_. ret False)
                      else launch e p img name t)
                else launch e p img name [])))"

section \<open>Pruning\<close>

definition prune_images :: "'w DockerEnv \<Rightarrow> string \<Rightarrow> bool \<Rightarrow> ('w, unit) dc" where
  "prune_images e until all_unused =
     andThen (docker_capture e ([''image'', ''prune''] @ (if all_unused then [''-a''] else []) @
        [''-f'', ''--filter'', ''until='' @ until, ''--filter'', ''label!='' @ KEEP_LABEL])) (\<lambda>_. ret ())"

definition prune_build_cache :: "'w DockerEnv \<Rightarrow> string \<Rightarrow> ('w, unit) dc" where
  "prune_build_cache e until =
     andThen (docker_capture e [''builder'', ''prune'', ''-f'', ''--filter'', ''until='' @ until]) (\<lambda>_. ret ())"

definition prune_networks :: "'w DockerEnv \<Rightarrow> string \<Rightarrow> ('w, unit) dc" where
  "prune_networks e until =
     andThen (docker_capture e [''network'', ''prune'', ''-f'', ''--filter'', ''until='' @ until]) (\<lambda>_. ret ())"

text \<open>
  \<open>volume_created\<close> reads the creation time out of the inspection's JSON, \<open>None\<close> where any
  step of it raises.
\<close>

fun select_volumes :: "'w DockerEnv \<Rightarrow> rat \<Rightarrow> rat \<Rightarrow> string list \<Rightarrow> ('w, string list) dc" where
  "select_volumes e now max_age_hours [] = ret []"
| "select_volumes e now max_age_hours (v # vs) =
     andThen (docker_capture e [''volume'', ''inspect'', v]) (\<lambda>(out, code).
     andThen (select_volumes e now max_age_hours vs) (\<lambda>rest.
       ret (if code = 0 \<and> (case volume_created e out of None \<Rightarrow> False | Some t \<Rightarrow> max_age_hours \<le> (now - t) / 3600)
            then v # rest else rest)))"

definition prune_volumes :: "'w DockerEnv \<Rightarrow> rat \<Rightarrow> rat \<Rightarrow> ('w, unit) dc" where
  "prune_volumes e now max_age_hours =
     andThen (docker_capture e [''volume'', ''ls'', ''--filter'', ''dangling=true'', ''-q'']) (\<lambda>(out, _).
     andThen (select_volumes e now max_age_hours (filter (\<lambda>v. v \<noteq> []) (lines_of out))) (\<lambda>vols.
       run_parallel (\<lambda>v. andThen (docker_capture e [''volume'', ''rm'', v]) (\<lambda>_. ret ())) vols))"

end

