(* ===== verification/Store.thy ===== *)
theory Store
  imports Protocols PyJson Dialect
begin

text \<open>
  \<open>orchestrator/rorch/store.py\<close>: the durable state. The tables are values; a statement of the
  code is the change it makes to them. The connection sees \<open>live\<close>, what is committed is
  \<open>durable\<close>; a statement that raises leaves earlier statements of the same transaction in
  \<open>live\<close>, as the code never rolls back, and a reconnection starts again from \<open>durable\<close>. The
  engine (whether a statement, a commit or a connection succeeds) and the clocks are
  \<open>StoreEnv\<close>. Text is compared exactly, as SQLite does, and column widths are not enforced;
  the lock runs one method at a time, and so does the model.
\<close>

section \<open>Tables\<close>

text \<open>A table with generated ids: \<open>AUTOINCREMENT\<close> never hands out an id again.\<close>

record 'r Numbered =
  rows :: "(nat \<times> 'r) list"
  last_id :: nat

definition no_rows :: "'r Numbered" where
  "no_rows = \<lparr>rows = [], last_id = 0\<rparr>"

definition insert_row :: "'r \<Rightarrow> 'r Numbered \<Rightarrow> 'r Numbered" where
  "insert_row r t = t\<lparr>rows := rows t @ [(Suc (last_id t), r)], last_id := Suc (last_id t)\<rparr>"

definition delete_rows :: "('r \<Rightarrow> bool) \<Rightarrow> 'r Numbered \<Rightarrow> 'r Numbered" where
  "delete_rows P t = t\<lparr>rows := filter (\<lambda>(_, r). \<not> P r) (rows t)\<rparr>"

text \<open>\<open>ORDER BY id DESC LIMIT n\<close>; a negative limit is none, as in SQLite.\<close>

definition limit_rows :: "int \<Rightarrow> 'a list \<Rightarrow> 'a list" where
  "limit_rows n xs = (if n < 0 then xs else take (nat n) xs)"

definition newest :: "int \<Rightarrow> 'r Numbered \<Rightarrow> 'r list" where
  "newest n t = map snd (limit_rows n (rev (sort_key fst (rows t))))"

record TickRow =
  tr_ts :: rat
  tr_tick :: TickSnapshot

record EventRow =
  ev_ts :: rat
  ev_pool :: string
  ev_container :: string
  ev_event :: string
  ev_reason :: string

record OverrideRow =
  ov_data :: string
  ov_origin :: string
  ov_disabled :: int
  ov_updated_at :: rat

record StatusRow =
  rs_pool :: string
  rs_status :: string
  rs_busy :: int
  rs_updated_at :: rat

record JobRow =
  jr_pool :: string
  jr_repo :: string
  jr_workflow :: string
  jr_job_name :: string
  jr_runner :: string
  jr_status :: string
  jr_conclusion :: string
  jr_url :: string
  jr_started_at :: string
  jr_ts :: rat
  jr_ended_ts :: "rat option"

record AuditRow =
  au_ts :: rat
  au_actor :: string
  au_action :: string
  au_target :: string
  au_detail :: string

record Tables =
  tick_snapshots :: "TickRow Numbered"
  runner_events :: "EventRow Numbered"
  t_pool_overrides :: "(string, OverrideRow) dict"
  t_global_overrides :: "(string, string \<times> rat) dict"
  t_pool_state :: "(string, int \<times> int) dict"
  protected :: "(string, rat) dict"
  t_runner_status :: "(string, StatusRow) dict"
  runner_jobs :: "(int, JobRow) dict"
  idempotency :: "(string, string \<times> rat) dict"
  audit_log :: "AuditRow Numbered"

definition empty_tables :: Tables where
  "empty_tables =
     \<lparr>tick_snapshots = no_rows, runner_events = no_rows, t_pool_overrides = [], t_global_overrides = [],
      t_pool_state = [], protected = [], t_runner_status = [], runner_jobs = [], idempotency = [], audit_log = no_rows\<rparr>"

section \<open>The connection\<close>

record 'w StoreEnv =
  time_op :: "('w, rat) eff"
  store_mono_op :: "('w, rat) eff"
  store_sleep_op :: "rat \<Rightarrow> ('w, unit) eff"
  statement_op :: "('w, unit) eff"
  commit_op :: "('w, unit) eff"
  connect_op :: "Dsn \<Rightarrow> ('w, unit) eff"
  parent_dir_op :: "string \<Rightarrow> ('w, unit) eff"
  contents :: "Dsn \<Rightarrow> 'w \<Rightarrow> Tables"
  float_repr :: "rat \<Rightarrow> string"
  open_fuel :: nat

record 'w Store =
  st_dsn :: Dsn
  live :: Tables
  durable :: Tables
  st_world :: 'w

type_synonym ('w, 'a) db = "('w Store, 'a) eff"

definition on_db :: "('w, 'a) eff \<Rightarrow> ('w, 'a) db" where
  "on_db m s = (case m (st_world s) of (r, w) \<Rightarrow> (r, s\<lparr>st_world := w\<rparr>))"

definition DISCONNECT_CODES :: "int list" where "DISCONNECT_CODES = [2006, 2013, 4031]"

fun args_text :: "py_error \<Rightarrow> string" where
  "args_text (DatabaseError c m) = m"
| "args_text (ValueError m) = m"
| "args_text (RuntimeError m) = m"
| "args_text (OSError m) = m"
| "args_text _ = []"

fun error_code :: "py_error \<Rightarrow> int option" where
  "error_code (DatabaseError c m) = Some c"
| "error_code _ = None"

definition is_disconnect :: "py_error \<Rightarrow> bool" where
  "is_disconnect err =
     (if (case error_code err of None \<Rightarrow> False | Some c \<Rightarrow> c \<in> set DISCONNECT_CODES) then True
      else contains (args_text err) ''MySQL server has gone away'' \<or> contains (args_text err) ''Lost connection'')"

text \<open>A new connection sees what is committed.\<close>

definition connect :: "'w StoreEnv \<Rightarrow> ('w, unit) db" where
  "connect e =
     andThen (read_state st_dsn) (\<lambda>d.
     andThen (on_db (connect_op e d)) (\<lambda>_. update_state (\<lambda>s. s\<lparr>live := durable s\<rparr>)))"

definition apply_statement :: "(Tables \<Rightarrow> 'a \<times> Tables) \<Rightarrow> ('w, 'a) db" where
  "apply_statement f s = (case f (live s) of (x, t) \<Rightarrow> (Inr x, s\<lparr>live := t\<rparr>))"

definition run_statement :: "'w StoreEnv \<Rightarrow> (Tables \<Rightarrow> 'a \<times> Tables) \<Rightarrow> ('w, 'a) db" where
  "run_statement e f = andThen (on_db (statement_op e)) (\<lambda>_. apply_statement f)"

definition execute :: "'w StoreEnv \<Rightarrow> (Tables \<Rightarrow> 'a \<times> Tables) \<Rightarrow> ('w, 'a) db" where
  "execute e f =
     catch (run_statement e f) (\<lambda>err.
       andThen (read_state st_dsn) (\<lambda>d.
         if \<not> is_mariadb d \<or> \<not> is_disconnect err then raise_error err
         else andThen (connect e) (\<lambda>_. run_statement e f)))"

definition commit :: "'w StoreEnv \<Rightarrow> ('w, unit) db" where
  "commit e = andThen (on_db (commit_op e)) (\<lambda>_. update_state (\<lambda>s. s\<lparr>durable := live s\<rparr>))"

definition change :: "(Tables \<Rightarrow> Tables) \<Rightarrow> Tables \<Rightarrow> unit \<times> Tables" where
  "change f t = ((), f t)"

definition store_write :: "'w StoreEnv \<Rightarrow> (Tables \<Rightarrow> Tables) \<Rightarrow> ('w, unit) db" where
  "store_write e f = andThen (execute e (change f)) (\<lambda>_. commit e)"

definition store_read :: "'w StoreEnv \<Rightarrow> (Tables \<Rightarrow> 'a) \<Rightarrow> ('w, 'a) db" where
  "store_read e q = execute e (\<lambda>t. (q t, t))"

definition store_now :: "'w StoreEnv \<Rightarrow> ('w, rat) db" where
  "store_now e = on_db (time_op e)"

section \<open>History\<close>

definition store_record_tick :: "'w StoreEnv \<Rightarrow> TickSnapshot \<Rightarrow> ('w, unit) db" where
  "store_record_tick e tick =
     andThen (store_now e) (\<lambda>now.
       store_write e (\<lambda>t. t\<lparr>tick_snapshots := insert_row \<lparr>tr_ts = now, tr_tick = tick\<rparr> (tick_snapshots t)\<rparr>))"

definition store_record_event :: "'w StoreEnv \<Rightarrow> string \<Rightarrow> string \<Rightarrow> string \<Rightarrow> string \<Rightarrow> ('w, unit) db" where
  "store_record_event e event container pool reason =
     andThen (store_now e) (\<lambda>now.
       store_write e (\<lambda>t. t\<lparr>runner_events := insert_row
         \<lparr>ev_ts = now, ev_pool = pool, ev_container = container, ev_event = event, ev_reason = reason\<rparr> (runner_events t)\<rparr>))"

definition recent_events :: "'w StoreEnv \<Rightarrow> int \<Rightarrow> ('w, EventRow list) db" where
  "recent_events e n = store_read e (\<lambda>t. newest n (runner_events t))"

text \<open>The rows whose id is the largest of their pool, as a dict by pool.\<close>

definition latest_rows :: "(nat \<times> TickRow) list \<Rightarrow> (nat \<times> TickRow) list" where
  "latest_rows rs =
     filter (\<lambda>(i, r). list_all (\<lambda>(j, q). ts_pool (tr_tick q) = ts_pool (tr_tick r) \<longrightarrow> j \<le> i) rs) rs"

definition latest_snapshots :: "'w StoreEnv \<Rightarrow> ('w, (string, TickRow) dict) db" where
  "latest_snapshots e =
     andThen (store_read e (\<lambda>t. latest_rows (rows (tick_snapshots t)))) (\<lambda>rs.
       ret (fold (\<lambda>(_, r). dict_set (ts_pool (tr_tick r)) r) rs []))"

definition snapshots_since :: "'w StoreEnv \<Rightarrow> rat \<Rightarrow> ('w, TickRow list) db" where
  "snapshots_since e hours =
     andThen (store_now e) (\<lambda>now. let cutoff = now - hours * 3600 in
       store_read e (\<lambda>t. sort_key tr_ts (filter (\<lambda>r. cutoff \<le> tr_ts r) (map snd (rows (tick_snapshots t))))))"

definition count_by :: "('r \<Rightarrow> 'k) \<Rightarrow> 'r list \<Rightarrow> ('k, int) dict" where
  "count_by f rs = fold (\<lambda>r d. dict_set (f r) (dict_get d (f r) 0 + 1) d) rs []"

definition event_counts_since :: "'w StoreEnv \<Rightarrow> rat \<Rightarrow> ('w, (string, int) dict) db" where
  "event_counts_since e hours =
     andThen (store_now e) (\<lambda>now. let cutoff = now - hours * 3600 in
       store_read e (\<lambda>t. count_by ev_event (filter (\<lambda>r. cutoff \<le> ev_ts r) (map snd (rows (runner_events t))))))"

text \<open>One \<open>DELETE\<close> of \<open>prune\<close>, with the number of rows it removed.\<close>

definition deleting :: "(Tables \<Rightarrow> 'r Numbered) \<Rightarrow> ('r Numbered \<Rightarrow> Tables \<Rightarrow> Tables) \<Rightarrow> ('r \<Rightarrow> bool) \<Rightarrow> Tables \<Rightarrow> int \<times> Tables" where
  "deleting get put P t =
     (let kept = delete_rows P (get t) in (int (length (rows (get t))) - int (length (rows kept)), put kept t))"

definition store_prune :: "'w StoreEnv \<Rightarrow> int \<Rightarrow> ('w, int) db" where
  "store_prune e days =
     (if days \<le> 0 then ret 0
      else andThen (store_now e) (\<lambda>now. let cutoff = now - of_int days * 86400 in
        andThen (execute e (deleting tick_snapshots (\<lambda>x t. t\<lparr>tick_snapshots := x\<rparr>) (\<lambda>r. tr_ts r < cutoff))) (\<lambda>a.
        andThen (execute e (deleting runner_events (\<lambda>x t. t\<lparr>runner_events := x\<rparr>) (\<lambda>r. ev_ts r < cutoff))) (\<lambda>b.
        andThen (execute e (deleting audit_log (\<lambda>x t. t\<lparr>audit_log := x\<rparr>) (\<lambda>r. au_ts r < cutoff))) (\<lambda>c.
        andThen (commit e) (\<lambda>_. ret (a + b + c)))))))"

section \<open>Overrides\<close>

record PoolOverride =
  po_data :: pyval
  po_origin :: string
  po_disabled :: bool

definition read_override :: "string \<times> OverrideRow \<Rightarrow> (string \<times> PoolOverride) option" where
  "read_override kr =
     (case loads (ov_data (snd kr)) of
        Inl _ \<Rightarrow> None
      | Inr v \<Rightarrow> Some (fst kr, \<lparr>po_data = v, po_origin = ov_origin (snd kr), po_disabled = ov_disabled (snd kr) \<noteq> 0\<rparr>))"

definition pool_overrides :: "'w StoreEnv \<Rightarrow> ('w, (string, PoolOverride) dict) db" where
  "pool_overrides e =
     andThen (store_read e t_pool_overrides) (\<lambda>rs.
       ret (fold (\<lambda>(k, v). dict_set k v) (List.map_filter read_override rs) []))"

definition bool_int :: "bool \<Rightarrow> int" where
  "bool_int b = (if b then 1 else 0)"

definition set_pool_override :: "'w StoreEnv \<Rightarrow> string \<Rightarrow> pyval \<Rightarrow> string \<Rightarrow> bool \<Rightarrow> ('w, unit) db" where
  "set_pool_override e pool data origin disabled =
     andThen (store_now e) (\<lambda>now.
       store_write e (\<lambda>t. t\<lparr>t_pool_overrides := dict_set pool
         \<lparr>ov_data = dumps (float_repr e) data, ov_origin = origin, ov_disabled = bool_int disabled, ov_updated_at = now\<rparr>
         (t_pool_overrides t)\<rparr>))"

definition delete_pool_override :: "'w StoreEnv \<Rightarrow> string \<Rightarrow> ('w, unit) db" where
  "delete_pool_override e pool = store_write e (\<lambda>t. t\<lparr>t_pool_overrides := dict_del pool (t_pool_overrides t)\<rparr>)"

definition global_overrides :: "'w StoreEnv \<Rightarrow> ('w, (string, string) dict) db" where
  "global_overrides e = store_read e (\<lambda>t. map (\<lambda>(k, v, _). (k, v)) (t_global_overrides t))"

definition set_global :: "'w StoreEnv \<Rightarrow> string \<Rightarrow> string \<Rightarrow> ('w, unit) db" where
  "set_global e key v =
     andThen (store_now e) (\<lambda>now. store_write e (\<lambda>t. t\<lparr>t_global_overrides := dict_set key (v, now) (t_global_overrides t)\<rparr>))"

definition delete_global :: "'w StoreEnv \<Rightarrow> string \<Rightarrow> ('w, unit) db" where
  "delete_global e key = store_write e (\<lambda>t. t\<lparr>t_global_overrides := dict_del key (t_global_overrides t)\<rparr>)"

section \<open>Control state\<close>

definition pool_states :: "'w StoreEnv \<Rightarrow> ('w, (string, PoolState) dict) db" where
  "pool_states e =
     store_read e (\<lambda>t. map (\<lambda>(k, a, b). (k, \<lparr>st_paused = a \<noteq> 0, st_draining = b \<noteq> 0\<rparr>)) (t_pool_state t))"

definition set_pool_state :: "'w StoreEnv \<Rightarrow> string \<Rightarrow> bool \<Rightarrow> bool \<Rightarrow> ('w, unit) db" where
  "set_pool_state e pool paused draining =
     store_write e (\<lambda>t. t\<lparr>t_pool_state := dict_set pool (bool_int paused, bool_int draining) (t_pool_state t)\<rparr>)"

definition protected_containers :: "'w StoreEnv \<Rightarrow> ('w, string set) db" where
  "protected_containers e = store_read e (\<lambda>t. set (map fst (protected t)))"

definition set_protected :: "'w StoreEnv \<Rightarrow> string \<Rightarrow> bool \<Rightarrow> ('w, unit) db" where
  "set_protected e container on =
     (if on
      then andThen (store_now e) (\<lambda>now. store_write e (\<lambda>t. t\<lparr>protected := dict_set container now (protected t)\<rparr>))
      else store_write e (\<lambda>t. t\<lparr>protected := dict_del container (protected t)\<rparr>))"

section \<open>Runner status\<close>

definition status_row :: "string \<Rightarrow> rat \<Rightarrow> string \<times> bool \<Rightarrow> StatusRow" where
  "status_row pool now sb =
     \<lparr>rs_pool = pool, rs_status = fst sb, rs_busy = bool_int (snd sb), rs_updated_at = now\<rparr>"

definition put_status :: "string \<Rightarrow> rat \<Rightarrow> string \<times> string \<times> bool \<Rightarrow> Tables \<Rightarrow> Tables" where
  "put_status pool now r t = t\<lparr>t_runner_status := dict_set (fst r) (status_row pool now (snd r)) (t_runner_status t)\<rparr>"

definition drop_status :: "string \<Rightarrow> Tables \<Rightarrow> Tables" where
  "drop_status pool t = t\<lparr>t_runner_status := filter (\<lambda>(_, r). rs_pool r \<noteq> pool) (t_runner_status t)\<rparr>"

definition replace_runner_status :: "'w StoreEnv \<Rightarrow> string \<Rightarrow> (string \<times> string \<times> bool) list \<Rightarrow> ('w, unit) db" where
  "replace_runner_status e pool rs =
     andThen (store_now e) (\<lambda>now.
     andThen (execute e (change (drop_status pool))) (\<lambda>_.
     andThen (each (\<lambda>r. execute e (change (put_status pool now r))) rs) (\<lambda>_. commit e)))"

record StatusView =
  sv_pool :: string
  sv_status :: string
  sv_busy :: bool

definition runner_status_view :: "'w StoreEnv \<Rightarrow> ('w, (string, StatusView) dict) db" where
  "runner_status_view e =
     store_read e (\<lambda>t. map (\<lambda>(k, r). (k, \<lparr>sv_pool = rs_pool r, sv_status = rs_status r, sv_busy = rs_busy r \<noteq> 0\<rparr>))
       (t_runner_status t))"

section \<open>Jobs\<close>

record JobReport =
  rep_id :: int
  rep_repo :: string
  rep_workflow :: string
  rep_job_name :: string
  rep_runner :: string
  rep_conclusion :: string
  rep_url :: string

definition report_of :: "JobInfo \<Rightarrow> JobReport" where
  "report_of j =
     \<lparr>rep_id = job_id j, rep_repo = job_repo j, rep_workflow = job_workflow j, rep_job_name = job_name j,
      rep_runner = job_runner j, rep_conclusion = job_conclusion j, rep_url = job_url j\<rparr>"

definition row_report :: "int \<Rightarrow> JobRow \<Rightarrow> JobReport" where
  "row_report i r =
     \<lparr>rep_id = i, rep_repo = jr_repo r, rep_workflow = jr_workflow r, rep_job_name = jr_job_name r,
      rep_runner = jr_runner r, rep_conclusion = jr_conclusion r, rep_url = jr_url r\<rparr>"

definition completed :: "JobInfo \<Rightarrow> bool" where
  "completed j = (job_status j = ''completed'')"

definition ended_at :: "rat \<Rightarrow> JobInfo \<Rightarrow> rat option" where
  "ended_at now j = (if completed j then Some now else None)"

definition new_job_row :: "string \<Rightarrow> rat \<Rightarrow> JobInfo \<Rightarrow> JobRow" where
  "new_job_row pool now j =
     \<lparr>jr_pool = pool, jr_repo = job_repo j, jr_workflow = job_workflow j, jr_job_name = job_name j,
      jr_runner = job_runner j, jr_status = job_status j, jr_conclusion = job_conclusion j, jr_url = job_url j,
      jr_started_at = job_started_at j, jr_ts = now, jr_ended_ts = ended_at now j\<rparr>"

text \<open>The upsert: an existing row takes status, conclusion and runner, and keeps the time it ended.\<close>

definition merge_job :: "rat \<Rightarrow> JobInfo \<Rightarrow> JobRow \<Rightarrow> JobRow" where
  "merge_job now j r =
     r\<lparr>jr_status := job_status j, jr_conclusion := job_conclusion j, jr_runner := job_runner j,
       jr_ended_ts := (case jr_ended_ts r of None \<Rightarrow> ended_at now j | Some t \<Rightarrow> Some t)\<rparr>"

definition upsert_job :: "string \<Rightarrow> rat \<Rightarrow> JobInfo \<Rightarrow> Tables \<Rightarrow> Tables" where
  "upsert_job pool now j t =
     t\<lparr>runner_jobs := dict_set (job_id j)
         (case map_of (runner_jobs t) (job_id j) of None \<Rightarrow> new_job_row pool now j | Some r \<Rightarrow> merge_job now j r)
         (runner_jobs t)\<rparr>"

definition close_job :: "rat \<Rightarrow> int \<Rightarrow> Tables \<Rightarrow> Tables" where
  "close_job now i t =
     (case map_of (runner_jobs t) i of
        None \<Rightarrow> t
      | Some r \<Rightarrow>
          t\<lparr>runner_jobs := dict_set i
             (r\<lparr>jr_status := ''completed'', jr_conclusion := (if jr_conclusion r = [] then ''unobserved'' else jr_conclusion r),
                jr_ended_ts := Some now\<rparr>) (runner_jobs t)\<rparr>)"

definition known_jobs :: "string \<Rightarrow> Tables \<Rightarrow> (int, rat option) dict" where
  "known_jobs pool t = map (\<lambda>(i, r). (i, jr_ended_ts r)) (filter (\<lambda>(_, r). jr_pool r = pool) (runner_jobs t))"

definition started_jobs :: "(int, rat option) dict \<Rightarrow> JobInfo list \<Rightarrow> JobReport list" where
  "started_jobs known jobs = map report_of (filter (\<lambda>j. map_of known (job_id j) = None) jobs)"

definition finished_jobs :: "(int, rat option) dict \<Rightarrow> JobInfo list \<Rightarrow> JobReport list" where
  "finished_jobs known jobs =
     map report_of (filter (\<lambda>j. completed j \<and> map_of known (job_id j) = Some None) jobs)"

definition left_behind :: "(int, rat option) dict \<Rightarrow> JobInfo list \<Rightarrow> int list" where
  "left_behind known jobs =
     map fst (filter (\<lambda>(i, ended). i \<notin> set (map job_id jobs) \<and> ended = None) known)"

definition close_out :: "'w StoreEnv \<Rightarrow> rat \<Rightarrow> int \<Rightarrow> ('w, JobReport option) db" where
  "close_out e now i =
     andThen (execute e (change (close_job now i))) (\<lambda>_.
       store_read e (\<lambda>t. map_option (row_report i) (map_of (runner_jobs t) i)))"

definition sync_jobs :: "'w StoreEnv \<Rightarrow> string \<Rightarrow> JobInfo list \<Rightarrow> ('w, JobReport list \<times> JobReport list) db" where
  "sync_jobs e pool jobs =
     andThen (store_now e) (\<lambda>now.
     andThen (store_read e (known_jobs pool)) (\<lambda>known.
     andThen (each (\<lambda>j. execute e (change (upsert_job pool now j))) jobs) (\<lambda>_.
     andThen (collect (close_out e now) (left_behind known jobs)) (\<lambda>closed.
     andThen (commit e) (\<lambda>_.
       ret (started_jobs known jobs, finished_jobs known jobs @ List.map_filter (\<lambda>x. x) closed))))))"

definition recent_jobs :: "'w StoreEnv \<Rightarrow> int \<Rightarrow> ('w, (int \<times> JobRow) list) db" where
  "recent_jobs e n =
     store_read e (\<lambda>t. limit_rows n (sort_key (\<lambda>(i, r). (- jr_ts r, - i)) (runner_jobs t)))"

definition jobs_by_runner :: "'w StoreEnv \<Rightarrow> ('w, (string, JobReport) dict) db" where
  "jobs_by_runner e =
     andThen (store_read e (\<lambda>t. filter (\<lambda>(_, r). jr_ended_ts r = None \<and> jr_runner r \<noteq> [] \<and> jr_status r = ''in_progress'')
       (runner_jobs t))) (\<lambda>rs. ret (fold (\<lambda>(i, r). dict_set (jr_runner r) (row_report i r)) rs []))"

section \<open>Idempotency and audit\<close>

definition idempotent_response :: "'w StoreEnv \<Rightarrow> string \<Rightarrow> ('w, string option) db" where
  "idempotent_response e key = store_read e (\<lambda>t. map_option fst (map_of (idempotency t) key))"

definition remember_response :: "'w StoreEnv \<Rightarrow> string \<Rightarrow> string \<Rightarrow> ('w, unit) db" where
  "remember_response e key response =
     andThen (store_now e) (\<lambda>now. store_write e (\<lambda>t. t\<lparr>idempotency := dict_set key (response, now) (idempotency t)\<rparr>))"

definition prune_idempotency :: "'w StoreEnv \<Rightarrow> rat \<Rightarrow> ('w, unit) db" where
  "prune_idempotency e hours =
     andThen (store_now e) (\<lambda>now.
       store_write e (\<lambda>t. t\<lparr>idempotency := filter (\<lambda>(_, _, ts). \<not> ts < now - hours * 3600) (idempotency t)\<rparr>))"

definition store_audit :: "'w StoreEnv \<Rightarrow> string \<Rightarrow> string \<Rightarrow> string \<Rightarrow> string \<Rightarrow> ('w, unit) db" where
  "store_audit e actor action target detail =
     andThen (store_now e) (\<lambda>now.
       store_write e (\<lambda>t. t\<lparr>audit_log := insert_row
         \<lparr>au_ts = now, au_actor = actor, au_action = action, au_target = target, au_detail = detail\<rparr> (audit_log t)\<rparr>))"

definition recent_audit :: "'w StoreEnv \<Rightarrow> int \<Rightarrow> ('w, AuditRow list) db" where
  "recent_audit e n = store_read e (\<lambda>t. newest n (audit_log t))"

section \<open>Opening\<close>

text \<open>\<open>Store(url)\<close>: connect, run the schema, commit. Every table is \<open>IF NOT EXISTS\<close>.\<close>

definition new_store :: "'w StoreEnv \<Rightarrow> string \<Rightarrow> ('w, 'w Store) eff" where
  "new_store e url w =
     (case parse_dsn url of
        Inl err \<Rightarrow> (Inl err, w)
      | Inr d \<Rightarrow>
          (case andThen (connect e) (\<lambda>_. andThen (each (\<lambda>_. execute e (change (\<lambda>t. t))) (schema d)) (\<lambda>_. commit e))
                  \<lparr>st_dsn = d, live = contents e d w, durable = contents e d w, st_world = w\<rparr> of
             (Inl err, s) \<Rightarrow> (Inl err, st_world s)
           | (Inr _, s) \<Rightarrow> (Inr s, st_world s)))"

text \<open>The retry loop; a clock that stands still keeps it going, so the model bounds the attempts.\<close>

fun open_loop :: "'w StoreEnv \<Rightarrow> string \<Rightarrow> rat \<Rightarrow> nat \<Rightarrow> ('w, 'w Store) eff" where
  "open_loop e url deadline 0 = raise_error (RuntimeError ''attempt limit of the model'')"
| "open_loop e url deadline (Suc n) =
     catch (new_store e url) (\<lambda>err.
       andThen (store_mono_op e) (\<lambda>now.
         if deadline \<le> now then raise_error err
         else andThen (store_sleep_op e 2) (\<lambda>_. open_loop e url deadline n)))"

definition try_open :: "'w StoreEnv \<Rightarrow> string \<Rightarrow> rat \<Rightarrow> ('w, 'w Store) eff" where
  "try_open e url wait =
     (case parse_dsn url of
        Inl err \<Rightarrow> raise_error err
      | Inr d \<Rightarrow>
          andThen (if is_mariadb d then ret () else parent_dir_op e (dsn_path d)) (\<lambda>_.
          andThen (store_mono_op e) (\<lambda>now.
            open_loop e url (now + (if is_mariadb d then wait else 0)) (open_fuel e))))"

definition open_store :: "'w StoreEnv \<Rightarrow> string \<Rightarrow> rat \<Rightarrow> ('w, 'w Store option) eff" where
  "open_store e url wait =
     catch (andThen (try_open e url wait) (\<lambda>s. ret (Some s))) (\<lambda>_. ret None)"

text \<open>What the target is called in the log when the store cannot be opened.\<close>

definition logged_target :: "string \<Rightarrow> string" where
  "logged_target url = (case parse_dsn url of Inl _ \<Rightarrow> ''<unparseable RORCH_DB_URL>'' | Inr d \<Rightarrow> describe d)"

end
