(* ===== verification/Resolver.thy ===== *)
theory Resolver
  imports Store
begin

text \<open>
  \<open>orchestrator/rorch/resolver.py\<close>: the effective configuration, which is \<open>config.yml\<close> with
  the overrides of the store laid over it. Override data is any JSON value; \<open>coerce_value\<close>
  gives it the type the field has, and raises what \<open>int\<close> or \<open>float\<close> raise. \<open>set_field\<close> is
  one keyword of \<open>replace(base, **clean)\<close> or \<open>PoolConfig(name=..., pat=..., **fields)\<close>: it
  raises \<open>TypeError\<close> for a keyword the class does not have. \<open>include_public_repos\<close> is only
  ever used for its truth value, so a string given for it is stored as whether it is non-empty.
  The environment and the text \<open>str\<close> gives for a float or a container are fields of
  \<open>Resolver\<close>. Log lines are left out.
\<close>

section \<open>Fields\<close>

definition TUNABLE_FIELDS :: "string list" where
  "TUNABLE_FIELDS =
     [''max_runners'', ''min_idle'', ''runner_labels'', ''runner_image'', ''memory_limit'', ''cpu_limit'', ''work_tmpfs_size'',
      ''repo_discovery_ttl'', ''github_poll_interval'', ''queued_min_age'', ''stuck_timeout'', ''repo_check_workers'',
      ''runner_operation_workers'', ''network_mode'', ''exclude_repos'']"

definition IDENTITY_FIELDS :: "string list" where
  "IDENTITY_FIELDS = [''name'', ''owner'', ''repo'', ''scope'']"

definition GLOBAL_KEYS :: "string list" where
  "GLOBAL_KEYS = [''max_total_runners'', ''max_runner_lifetime'', ''paused'']"

definition NUMERIC_INT :: "string list" where
  "NUMERIC_INT =
     [''max_runners'', ''min_idle'', ''repo_discovery_ttl'', ''github_poll_interval'', ''queued_min_age'', ''stuck_timeout'',
      ''repo_check_workers'', ''runner_operation_workers'']"

type_synonym fields = "(string \<times> pyval) list"

definition coerce_value :: "(pyval \<Rightarrow> string) \<Rightarrow> string \<Rightarrow> pyval \<Rightarrow> pyval result" where
  "coerce_value rp key v =
     (if key \<in> set NUMERIC_INT then bind_result (py_int_of v) (\<lambda>n. Inr (PInt n))
      else if key = ''cpu_limit'' then bind_result (py_float_of v) (\<lambda>f. Inr (PFloat f))
      else if key = ''network_mode'' \<or> key = ''scope'' then Inr (PStr (lower (py_str_of rp v)))
      else Inr (PStr (py_str_of rp v)))"

definition coerce_pool_fields :: "(pyval \<Rightarrow> string) \<Rightarrow> fields \<Rightarrow> fields result" where
  "coerce_pool_fields rp = map_result (\<lambda>(k, v). bind_result (coerce_value rp k v) (\<lambda>w. Inr (k, w)))"

text \<open>\<open>data.items()\<close>: only a dict has them.\<close>

definition as_items :: "pyval \<Rightarrow> fields result" where
  "as_items v = (case v of PDict d \<Rightarrow> Inr d | _ \<Rightarrow> Inl (AttributeError ''no attribute items''))"

definition unknown_fields :: "fields \<Rightarrow> bool \<Rightarrow> string list" where
  "unknown_fields data allow_identity =
     (let allowed = TUNABLE_FIELDS @ (if allow_identity then IDENTITY_FIELDS @ [''pat_env''] else [])
      in sort (filter (\<lambda>k. k \<notin> set allowed) (map fst data)))"

section \<open>Pools from keywords\<close>

definition int_fields :: "(string \<times> (int \<Rightarrow> PoolConfig \<Rightarrow> PoolConfig)) list" where
  "int_fields =
     [(''max_runners'', \<lambda>n p. p\<lparr>max_runners := n\<rparr>), (''min_idle'', \<lambda>n p. p\<lparr>min_idle := n\<rparr>),
      (''repo_discovery_ttl'', \<lambda>n p. p\<lparr>repo_discovery_ttl := n\<rparr>), (''github_poll_interval'', \<lambda>n p. p\<lparr>github_poll_interval := n\<rparr>),
      (''queued_min_age'', \<lambda>n p. p\<lparr>queued_min_age := n\<rparr>), (''stuck_timeout'', \<lambda>n p. p\<lparr>stuck_timeout := n\<rparr>),
      (''repo_check_workers'', \<lambda>n p. p\<lparr>repo_check_workers := n\<rparr>),
      (''runner_operation_workers'', \<lambda>n p. p\<lparr>runner_operation_workers := n\<rparr>)]"

definition str_fields :: "(string \<times> (string \<Rightarrow> PoolConfig \<Rightarrow> PoolConfig)) list" where
  "str_fields =
     [(''runner_labels'', \<lambda>s p. p\<lparr>runner_labels := s\<rparr>), (''runner_image'', \<lambda>s p. p\<lparr>runner_image := s\<rparr>),
      (''memory_limit'', \<lambda>s p. p\<lparr>memory_limit := s\<rparr>), (''work_tmpfs_size'', \<lambda>s p. p\<lparr>work_tmpfs_size := s\<rparr>),
      (''network_mode'', \<lambda>s p. p\<lparr>network_mode := s\<rparr>), (''exclude_repos'', \<lambda>s p. p\<lparr>exclude_repos := s\<rparr>),
      (''owner'', \<lambda>s p. p\<lparr>pool_owner := s\<rparr>), (''repo'', \<lambda>s p. p\<lparr>pool_repo := s\<rparr>), (''scope'', \<lambda>s p. p\<lparr>pool_scope := s\<rparr>),
      (''instance'', \<lambda>s p. p\<lparr>pool_instance := s\<rparr>), (''include_public_repos'', \<lambda>s p. p\<lparr>include_public_repos := (s \<noteq> [])\<rparr>),
      (''job_started_hook'', \<lambda>s p. p\<lparr>job_started_hook := s\<rparr>), (''provider'', \<lambda>s p. p\<lparr>pool_provider := s\<rparr>),
      (''base_url'', \<lambda>s p. p\<lparr>base_url := s\<rparr>)]"

definition set_field :: "string \<times> pyval \<Rightarrow> PoolConfig \<Rightarrow> PoolConfig result" where
  "set_field kv p =
     (case kv of (k, v) \<Rightarrow>
        (case v of
           PInt n \<Rightarrow> (case map_of int_fields k of Some f \<Rightarrow> Inr (f n p) | None \<Rightarrow> Inl (TypeError ''unexpected keyword''))
         | PFloat f \<Rightarrow> if k = ''cpu_limit'' then Inr (p\<lparr>cpu_limit := f\<rparr>) else Inl (TypeError ''unexpected keyword'')
         | PStr s \<Rightarrow> (case map_of str_fields k of Some f \<Rightarrow> Inr (f s p) | None \<Rightarrow> Inl (TypeError ''unexpected keyword''))
         | _ \<Rightarrow> Inl (TypeError ''unexpected keyword'')))"

fun set_fields :: "fields \<Rightarrow> PoolConfig \<Rightarrow> PoolConfig result" where
  "set_fields [] p = Inr p"
| "set_fields (kv # kvs) p = bind_result (set_field kv p) (set_fields kvs)"

definition new_pool_from :: "string \<Rightarrow> string \<Rightarrow> fields \<Rightarrow> PoolConfig result" where
  "new_pool_from name pat fs =
     (if ''owner'' \<notin> set (map fst fs) then Inl (TypeError ''missing argument owner'')
      else set_fields fs (new_pool name pat []))"

section \<open>The resolver\<close>

record Resolver =
  base_pools :: "PoolConfig list"
  base_max_total :: int
  base_max_lifetime :: int
  environ :: environ
  str_rp :: "pyval \<Rightarrow> string"

record EffectiveConfig =
  eff_pools :: "PoolConfig list"
  eff_max_total_runners :: int
  eff_max_runner_lifetime :: int
  eff_paused :: bool
  eff_states :: "(string, PoolState) dict"
  eff_protected :: "string set"

definition state_for :: "EffectiveConfig \<Rightarrow> string \<Rightarrow> PoolState" where
  "state_for c name = dict_get (eff_states c) name default_pool_state"

definition base_config :: "Resolver \<Rightarrow> EffectiveConfig" where
  "base_config r =
     \<lparr>eff_pools = base_pools r, eff_max_total_runners = base_max_total r, eff_max_runner_lifetime = base_max_lifetime r,
      eff_paused = False, eff_states = [], eff_protected = {}\<rparr>"

definition config_int :: "(string, string) dict \<Rightarrow> string \<Rightarrow> int \<Rightarrow> int" where
  "config_int values key fallback =
     (case map_of values key of
        None \<Rightarrow> fallback
      | Some raw \<Rightarrow> (case py_int raw of None \<Rightarrow> fallback | Some n \<Rightarrow> if 0 \<le> n then n else fallback))"

text \<open>\<open>except (TypeError, ValueError)\<close>, where giving up yields \<open>d\<close>.\<close>

definition or_else :: "'a result \<Rightarrow> 'a \<Rightarrow> 'a result" where
  "or_else x d = (case x of Inl (TypeError _) \<Rightarrow> Inr d | Inl (ValueError _) \<Rightarrow> Inr d | _ \<Rightarrow> x)"

definition tunables :: "fields \<Rightarrow> fields" where
  "tunables = filter (\<lambda>(k, v). k \<in> set TUNABLE_FIELDS)"

definition apply_override :: "Resolver \<Rightarrow> PoolConfig \<Rightarrow> pyval \<Rightarrow> PoolConfig result" where
  "apply_override r base data =
     bind_result (bind_result (as_items data) (coerce_pool_fields (str_rp r))) (\<lambda>fs.
       let clean = tunables fs in if clean = [] then Inr base else or_else (set_fields clean base) base)"

definition pat_of :: "Resolver \<Rightarrow> fields \<Rightarrow> string" where
  "pat_of r d = getenv (environ r) (py_str_of (str_rp r) (pget d ''pat_env'' (PStr ''GITHUB_PAT''))) []"

definition build_ui_pool :: "Resolver \<Rightarrow> string \<Rightarrow> pyval \<Rightarrow> PoolConfig option result" where
  "build_ui_pool r name data =
     bind_result (as_items data) (\<lambda>d.
       let pat = pat_of r d
       in if pat = [] then Inr None
          else bind_result (coerce_pool_fields (str_rp r) (filter (\<lambda>(k, v). k \<in> set (TUNABLE_FIELDS @ IDENTITY_FIELDS)) d)) (\<lambda>fs.
               bind_result (or_else (bind_result (new_pool_from name pat (dict_del ''name'' fs)) (\<lambda>p. Inr (Some p))) None) (\<lambda>made.
                 Inr (case made of None \<Rightarrow> None
                      | Some p \<Rightarrow> if validation_errors [p] \<noteq> [] then None else Some p))))"

text \<open>The two loops of \<open>resolve\<close>: the pools of \<open>config.yml\<close>, then the rows left over.\<close>

fun overlay_bases :: "Resolver \<Rightarrow> PoolConfig list \<Rightarrow> (string, PoolOverride) dict \<Rightarrow>
    (PoolConfig list \<times> (string, PoolOverride) dict) result" where
  "overlay_bases r [] ov = Inr ([], ov)"
| "overlay_bases r (b # bs) ov =
     (case map_of ov (pool_name b) of
        None \<Rightarrow> bind_result (overlay_bases r bs ov) (\<lambda>(ps, rest). Inr (b # ps, rest))
      | Some entry \<Rightarrow>
          let ov = dict_del (pool_name b) ov
          in if po_disabled entry then overlay_bases r bs ov
             else bind_result (apply_override r b (po_data entry)) (\<lambda>p.
                  bind_result (overlay_bases r bs ov) (\<lambda>(ps, rest). Inr (p # ps, rest))))"

fun created_pools :: "Resolver \<Rightarrow> (string, PoolOverride) dict \<Rightarrow> PoolConfig list result" where
  "created_pools r [] = Inr []"
| "created_pools r ((name, entry) # rest) =
     (if po_origin entry \<noteq> ''ui'' \<or> po_disabled entry then created_pools r rest
      else bind_result (build_ui_pool r name (po_data entry)) (\<lambda>made.
           bind_result (created_pools r rest) (\<lambda>ps. Inr ((case made of None \<Rightarrow> [] | Some p \<Rightarrow> [p]) @ ps))))"

definition overlay :: "Resolver \<Rightarrow> (string, PoolOverride) dict \<Rightarrow> PoolConfig list result" where
  "overlay r ov =
     bind_result (overlay_bases r (base_pools r) ov) (\<lambda>(ps, rest).
     bind_result (created_pools r rest) (\<lambda>created. Inr (ps @ created)))"

definition resolve_store :: "'w StoreEnv \<Rightarrow> Resolver \<Rightarrow> ('w, EffectiveConfig) db" where
  "resolve_store e r =
     andThen (pool_overrides e) (\<lambda>overrides.
     andThen (global_overrides e) (\<lambda>globals.
     andThen (lift_result (overlay r overrides)) (\<lambda>pools.
     andThen (pool_states e) (\<lambda>states.
     andThen (protected_containers e) (\<lambda>prot.
       ret \<lparr>eff_pools = pools,
            eff_max_total_runners = config_int globals ''max_total_runners'' (base_max_total r),
            eff_max_runner_lifetime = config_int globals ''max_runner_lifetime'' (base_max_lifetime r),
            eff_paused = (dict_get globals ''paused'' ''0'' = ''1''),
            eff_states = states, eff_protected = prot\<rparr>)))))"

definition resolve :: "'w StoreEnv \<Rightarrow> Resolver \<Rightarrow> ('w Store option, EffectiveConfig) eff" where
  "resolve e r so =
     (case so of
        None \<Rightarrow> (Inr (base_config r), None)
      | Some s \<Rightarrow> (case resolve_store e r s of (x, s') \<Rightarrow> (x, Some s')))"

text \<open>\<open>pool_to_dict\<close>: every field but the token, and two derived ones.\<close>

definition pool_to_dict :: "PoolConfig \<Rightarrow> fields" where
  "pool_to_dict p =
     [(''name'', PStr (pool_name p)), (''owner'', PStr (pool_owner p)), (''repo'', PStr (pool_repo p)),
      (''scope'', PStr (pool_scope p)), (''repo_discovery_ttl'', PInt (repo_discovery_ttl p)),
      (''github_poll_interval'', PInt (github_poll_interval p)), (''queued_min_age'', PInt (queued_min_age p)),
      (''instance'', PStr (pool_instance p)), (''stuck_timeout'', PInt (stuck_timeout p)),
      (''repo_check_workers'', PInt (repo_check_workers p)), (''runner_operation_workers'', PInt (runner_operation_workers p)),
      (''max_runners'', PInt (max_runners p)), (''min_idle'', PInt (min_idle p)), (''runner_labels'', PStr (runner_labels p)),
      (''runner_image'', PStr (runner_image p)), (''memory_limit'', PStr (memory_limit p)), (''cpu_limit'', PFloat (cpu_limit p)),
      (''work_tmpfs_size'', PStr (work_tmpfs_size p)), (''network_mode'', PStr (network_mode p)),
      (''include_public_repos'', PBool (include_public_repos p)), (''exclude_repos'', PStr (exclude_repos p)),
      (''job_started_hook'', PStr (job_started_hook p)), (''provider'', PStr (pool_provider p)), (''base_url'', PStr (base_url p)),
      (''display'', PStr (display p)), (''container_prefix'', PStr (container_prefix p))]"

end
