(* ===== verification/Exclusive.thy ===== *)
theory Exclusive
  imports Effect
begin

text \<open>
  The contract two parts of the orchestrator give their callers: a key can be claimed by one
  caller at a time (\<open>TickLanes.submit\<close> for a lane, \<open>InFlightKeys.claim\<close> for an idempotency
  key). What a caller can rely on is proved once, from the laws of the provider.
\<close>

text \<open>
  \<open>held\<close> are the keys that are taken. A release gives back at most the key it names: a lane is
  free only once its job has ended.
\<close>

locale keyed_lock =
  fixes ok :: "'s \<Rightarrow> bool"
    and held :: "'s \<Rightarrow> 'k set"
    and claim :: "'k \<Rightarrow> 's \<Rightarrow> bool \<times> 's"
    and release :: "'k \<Rightarrow> 's \<Rightarrow> 's"
  assumes claim_ok: "ok s \<Longrightarrow> ok (snd (claim k s))"
    and release_ok: "ok s \<Longrightarrow> ok (release k s)"
    and claim_gets: "ok s \<Longrightarrow> fst (claim k s) \<Longrightarrow> k \<notin> held s \<and> held (snd (claim k s)) = insert k (held s)"
    and claim_refused: "ok s \<Longrightarrow> \<not> fst (claim k s) \<Longrightarrow> held (snd (claim k s)) = held s"
    and release_held: "ok s \<Longrightarrow> held s - {k} \<subseteq> held (release k s) \<and> held (release k s) \<subseteq> held s"
begin

text \<open>
  Callers, numbered: each claims a key, works while it has it, and releases it. A caller that
  is refused goes on without. Anything may happen in between that leaves the keys alone.
\<close>

inductive caller_step :: "'s \<times> (nat \<Rightarrow> 'k option) \<Rightarrow> 's \<times> (nat \<Rightarrow> 'k option) \<Rightarrow> bool" where
  enters: "fst (claim k s) \<Longrightarrow> own c = None \<Longrightarrow> caller_step (s, own) (snd (claim k s), own(c := Some k))"
| refused: "\<not> fst (claim k s) \<Longrightarrow> caller_step (s, own) (snd (claim k s), own)"
| leaves: "own c = Some k \<Longrightarrow> caller_step (s, own) (release k s, own(c := None))"
| elsewhere: "ok s' \<Longrightarrow> held s' = held s \<Longrightarrow> caller_step (s, own) (s', own)"

definition exclusive :: "'s \<times> (nat \<Rightarrow> 'k option) \<Rightarrow> bool" where
  "exclusive = (\<lambda>(s, own). ok s \<and> ran own \<subseteq> held s \<and> (\<forall>c d k. own c = Some k \<longrightarrow> own d = Some k \<longrightarrow> c = d))"

lemma exclusive_init: "ok s \<Longrightarrow> exclusive (s, \<lambda>_. None)"
  by (simp add: exclusive_def)

lemma exclusive_step:
  assumes "caller_step x y" "exclusive x"
  shows "exclusive y"
  using assms(1)
proof (cases rule: caller_step.cases)
  case (enters k s own c)
  then have s: "ok s" "ran own \<subseteq> held s" using assms(2) by (auto simp: exclusive_def)
  with claim_gets [OF s(1) enters(3)] have "k \<notin> ran own" "held (snd (claim k s)) = insert k (held s)" by auto
  then show ?thesis using enters(1-2) s claim_ok [OF s(1), of k] assms(2)
    by (auto simp: exclusive_def ran_def)
next
  case (refused k s own)
  then show ?thesis using assms(2) claim_refused [of s k] claim_ok [of s k] by (auto simp: exclusive_def)
next
  case (leaves own c k s)
  then have s: "ok s" "ran own \<subseteq> held s" "\<forall>c d k. own c = Some k \<longrightarrow> own d = Some k \<longrightarrow> c = d"
    using assms(2) by (auto simp: exclusive_def)
  have "ran (own(c := None)) \<subseteq> held s - {k}" using s(2,3) leaves(3) by (auto simp: ran_def split: if_splits)
  then have "ran (own(c := None)) \<subseteq> held (release k s)" using release_held [OF s(1), of k] by blast
  then show ?thesis using leaves(2) release_ok [OF s(1), of k] s(3) by (auto simp: exclusive_def split: if_splits)
next
  case (elsewhere s' s own)
  then show ?thesis using assms(2) by (simp add: exclusive_def)
qed

lemma exclusive_steps: "caller_step\<^sup>*\<^sup>* x y \<Longrightarrow> exclusive x \<Longrightarrow> exclusive y"
  by (induction rule: rtranclp_induct) (blast intro: exclusive_step)+

lemma exclusive_reach: "caller_step\<^sup>*\<^sup>* (s, \<lambda>_. None) (t, own) \<Longrightarrow> ok s \<Longrightarrow> own c = Some k \<Longrightarrow> own d = Some k \<Longrightarrow> c = d"
proof -
  assume run: "caller_step\<^sup>*\<^sup>* (s, \<lambda>_. None) (t, own)" "ok s" and own: "own c = Some k" "own d = Some k"
  have "exclusive (t, own)" by (rule exclusive_steps [OF run(1) exclusive_init [OF run(2)]])
  with own show "c = d" by (auto simp: exclusive_def)
qed

text \<open>While a caller has a key, every other claim of it is refused.\<close>

lemma taken_refused: "exclusive (s, own) \<Longrightarrow> own c = Some k \<Longrightarrow> \<not> fst (claim k s)"
  using claim_gets [of s k] by (auto simp: exclusive_def ran_def)

end

end
