(* ===== verification/Lanes.thy ===== *)
theory Lanes
  imports Exclusive
begin

text \<open>
  \<open>orchestrator/rorch/lanes.py\<close>: \<open>TickLanes\<close>, the worker pool the main loop hands its
  ticks to. The state is the bookkeeping \<open>_running\<close> (per lane the future of its last job and
  when it was submitted) and the thread pool: the jobs waiting for a worker, in order, and the
  jobs a worker is running. A future is done when its job is neither waiting nor running;
  \<open>_run\<close> swallows what the job raises, so a job that raises ends like any other.

  The methods take the lock for all they do, so each is one step; the workers move in between.
  \<open>lane_step\<close> is that interleaving.
\<close>

section \<open>State\<close>

record Task =
  tk_future :: nat
  tk_lane :: string

record Lanes =
  max_workers :: nat
  stall_after :: rat
  running :: "(string, nat \<times> rat) dict"
  waiting :: "Task list"
  active :: "Task list"
  next_future :: nat
  stopped :: bool

definition STALL_WARNING_SECONDS :: rat where "STALL_WARNING_SECONDS = 600"

definition new_lanes :: "nat \<Rightarrow> Lanes" where
  "new_lanes workers =
     \<lparr>max_workers = workers, stall_after = STALL_WARNING_SECONDS, running = [], waiting = [], active = [],
      next_future = 0, stopped = False\<rparr>"

definition unfinished :: "Lanes \<Rightarrow> Task list" where
  "unfinished s = active s @ waiting s"

definition future_done :: "Lanes \<Rightarrow> nat \<Rightarrow> bool" where
  "future_done s f \<longleftrightarrow> f \<notin> set (map tk_future (unfinished s))"

section \<open>Operations\<close>

text \<open>What \<open>submit\<close> logs for a lane it skips.\<close>

datatype lane_log = Stalled string rat | StillRunning string

record LaneReply =
  started :: bool
  logged :: "lane_log option"

definition lane_busy :: "Lanes \<Rightarrow> string \<Rightarrow> bool" where
  "lane_busy s lane = (case map_of (running s) lane of None \<Rightarrow> False | Some (f, _) \<Rightarrow> \<not> future_done s f)"

text \<open>\<open>self._executor.submit\<close>: a stopped pool raises.\<close>

definition executor_submit :: "string \<Rightarrow> (Lanes, nat) eff" where
  "executor_submit lane s =
     (if stopped s then (Inl (RuntimeError ''cannot schedule new futures after shutdown''), s)
      else (Inr (next_future s),
            s\<lparr>waiting := waiting s @ [\<lparr>tk_future = next_future s, tk_lane = lane\<rparr>], next_future := Suc (next_future s)\<rparr>))"

definition lane_submit :: "rat \<Rightarrow> string \<Rightarrow> (Lanes, LaneReply) eff" where
  "lane_submit now lane =
     andThen (read_state (\<lambda>s. s)) (\<lambda>s.
       if lane_busy s lane
       then let busy_for = now - (case map_of (running s) lane of None \<Rightarrow> 0 | Some (_, since) \<Rightarrow> since)
            in ret \<lparr>started = False,
                 logged = Some (if stall_after s \<le> busy_for then Stalled lane busy_for else StillRunning lane)\<rparr>
       else andThen (executor_submit lane) (\<lambda>future.
            andThen (update_state (\<lambda>s. s\<lparr>running := dict_set lane (future, now) (running s)\<rparr>)) (\<lambda>_.
              ret \<lparr>started = True, logged = None\<rparr>)))"

definition busy_lanes :: "Lanes \<Rightarrow> string list" where
  "busy_lanes s = sort (map fst (filter (\<lambda>(_, f, _). \<not> future_done s f) (running s)))"

definition forget_except :: "string list \<Rightarrow> Lanes \<Rightarrow> Lanes" where
  "forget_except lanes s =
     s\<lparr>running := filter (\<lambda>(lane, f, _). lane \<in> set lanes \<or> \<not> future_done s f) (running s)\<rparr>"

text \<open>\<open>shutdown\<close> stops the pool; the wait is over in a state with nothing unfinished.\<close>

definition lane_shutdown :: "Lanes \<Rightarrow> Lanes" where
  "lane_shutdown s = s\<lparr>stopped := True\<rparr>"

section \<open>The workers\<close>

text \<open>A free worker takes the oldest waiting job; a job on a worker ends.\<close>

definition take_job :: "Lanes \<Rightarrow> Lanes option" where
  "take_job s =
     (case waiting s of
        [] \<Rightarrow> None
      | t # ts \<Rightarrow> if length (active s) < max_workers s then Some (s\<lparr>waiting := ts, active := active s @ [t]\<rparr>) else None)"

definition end_job :: "Task \<Rightarrow> Lanes \<Rightarrow> Lanes option" where
  "end_job t s = (if t \<in> set (active s) then Some (s\<lparr>active := remove1 t (active s)\<rparr>) else None)"

inductive worker_step :: "Lanes \<Rightarrow> Lanes \<Rightarrow> bool" where
  takes: "take_job s = Some s' \<Longrightarrow> worker_step s s'"
| ends: "end_job t s = Some s' \<Longrightarrow> worker_step s s'"

inductive lane_step :: "Lanes \<Rightarrow> Lanes \<Rightarrow> bool" where
  submits: "lane_submit now lane s = (r, s') \<Longrightarrow> lane_step s s'"
| forgets: "lane_step s (forget_except lanes s)"
| stops: "lane_step s (lane_shutdown s)"
| works: "worker_step s s' \<Longrightarrow> lane_step s s'"

inductive lanes_reach :: "nat \<Rightarrow> Lanes \<Rightarrow> bool" for workers where
  init: "lanes_reach workers (new_lanes workers)"
| step: "lanes_reach workers s \<Longrightarrow> lane_step s s' \<Longrightarrow> lanes_reach workers s'"

inductive_cases worker_stepE: "worker_step s s'"
inductive_cases lane_stepE: "lane_step s s'"

text \<open>Any number of steps of the workers alone.\<close>

inductive works_to :: "Lanes \<Rightarrow> nat \<Rightarrow> Lanes \<Rightarrow> bool" where
  none: "works_to s 0 s"
| more: "worker_step s s' \<Longrightarrow> works_to s' n s'' \<Longrightarrow> works_to s (Suc n) s''"

section \<open>The invariant\<close>

text \<open>
  Every unfinished job is the one its lane's entry names, futures are numbered, and no more
  jobs run than there are workers.
\<close>

definition entry_future :: "Lanes \<Rightarrow> string \<Rightarrow> nat option" where
  "entry_future s lane = map_option fst (map_of (running s) lane)"

definition lanes_ok :: "Lanes \<Rightarrow> bool" where
  "lanes_ok s \<longleftrightarrow>
     distinct (map fst (running s)) \<and> inj_on (entry_future s) {l. entry_future s l \<noteq> None} \<and>
     (\<forall>l f. entry_future s l = Some f \<longrightarrow> f < next_future s) \<and>
     distinct (map tk_future (unfinished s)) \<and> length (active s) \<le> max_workers s \<and>
     (\<forall>t\<in>set (unfinished s). entry_future s (tk_lane t) = Some (tk_future t))"

lemma lanes_ok_entry: "lanes_ok s \<Longrightarrow> t \<in> set (unfinished s) \<Longrightarrow> entry_future s (tk_lane t) = Some (tk_future t)"
  by (simp add: lanes_ok_def)

lemma lanes_ok_fresh: "lanes_ok s \<Longrightarrow> t \<in> set (unfinished s) \<Longrightarrow> tk_future t < next_future s"
  by (auto simp: lanes_ok_def)

lemma lanes_ok_inj: "lanes_ok s \<Longrightarrow> entry_future s l = Some f \<Longrightarrow> entry_future s l' = Some f \<Longrightarrow> l = l'"
  by (auto simp: lanes_ok_def inj_on_def)

lemma lanes_ok_one:
  assumes "lanes_ok s"
  shows "distinct (map tk_lane (unfinished s))"
proof -
  have "inj_on tk_lane (set (unfinished s))"
  proof (rule inj_onI)
    fix t u assume t: "t \<in> set (unfinished s)" "u \<in> set (unfinished s)" "tk_lane t = tk_lane u"
    then have "tk_future t = tk_future u" using lanes_ok_entry [OF assms t(1)] lanes_ok_entry [OF assms t(2)] by simp
    with t(3) show "t = u" by simp
  qed
  moreover have "distinct (unfinished s)" using assms by (simp add: lanes_ok_def distinct_map)
  ultimately show ?thesis by (simp add: distinct_map)
qed

lemma lane_busy_entry: "lane_busy s lane \<longleftrightarrow> (\<exists>f. entry_future s lane = Some f \<and> \<not> future_done s f)"
  by (auto simp: lane_busy_def entry_future_def split: option.splits prod.splits)

lemma lane_busy_iff:
  assumes "lanes_ok s"
  shows "lane_busy s lane \<longleftrightarrow> lane \<in> tk_lane ` set (unfinished s)"
proof
  assume "lane_busy s lane"
  then obtain t where t: "entry_future s lane = Some (tk_future t)" "t \<in> set (unfinished s)"
    by (auto simp: lane_busy_entry future_done_def)
  have "lane = tk_lane t" by (rule lanes_ok_inj [OF assms t(1) lanes_ok_entry [OF assms t(2)]])
  with t(2) show "lane \<in> tk_lane ` set (unfinished s)" by simp
next
  assume "lane \<in> tk_lane ` set (unfinished s)"
  then show "lane_busy s lane" using lanes_ok_entry [OF assms]
    by (auto simp: lane_busy_entry future_done_def)
qed

lemma busy_lanes_set: "lanes_ok s \<Longrightarrow> set (busy_lanes s) = tk_lane ` set (unfinished s)"
proof -
  assume ok: "lanes_ok s"
  have d: "distinct (map fst (running s))" using ok by (simp add: lanes_ok_def)
  have "lane_busy s l \<longleftrightarrow> (\<exists>f since. (l, f, since) \<in> set (running s) \<and> \<not> future_done s f)" for l
    by (auto simp: lane_busy_entry entry_future_def map_of_eq_Some_iff [OF d])
  then have "set (busy_lanes s) = {l. lane_busy s l}" by (force simp: busy_lanes_def)
  then show ?thesis using lane_busy_iff [OF ok] by auto
qed

section \<open>Every step keeps it\<close>

lemma lane_submit_skips: "lane_busy s lane \<Longrightarrow> \<exists>r. lane_submit now lane s = (Inr r, s) \<and> \<not> started r"
  by (simp add: lane_submit_def andThen_def read_state_def ret_def Let_def)

lemma lane_submit_starts:
  "\<not> lane_busy s lane \<Longrightarrow> \<not> stopped s \<Longrightarrow> lane_submit now lane s =
     (Inr \<lparr>started = True, logged = None\<rparr>,
      s\<lparr>waiting := waiting s @ [\<lparr>tk_future = next_future s, tk_lane = lane\<rparr>], next_future := Suc (next_future s),
        running := dict_set lane (next_future s, now) (running s)\<rparr>)"
  by (simp add: lane_submit_def andThen_def read_state_def ret_def executor_submit_def update_state_def)

lemma lane_submit_stopped: "\<not> lane_busy s lane \<Longrightarrow> stopped s \<Longrightarrow> \<exists>err. lane_submit now lane s = (Inl err, s)"
  by (simp add: lane_submit_def andThen_def read_state_def executor_submit_def)

lemma submitted_ok:
  assumes ok: "lanes_ok s" and idle: "\<not> lane_busy s lane"
  shows "lanes_ok (s\<lparr>waiting := waiting s @ [\<lparr>tk_future = next_future s, tk_lane = lane\<rparr>], next_future := Suc (next_future s),
        running := dict_set lane (next_future s, now) (running s)\<rparr>)" (is "lanes_ok ?s")
proof -
  have entry: "entry_future ?s = (entry_future s)(lane \<mapsto> next_future s)" by (simp add: entry_future_def fun_eq_iff)
  have un: "unfinished ?s = unfinished s @ [\<lparr>tk_future = next_future s, tk_lane = lane\<rparr>]" by (simp add: unfinished_def)
  have lt: "\<forall>l f. entry_future s l = Some f \<longrightarrow> f < next_future s" using ok by (simp add: lanes_ok_def)
  have "inj_on (entry_future ?s) {l. entry_future ?s l \<noteq> None}"
    using ok lt unfolding lanes_ok_def entry inj_on_def by (auto simp: domIff) force+
  moreover have "tk_lane t \<noteq> lane" if "t \<in> set (unfinished s)" for t
    using idle that lane_busy_iff [OF ok] by auto
  moreover have "next_future s \<notin> tk_future ` set (unfinished s)" using lanes_ok_fresh [OF ok] by fastforce
  ultimately show ?thesis using ok lt unfolding lanes_ok_def entry un
    by (auto simp: distinct_dict_set less_SucI)
qed

lemma lane_submit_ok:
  assumes "lanes_ok s"
  shows "lanes_ok (snd (lane_submit now lane s))"
proof (cases "lane_busy s lane")
  case True
  then show ?thesis using assms lane_submit_skips [of s lane now] by auto
next
  case idle: False
  show ?thesis
  proof (cases "stopped s")
    case True
    then show ?thesis using assms lane_submit_stopped [OF idle, of now] by auto
  next
    case False
    then show ?thesis using submitted_ok [OF assms idle, of now] by (simp add: lane_submit_starts [OF idle])
  qed
qed

lemma map_of_filter_key:
  "distinct (map fst d) \<Longrightarrow> map_of (filter P d) k = (case map_of d k of None \<Rightarrow> None | Some v \<Rightarrow> if P (k, v) then Some v else None)"
  by (induction d) (auto split: option.splits, force+)

lemma forget_entry:
  assumes "lanes_ok s"
  shows "entry_future (forget_except lanes s) l =
     (if l \<in> set lanes \<or> lane_busy s l then entry_future s l else None)"
proof -
  have d: "distinct (map fst (running s))" using assms by (simp add: lanes_ok_def)
  show ?thesis unfolding entry_future_def forget_except_def
    by (auto simp: map_of_filter_key [OF d] lane_busy_def split: option.splits)
qed

lemma forget_except_ok:
  assumes ok: "lanes_ok s"
  shows "lanes_ok (forget_except lanes s)"
proof -
  have fields: "unfinished (forget_except lanes s) = unfinished s" "next_future (forget_except lanes s) = next_future s"
      "active (forget_except lanes s) = active s" "max_workers (forget_except lanes s) = max_workers s"
    by (simp_all add: forget_except_def unfinished_def)
  have busy: "lane_busy s (tk_lane t)" if "t \<in> set (unfinished s)" for t
    using that lane_busy_iff [OF ok] by auto
  have "distinct (map fst (running (forget_except lanes s)))" using ok
    by (simp add: forget_except_def lanes_ok_def distinct_map_filter)
  moreover have "inj_on (entry_future (forget_except lanes s)) {l. entry_future (forget_except lanes s) l \<noteq> None}"
    using lanes_ok_inj [OF ok] unfolding inj_on_def forget_entry [OF ok] by (auto split: if_splits)
  moreover have "entry_future (forget_except lanes s) l = Some f \<longrightarrow> f < next_future s" for l f
    using ok unfolding forget_entry [OF ok] by (auto simp: lanes_ok_def)
  moreover have "entry_future (forget_except lanes s) (tk_lane t) = Some (tk_future t)" if "t \<in> set (unfinished s)" for t
    using busy [OF that] lanes_ok_entry [OF ok that] by (simp add: forget_entry [OF ok])
  ultimately show ?thesis using ok unfolding lanes_ok_def fields by blast
qed

lemma lanes_ok_fewer:
  assumes "lanes_ok s" "running s' = running s" "next_future s' = next_future s" "max_workers s' = max_workers s"
    "length (active s') \<le> max_workers s" "distinct (map tk_future (unfinished s'))" "set (unfinished s') \<subseteq> set (unfinished s)"
  shows "lanes_ok s'"
proof -
  have "entry_future s' = entry_future s" using assms(2) by (simp add: entry_future_def fun_eq_iff)
  with assms show ?thesis unfolding lanes_ok_def by auto
qed

lemma lane_shutdown_ok: "lanes_ok s \<Longrightarrow> lanes_ok (lane_shutdown s)"
  by (rule lanes_ok_fewer [of s]) (auto simp: lane_shutdown_def lanes_ok_def unfinished_def)

lemma take_job_Some:
  "take_job s = Some s' \<longleftrightarrow> (\<exists>t ts. waiting s = t # ts \<and> length (active s) < max_workers s \<and>
     s' = s\<lparr>waiting := ts, active := active s @ [t]\<rparr>)"
  by (auto simp: take_job_def split: list.splits)

lemma end_job_Some: "end_job t s = Some s' \<longleftrightarrow> t \<in> set (active s) \<and> s' = s\<lparr>active := remove1 t (active s)\<rparr>"
  by (auto simp: end_job_def)

lemma lanes_ok_bounds: "lanes_ok s \<Longrightarrow> distinct (map tk_future (unfinished s)) \<and> length (active s) \<le> max_workers s"
  by (simp add: lanes_ok_def)

lemma worker_step_ok:
  assumes "worker_step s s'" "lanes_ok s"
  shows "lanes_ok s'"
  using assms(1)
proof (cases rule: worker_step.cases)
  case takes
  then obtain t ts where t: "waiting s = t # ts" "length (active s) < max_workers s" "s' = s\<lparr>waiting := ts, active := active s @ [t]\<rparr>"
    by (auto simp: take_job_Some)
  then have "unfinished s' = unfinished s" by (simp add: unfinished_def)
  with t lanes_ok_bounds [OF assms(2)] show ?thesis by (intro lanes_ok_fewer [OF assms(2)]) simp_all
next
  case (ends t)
  then have s': "t \<in> set (active s)" "s' = s\<lparr>active := remove1 t (active s)\<rparr>" by (simp_all add: end_job_Some)
  have sub: "set (remove1 t (active s)) \<subseteq> set (active s)" by (rule set_remove1_subset)
  have d: "distinct (map tk_future (active s @ waiting s))" using lanes_ok_bounds [OF assms(2)] by (simp add: unfinished_def)
  have "distinct (map tk_future (remove1 t (active s) @ waiting s))"
  proof -
    have "distinct (map tk_future (remove1 t (active s)))" using d sub
      by (simp add: distinct_map distinct_remove1) (blast intro: inj_on_subset)
    moreover have "tk_future ` set (remove1 t (active s)) \<inter> tk_future ` set (waiting s) = {}" using d sub by auto
    ultimately show ?thesis using d by simp
  qed
  moreover have "length (remove1 t (active s)) \<le> max_workers s"
    using lanes_ok_bounds [OF assms(2)] length_remove1 [of t "active s"] by auto
  ultimately show ?thesis using sub s'(2) by (intro lanes_ok_fewer [OF assms(2)]) (auto simp: unfinished_def)
qed

lemma lane_step_ok:
  assumes "lane_step s s'" "lanes_ok s"
  shows "lanes_ok s'"
  using assms(1)
proof (cases rule: lane_step.cases)
  case (submits now lane r)
  then show ?thesis using lane_submit_ok [OF assms(2), of now lane] by simp
next
  case (forgets lanes)
  then show ?thesis using forget_except_ok [OF assms(2)] by simp
next
  case stops
  then show ?thesis using lane_shutdown_ok [OF assms(2)] by simp
next
  case works
  then show ?thesis using worker_step_ok assms(2) by blast
qed

lemma lanes_reach_ok: "lanes_reach workers s \<Longrightarrow> lanes_ok s"
proof (induction rule: lanes_reach.induct)
  case init
  show ?case by (simp add: lanes_ok_def new_lanes_def unfinished_def entry_future_def)
next
  case (step s s')
  then show ?case using lane_step_ok by blast
qed

lemma lane_step_workers: "lane_step s s' \<Longrightarrow> max_workers s' = max_workers s"
  by (erule lane_stepE)
    (auto elim!: worker_stepE simp: forget_except_def lane_shutdown_def take_job_Some end_job_Some lane_submit_def andThen_def
      read_state_def executor_submit_def update_state_def ret_def Let_def split: if_splits)

lemma lanes_reach_workers: "lanes_reach workers s \<Longrightarrow> max_workers s = workers"
  by (induction rule: lanes_reach.induct) (auto simp: new_lanes_def dest: lane_step_workers)

section \<open>One job per lane\<close>

text \<open>A caller's view: submitting claims the lane, and the end of a running job releases it.\<close>

definition lane_claim :: "rat \<Rightarrow> string \<Rightarrow> Lanes \<Rightarrow> bool \<times> Lanes" where
  "lane_claim now lane s =
     (case lane_submit now lane s of (Inr r, s') \<Rightarrow> (started r, s') | (Inl _, s') \<Rightarrow> (False, s'))"

definition lane_end :: "string \<Rightarrow> Lanes \<Rightarrow> Lanes" where
  "lane_end lane s =
     (case find (\<lambda>t. tk_lane t = lane) (active s) of None \<Rightarrow> s | Some t \<Rightarrow> (case end_job t s of None \<Rightarrow> s | Some s' \<Rightarrow> s'))"

lemma lane_end_cases:
  "lane_end lane s = s \<or> (\<exists>t. tk_lane t = lane \<and> worker_step s (lane_end lane s) \<and>
     set (unfinished s) - {t} \<subseteq> set (unfinished (lane_end lane s)) \<and> set (unfinished (lane_end lane s)) \<subseteq> set (unfinished s))"
proof (cases "find (\<lambda>t. tk_lane t = lane) (active s)")
  case None
  then show ?thesis by (simp add: lane_end_def)
next
  case (Some t)
  then have t: "t \<in> set (active s)" "tk_lane t = lane" by (auto simp: find_Some_iff)
  then have e: "end_job t s = Some (lane_end lane s)" "lane_end lane s = s\<lparr>active := remove1 t (active s)\<rparr>"
    using Some by (simp_all add: lane_end_def end_job_def)
  have "set (active s) - {t} \<subseteq> set (remove1 t (active s))" by (metis DiffE in_set_remove1 singletonI subsetI)
  then have "set (unfinished s) - {t} \<subseteq> set (unfinished (lane_end lane s)) \<and> set (unfinished (lane_end lane s)) \<subseteq> set (unfinished s)"
    using set_remove1_subset [of t "active s"] unfolding e(2) unfinished_def by auto
  with t(2) ends [OF e(1)] show ?thesis by blast
qed

interpretation lanes: keyed_lock lanes_ok "\<lambda>s. tk_lane ` set (unfinished s)" "lane_claim now" lane_end for now
proof unfold_locales
  fix s :: Lanes and k :: string
  assume ok: "lanes_ok s"
  show "lanes_ok (snd (lane_claim now k s))" using lane_submit_ok [OF ok, of now k]
    by (auto simp: lane_claim_def split: prod.splits sum.splits)
  show "lanes_ok (lane_end k s)" 
    using lane_end_cases [of k s]
  proof (elim disjE exE conjE)
    assume "worker_step s (lane_end k s)"
    then show ?thesis by (rule worker_step_ok [OF _ ok])
  qed (simp add: ok)
  show "tk_lane ` set (unfinished s) - {k} \<subseteq> tk_lane ` set (unfinished (lane_end k s)) \<and>
      tk_lane ` set (unfinished (lane_end k s)) \<subseteq> tk_lane ` set (unfinished s)"
    using lane_end_cases [of k s]
  proof (elim disjE exE conjE)
    fix t assume t: "tk_lane t = k" "set (unfinished s) - {t} \<subseteq> set (unfinished (lane_end k s))"
      "set (unfinished (lane_end k s)) \<subseteq> set (unfinished s)"
    have "tk_lane ` set (unfinished s) - {k} \<subseteq> tk_lane ` (set (unfinished s) - {t})" using t(1) by auto
    also have "\<dots> \<subseteq> tk_lane ` set (unfinished (lane_end k s))" using t(2) by (rule image_mono)
    finally show ?thesis using t(3) by (simp add: image_mono)
  qed simp
  show "k \<notin> tk_lane ` set (unfinished s) \<and>
      tk_lane ` set (unfinished (snd (lane_claim now k s))) = insert k (tk_lane ` set (unfinished s))"
    if got: "fst (lane_claim now k s)"
  proof -
    have idle: "\<not> lane_busy s k" using got lane_submit_skips [of s k now] by (auto simp: lane_claim_def)
    have up: "\<not> stopped s" using got lane_submit_stopped [OF idle, of now] by (auto simp: lane_claim_def)
    show ?thesis using idle lane_busy_iff [OF ok]
      by (auto simp: lane_claim_def lane_submit_starts [OF idle up] unfinished_def)
  qed
  show "tk_lane ` set (unfinished (snd (lane_claim now k s))) = tk_lane ` set (unfinished s)"
    if no: "\<not> fst (lane_claim now k s)"
  proof (cases "lane_busy s k")
    case True
    then show ?thesis using lane_submit_skips [of s k now] by (auto simp: lane_claim_def)
  next
    case idle: False
    then have "stopped s" using no lane_submit_starts [OF idle, of now] by (cases "stopped s") (auto simp: lane_claim_def)
    then show ?thesis using lane_submit_stopped [OF idle, of now] by (auto simp: lane_claim_def)
  qed
qed

section \<open>Shutting down\<close>

lemma worker_step_measure:
  "worker_step s s' \<Longrightarrow> 2 * length (waiting s') + length (active s') < 2 * length (waiting s) + length (active s)"
  by (erule worker_stepE) (auto simp: take_job_Some end_job_Some length_remove1 dest: length_pos_if_in_set)

lemma works_to_bound: "works_to s n s' \<Longrightarrow> n + 2 * length (waiting s') + length (active s') \<le> 2 * length (waiting s) + length (active s)"
  by (induction rule: works_to.induct) (auto dest: worker_step_measure)

lemma worker_step_possible:
  assumes "unfinished s \<noteq> []" "0 < max_workers s"
  shows "\<exists>s'. worker_step s s'"
proof (cases "active s")
  case (Cons t ts)
  then show ?thesis using worker_step.ends [of t s] by (auto simp: end_job_def)
next
  case Nil
  then show ?thesis using assms worker_step.takes [of s] by (cases "waiting s") (auto simp: take_job_def unfinished_def)
qed

lemma worker_step_frame: "worker_step s s' \<Longrightarrow> max_workers s' = max_workers s"
  using lane_step_workers lane_step.works by blast

lemma works_until_idle: "0 < max_workers s \<Longrightarrow> \<exists>n s'. works_to s n s' \<and> unfinished s' = []"
proof (induction "2 * length (waiting s) + length (active s)" arbitrary: s rule: less_induct)
  case less
  show ?case
  proof (cases "unfinished s = []")
    case True
    then show ?thesis using works_to.none by blast
  next
    case False
    then obtain t where t: "worker_step s t" using worker_step_possible less.prems by blast
    then obtain n s' where "works_to t n s'" "unfinished s' = []"
      using less.hyps [of t] worker_step_measure [OF t] worker_step_frame [OF t] less.prems by auto
    with t show ?thesis using works_to.more by blast
  qed
qed

section \<open>Properties\<close>

text \<open>C3. However submissions, bookkeeping, shutdown and the workers interleave, no lane ever has
  two jobs at once, running or waiting, and no more jobs run than there are workers; a lane is
  listed as busy exactly while its job is unfinished.\<close>

theorem one_job_per_lane:
  assumes "lanes_reach workers s"
  shows "distinct (map tk_lane (active s @ waiting s)) \<and> length (active s) \<le> workers \<and>
    set (busy_lanes s) = set (map tk_lane (active s @ waiting s))"
  using lanes_ok_one [OF lanes_reach_ok [OF assms]] lanes_reach_ok [OF assms] lanes_reach_workers [OF assms]
    busy_lanes_set [OF lanes_reach_ok [OF assms]]
  by (auto simp: unfinished_def lanes_ok_def)

definition demo_lanes :: Lanes where
  "demo_lanes = snd (lane_submit 2 ''ci'' (snd (lane_submit 1 ''web'' (snd (lane_submit 0 ''ci'' (new_lanes 1))))))"

lemma demo_lanes_reach: "lanes_reach 1 demo_lanes"
proof -
  have "lanes_reach 1 (snd (lane_submit now lane s))" if "lanes_reach 1 s" for now lane s
    using lanes_reach.step [OF that lane_step.submits [OF surjective_pairing]] .
  then show ?thesis unfolding demo_lanes_def by (blast intro: lanes_reach.init)
qed

theorem one_job_per_lane_witness:
  "map tk_lane (active demo_lanes @ waiting demo_lanes) = [''ci'', ''web''] \<and>
   distinct (map tk_lane (active demo_lanes @ waiting demo_lanes)) \<and> set (busy_lanes demo_lanes) = {''ci'', ''web''}"
proof -
  have t: "map tk_lane (active demo_lanes @ waiting demo_lanes) = [''ci'', ''web'']" by code_simp
  from one_job_per_lane [OF demo_lanes_reach] show ?thesis unfolding t by simp
qed



end
