(* ===== verification/Loading.thy ===== *)
theory Loading
  imports Federation Config
begin

text \<open>
  The loaders of \<open>orchestrator/rorch/config.py\<close>: \<open>config.yml\<close>, or the environment where there is
  none, as pools and global settings. The file is the argument \<open>file'\<close>: \<open>None\<close> where it does not
  exist, else what reading and parsing it gave. Eight fields of a pool are taken from the YAML as
  they are, of whatever type: a loaded pool is the record \<open>LoadedPool\<close>, which keeps those apart,
  and \<open>typed_pool\<close> is the \<open>PoolConfig\<close> it stands for when they have the types of the class.
\<close>

section \<open>Values\<close>

type_synonym config_file = "pyval result option"

definition as_csv :: "(pyval \<Rightarrow> string) \<Rightarrow> pyval \<Rightarrow> string" where
  "as_csv rp v =
     (if is_list v then join '','' (filter (\<lambda>s. s \<noteq> []) (map (\<lambda>x. strip (py_str_of rp x)) (list_items v)))
      else strip (py_str_of rp (if truthy v then v else PStr [])))"

definition as_size :: "(pyval \<Rightarrow> string) \<Rightarrow> pyval \<Rightarrow> string" where
  "as_size rp v = (if v = PNone then [] else strip (py_str_of rp v))"

text \<open>\<open>resolve_env(value) or fallback\<close>: what is not a string is falsy, or has no \<open>startswith\<close>.\<close>

definition env_or :: "environ \<Rightarrow> pyval \<Rightarrow> string \<Rightarrow> string result" where
  "env_or env v fallback =
     (case v of
        PStr s \<Rightarrow> Inr (if resolve_env env s \<noteq> [] then resolve_env env s else fallback)
      | _ \<Rightarrow> if truthy v then Inl (AttributeError ''no attribute startswith'') else Inr fallback)"

section \<open>Global settings\<close>

text \<open>\<open>raw.get(key, default)\<close> of the document, an empty one being \<open>{}\<close>.\<close>

definition document_get :: "pyval result \<Rightarrow> string \<Rightarrow> pyval \<Rightarrow> pyval result" where
  "document_get doc key dflt = bind_result doc (\<lambda>v. py_get (if truthy v then v else PDict []) key dflt)"

definition int_setting :: "environ \<Rightarrow> config_file \<Rightarrow> string \<Rightarrow> string \<Rightarrow> int \<Rightarrow> int result" where
  "int_setting env file' key var dflt =
     bind_result
       (case file' of
          Some doc \<Rightarrow> bind_result (document_get doc key (PInt dflt)) py_int_of
        | None \<Rightarrow> py_int_of (PStr (getenv env var (show_int dflt))))
       (\<lambda>n. if n < 0 then Inl (SystemExit 1) else Inr n)"

definition load_max_total_runners :: "environ \<Rightarrow> config_file \<Rightarrow> int result" where
  "load_max_total_runners env file' = int_setting env file' ''max_total_runners'' ''MAX_TOTAL_RUNNERS'' 0"

definition load_max_runner_lifetime :: "environ \<Rightarrow> config_file \<Rightarrow> int result" where
  "load_max_runner_lifetime env file' = int_setting env file' ''max_runner_lifetime'' ''MAX_RUNNER_LIFETIME'' 0"

definition load_ci_container_max_age :: "environ \<Rightarrow> config_file \<Rightarrow> int result" where
  "load_ci_container_max_age env file' =
     int_setting env file' ''ci_container_max_age'' ''CI_CONTAINER_MAX_AGE'' DEFAULT_CI_CONTAINER_MAX_AGE"

definition load_ci_container_patterns :: "(pyval \<Rightarrow> string) \<Rightarrow> environ \<Rightarrow> config_file \<Rightarrow> string list result" where
  "load_ci_container_patterns rp env file' =
     bind_result
       (case file' of
          Some doc \<Rightarrow> bind_result (document_get doc ''ci_container_patterns'' (PStr [])) (\<lambda>v. Inr (as_csv rp v))
        | None \<Rightarrow> Inr (getenv env ''CI_CONTAINER_PATTERNS'' []))
       (\<lambda>v. Inr (filter (\<lambda>p. p \<noteq> []) (map strip (split_on (CHR '','') v))))"

definition load_federation :: "(pyval \<Rightarrow> string) \<Rightarrow> config_file \<Rightarrow> (FederationConfig \<times> string list) result" where
  "load_federation rp file' =
     bind_result (case file' of Some doc \<Rightarrow> document_get doc ''federation'' PNone | None \<Rightarrow> Inr PNone) (parse_config rp)"

section \<open>Pools\<close>

record LoadedPool =
  lp_name :: pyval
  lp_owner :: pyval
  lp_repo :: pyval
  lp_max_runners :: pyval
  lp_min_idle :: pyval
  lp_labels :: pyval
  lp_image :: pyval
  lp_memory :: pyval
  lp_fields :: PoolConfig

text \<open>A pool from the environment has the types of the class.\<close>

definition loaded :: "PoolConfig \<Rightarrow> LoadedPool" where
  "loaded p =
     \<lparr>lp_name = PStr (pool_name p), lp_owner = PStr (pool_owner p), lp_repo = PStr (pool_repo p),
      lp_max_runners = PInt (max_runners p), lp_min_idle = PInt (min_idle p), lp_labels = PStr (runner_labels p),
      lp_image = PStr (runner_image p), lp_memory = PStr (memory_limit p), lp_fields = p\<rparr>"

fun as_str :: "pyval \<Rightarrow> string option" where
  "as_str (PStr s) = Some s"
| "as_str _ = None"

fun as_num :: "pyval \<Rightarrow> int option" where
  "as_num (PInt n) = Some n"
| "as_num _ = None"

definition typed_pool :: "LoadedPool \<Rightarrow> PoolConfig option" where
  "typed_pool l =
     (case (as_str (lp_name l), as_str (lp_owner l), as_str (lp_repo l), as_num (lp_max_runners l),
            as_num (lp_min_idle l), as_str (lp_labels l), as_str (lp_image l), as_str (lp_memory l)) of
        (Some name, Some owner, Some repo, Some mx, Some mn, Some labels, Some img, Some mem) \<Rightarrow>
          Some ((lp_fields l)\<lparr>pool_name := name, pool_owner := owner, pool_repo := repo, max_runners := mx,
            min_idle := mn, runner_labels := labels, runner_image := img, memory_limit := mem\<rparr>)
      | _ \<Rightarrow> None)"

text \<open>\<open>p.get(key, defaults.get(key, default))\<close>.\<close>

type_synonym settings = "(string \<times> pyval) list"

definition setting :: "settings \<Rightarrow> settings \<Rightarrow> string \<Rightarrow> pyval \<Rightarrow> pyval" where
  "setting p defaults key dflt = pget p key (pget defaults key dflt)"

definition int_fields_of :: "settings \<Rightarrow> settings \<Rightarrow> PoolConfig \<Rightarrow> PoolConfig result" where
  "int_fields_of p defaults c =
     (let n = (\<lambda>key dflt. py_int_of (setting p defaults key (PInt dflt)))
      in bind_result (n ''repo_discovery_ttl'' 600) (\<lambda>ttl.
         bind_result (n ''github_poll_interval'' 60) (\<lambda>poll.
         bind_result (n ''queued_min_age'' 0) (\<lambda>age.
         bind_result (n ''stuck_timeout'' 8) (\<lambda>stuck.
         bind_result (n ''repo_check_workers'' 6) (\<lambda>checks.
         bind_result (n ''runner_operation_workers'' 4) (\<lambda>ops.
           Inr (c\<lparr>repo_discovery_ttl := ttl, github_poll_interval := poll, queued_min_age := age, stuck_timeout := stuck,
             repo_check_workers := checks, runner_operation_workers := ops\<rparr>))))))))"

definition yaml_pool :: "(pyval \<Rightarrow> string) \<Rightarrow> environ \<Rightarrow> settings \<Rightarrow> settings \<Rightarrow> string \<Rightarrow> pyval \<Rightarrow> LoadedPool result" where
  "yaml_pool rp env raw defaults global_pat entry =
     (let str = py_str_of rp; dflt = setting (dict_items entry) defaults
      in bind_result (py_get entry ''provider'' (PStr ''github'')) (\<lambda>prov.
         let provider = lower (str prov); p = dict_items entry; own = (\<lambda>key d. str (pget p key (PStr d)))
         in bind_result (env_or env (pget p ''pat'' (PStr [])) (if provider = ''github'' then global_pat else [])) (\<lambda>pat.
            let scope = lower (own ''scope'' ''organization'')
            in bind_result (py_item entry ''name'') (\<lambda>name.
               bind_result (py_item entry ''owner'') (\<lambda>owner.
               bind_result (int_fields_of p defaults (new_pool [] pat [])) (\<lambda>c.
               bind_result (py_float_of (dflt ''cpu_limit'' (PFloat (Fin (3 / 2))))) (\<lambda>cpu.
                 Inr \<lparr>lp_name = name, lp_owner = owner, lp_repo = pget p ''repo'' (PStr []),
                   lp_max_runners = dflt ''max_runners'' (PInt 3),
                   lp_min_idle = pget p ''min_idle'' (if scope = ''personal'' then PInt 0 else pget defaults ''min_idle'' (PInt 1)),
                   lp_labels = dflt ''runner_labels'' (PStr ''self-hosted,linux,x64,docker''),
                   lp_image = dflt ''runner_image'' (PStr DEFAULT_RUNNER_IMAGE),
                   lp_memory = dflt ''memory_limit'' (PStr ''2g''),
                   lp_fields = c\<lparr>pool_scope := scope,
                     pool_instance := lower (strip (str (pget raw ''instance'' (PStr [])))),
                     cpu_limit := cpu,
                     work_tmpfs_size := as_size rp (dflt ''work_tmpfs_size'' (PStr ''auto'')),
                     network_mode := lower (str (dflt ''network_mode'' (PStr ''host''))),
                     include_public_repos := truthy (dflt ''include_public_repos'' (PBool False)),
                     exclude_repos := as_csv rp (dflt ''exclude_repos'' (PStr [])),
                     job_started_hook := strip (own ''job_started_hook'' []),
                     pool_provider := provider,
                     base_url := rstrip_if (\<lambda>ch. ch = CHR ''/'') (strip (own ''base_url'' []))\<rparr>\<rparr>)))))))"

definition load_from_yaml :: "(pyval \<Rightarrow> string) \<Rightarrow> environ \<Rightarrow> pyval result \<Rightarrow> LoadedPool list result" where
  "load_from_yaml rp env doc =
     bind_result doc (\<lambda>raw.
     bind_result (py_get raw ''defaults'' (PDict [])) (\<lambda>defaults.
     bind_result (py_get defaults ''pat'' (PStr [])) (\<lambda>dpat.
     bind_result (env_or env dpat (getenv env ''GITHUB_PAT'' [])) (\<lambda>global_pat.
     bind_result (py_get raw ''pools'' (PList [])) (\<lambda>ps.
     bind_result (py_iter ps) (\<lambda>entries.
       map_result (yaml_pool rp env (dict_items raw) (dict_items defaults) global_pat) entries))))))"

definition load_from_env :: "environ \<Rightarrow> PoolConfig result" where
  "load_from_env env =
     (let var = getenv env; n = (\<lambda>k d. py_int_of (PStr (var k d))); scope = lower (var ''GITHUB_SCOPE'' ''organization'')
      in bind_result (n ''REPO_DISCOVERY_TTL'' ''600'') (\<lambda>ttl.
         bind_result (n ''GITHUB_POLL_INTERVAL'' ''60'') (\<lambda>poll.
         bind_result (n ''STUCK_TIMEOUT'' ''8'') (\<lambda>stuck.
         bind_result (n ''REPO_CHECK_WORKERS'' ''6'') (\<lambda>checks.
         bind_result (n ''RUNNER_OPERATION_WORKERS'' ''4'') (\<lambda>ops.
         bind_result (n ''MAX_RUNNERS'' ''3'') (\<lambda>mx.
         bind_result (n ''MIN_IDLE'' (if scope = ''personal'' then ''0'' else ''1'')) (\<lambda>mn.
           Inr ((new_pool ''default'' (var ''GITHUB_PAT'' []) (var ''GITHUB_OWNER'' []))
             \<lparr>pool_repo := var ''GITHUB_REPO'' [], pool_scope := scope, repo_discovery_ttl := ttl, github_poll_interval := poll,
              stuck_timeout := stuck, repo_check_workers := checks, runner_operation_workers := ops, max_runners := mx, min_idle := mn,
              runner_labels := var ''RUNNER_LABELS'' ''self-hosted,linux,x64,docker'',
              runner_image := var ''RUNNER_IMAGE'' DEFAULT_RUNNER_IMAGE,
              network_mode := lower (var ''RUNNER_NETWORK_MODE'' ''host''),
              work_tmpfs_size := strip (var ''RUNNER_WORK_TMPFS_SIZE'' ''auto''),
              include_public_repos := lower (var ''INCLUDE_PUBLIC_REPOS'' []) \<in> {''1'', ''true'', ''yes''},
              exclude_repos := var ''EXCLUDE_REPOS'' []\<rparr>)))))))))"

definition load_config :: "(pyval \<Rightarrow> string) \<Rightarrow> environ \<Rightarrow> config_file \<Rightarrow> LoadedPool list result" where
  "load_config rp env file' =
     (case file' of
        Some doc \<Rightarrow> load_from_yaml rp env doc
      | None \<Rightarrow> bind_result (load_from_env env) (\<lambda>p. Inr [loaded p]))"

section \<open>Facts\<close>

lemma typed_loaded [simp]: "typed_pool (loaded p) = Some p"
  by (simp add: typed_pool_def loaded_def)

lemma int_setting_nonneg: "int_setting env file' key var dflt = Inr n \<Longrightarrow> 0 \<le> n"
  by (auto simp: int_setting_def bind_result_Inr_iff split: if_splits)

lemma env_or_string: "env_or env (PStr s) f = Inr t \<Longrightarrow> t = (if resolve_env env s \<noteq> [] then resolve_env env s else f)"
  by (simp add: env_or_def)

lemma int_fields_pat: "int_fields_of p dd c = Inr c' \<Longrightarrow> pool_pat c' = pool_pat c"
  by (auto simp: int_fields_of_def Let_def bind_result_Inr_iff)

lemma yaml_pool_token:
  assumes "yaml_pool rp env raw dd g entry = Inr l" "pool_provider (lp_fields l) \<noteq> ''github''"
  shows "env_or env (pget (dict_items entry) ''pat'' (PStr [])) [] = Inr (pool_pat (lp_fields l))"
proof -
  obtain prov pat name owner c cpu where r: "env_or env (pget (dict_items entry) ''pat'' (PStr []))
        (if lower (py_str_of rp prov) = ''github'' then g else []) = Inr pat"
      "int_fields_of (dict_items entry) dd (new_pool [] pat []) = Inr c"
      "pool_provider (lp_fields l) = lower (py_str_of rp prov)" "pool_pat (lp_fields l) = pool_pat c"
    using assms(1) unfolding yaml_pool_def Let_def bind_result_Inr_iff
    by (elim exE conjE) (rule that, assumption, assumption, auto)
  have "pool_pat c = pat" using int_fields_pat [OF r(2)] by (simp add: new_pool_def)
  then show ?thesis using r assms(2) by simp
qed

definition own_token :: "environ \<Rightarrow> pyval \<Rightarrow> string result" where
  "own_token env entry = env_or env (pget (dict_items entry) ''pat'' (PStr [])) []"

definition document_pools :: "pyval result \<Rightarrow> pyval list" where
  "document_pools doc =
     (case bind_result doc (\<lambda>raw. bind_result (py_get raw ''pools'' (PList [])) py_iter) of Inl _ \<Rightarrow> [] | Inr es \<Rightarrow> es)"


definition two_forges :: pyval where
  "two_forges =
     PDict [(''defaults'', PDict [(''pat'', PStr ''${GITHUB_PAT}'')]),
       (''pools'', PList
         [PDict [(''name'', PStr ''hub''), (''owner'', PStr ''acme'')],
          PDict [(''name'', PStr ''tea''), (''owner'', PStr ''acme''), (''provider'', PStr ''Gitea''), (''base_url'', PStr ''https://git.acme.dev/'')]])]"

definition hub_environ :: environ where
  "hub_environ k = (if k = ''GITHUB_PAT'' then Some ''ghp_x'' else None)"


text \<open>Where only the identity is given, the sources agree on the rest, but for the CPU limit: 1.5 in
  \<open>config.yml\<close>, none in the class, the environment and the API.\<close>

lemma environment_defaults: "load_from_env (\<lambda>_. None) = Inr (new_pool ''default'' [] [])"
  by code_simp

lemma yaml_defaults:
  assumes "\<not> starts_with pat ''${''" "pat \<noteq> []"
  shows "bind_result (load_from_yaml rp env (Inr (PDict [(''pools'',
      PList [PDict [(''name'', PStr name), (''owner'', PStr owner), (''pat'', PStr pat)]])])))
    (\<lambda>ls. Inr (map typed_pool ls)) = Inr [Some ((new_pool name pat owner)\<lparr>cpu_limit := Fin (3 / 2)\<rparr>)]"
proof -
  have "env_or env (PStr pat) g = Inr pat" for g using assms by (simp add: env_or_def resolve_env_def)
  moreover have "as_csv rp (PStr []) = []" "as_size rp (PStr ''auto'') = ''auto''" "lower ''github'' = ''github''"
    "lower ''organization'' = ''organization''" "lower ''host'' = ''host''" "lower (strip []) = []" "rstrip_if P [] = []" for P
    by (code_simp, code_simp, code_simp, code_simp, code_simp, code_simp, simp add: rstrip_if_def)
  ultimately show ?thesis
    by (simp add: load_from_yaml_def yaml_pool_def Let_def pget_def setting_def int_fields_of_def env_or_def typed_pool_def new_pool_def)
qed

end
