(* ===== verification/Wiring.thy ===== *)
theory Wiring
  imports Scaler ForgeClient DockerClient Resolver Lanes Loading
begin

text \<open>
  How the components of one process share the world. The clients of the forges, the Docker
  client, the store and the scaler are each modelled over a world of their own type; here the
  worlds are put into each other the way \<open>__main__.py\<close> hands the objects to one another: the
  store and the forge clients act on the world outside (\<open>Shared\<close>), the Docker client on those,
  the scaler on all of them. \<open>docker_env\<close> and \<open>ports\<close> give the Docker client and the scaler
  what they are constructed with. The store of \<open>Shared\<close> is absent where the daemon
  runs without one.
\<close>

section \<open>Outside\<close>

text \<open>
  \<open>o_docker\<close> is the Docker command line and its surroundings; its two callbacks are not used:
  the daemon wires its own. \<open>o_host\<close> is \<open>hostmetrics.read()\<close>, \<open>o_peer\<close> a request to a
  peer, \<open>o_file\<close> what \<open>config.yml\<close> holds, \<open>o_app_dir\<close> whether \<open>/app\<close> is a directory.
\<close>

record 'w Outside =
  o_http :: "'w HttpEnv"
  o_store :: "'w StoreEnv"
  o_docker :: "'w DockerEnv"
  o_runtime :: "'w RuntimeEnv"
  o_host :: "('w, HostMetrics) eff"
  o_peer :: "string \<Rightarrow> string \<Rightarrow> ('w, string) eff"
  o_file :: config_file
  o_env :: environ
  o_app_dir :: bool
  o_str :: "pyval \<Rightarrow> string"

section \<open>Shared state\<close>

record 'w Shared =
  sh_store :: "'w Store option"
  sh_forge :: "'w ForgeClients"
  sh_world :: 'w

definition on_outside :: "('w, 'a) eff \<Rightarrow> ('w Shared, 'a) eff" where
  "on_outside m s = (case m (sh_world s) of (r, w) \<Rightarrow> (r, s\<lparr>sh_world := w\<rparr>))"

definition on_clients :: "('w ForgeClients, 'a) eff \<Rightarrow> ('w Shared, 'a) eff" where
  "on_clients m s =
     (case m ((sh_forge s)\<lparr>fc_world := sh_world s\<rparr>) of (r, f) \<Rightarrow> (r, s\<lparr>sh_forge := f, sh_world := fc_world f\<rparr>))"

text \<open>An action on the store, if there is one.\<close>

definition on_saved :: "('w Store option, 'a) eff \<Rightarrow> ('w Shared, 'a) eff" where
  "on_saved m s =
     (case m (map_option (\<lambda>st. st\<lparr>st_world := sh_world s\<rparr>) (sh_store s)) of
        (r, so) \<Rightarrow> (r, s\<lparr>sh_store := so, sh_world := (case so of None \<Rightarrow> sh_world s | Some st \<Rightarrow> st_world st)\<rparr>))"

definition if_stored :: "'a \<Rightarrow> ('w, 'a) db \<Rightarrow> ('w Store option, 'a) eff" where
  "if_stored dflt m so =
     (case so of None \<Rightarrow> (Inr dflt, None) | Some st \<Rightarrow> (case m st of (r, st') \<Rightarrow> (r, Some st')))"

type_synonym 'w Core = "'w Shared DockerClient"
type_synonym 'w Brain = "'w Core PoolScaler"

definition on_shared :: "('w Shared, 'a) eff \<Rightarrow> ('w Brain, 'a) eff" where
  "on_shared m = on_world (on_daemon m)"

section \<open>What the components are given\<close>

definition docker_env :: "'w Outside \<Rightarrow> 'w Shared DockerEnv" where
  "docker_env o' =
     (let d = o_docker o'
      in \<lparr>docker_op = (\<lambda>args. on_outside (docker_op d args)), docker_gid_op = on_outside (docker_gid_op d),
          d_mono_op = on_outside (d_mono_op d), fresh_uid_op = on_outside (fresh_uid_op d),
          has_dockerfile_op = on_outside (has_dockerfile_op d),
          record_op = Some (\<lambda>event container pool reason.
            on_saved (if_stored () (store_record_event (o_store o') event container pool reason))),
          registration_token_op = Some (\<lambda>p. on_clients (forge_registration_token (o_http o') p)),
          release = release d, show_float = show_float d, volume_created = volume_created d\<rparr>)"

definition api_port :: "'w Outside \<Rightarrow> 'w Core RunnerAPIClient" where
  "api_port o' =
     (let a = forge_api (o_http o')
      in \<lparr>list_repositories_op = (\<lambda>p. on_daemon (on_clients (list_repositories_op a p))),
          get_queued_count_op = (\<lambda>p. on_daemon (on_clients (get_queued_count_op a p))),
          get_queued_ages_op = (\<lambda>p. on_daemon (on_clients (get_queued_ages_op a p))),
          list_runners_op = (\<lambda>p. on_daemon (on_clients (list_runners_op a p))),
          deregister_runner_op = (\<lambda>p i. on_daemon (on_clients (deregister_runner_op a p i)))\<rparr>)"

definition docker_port :: "'w Outside \<Rightarrow> 'w Core ContainerManager" where
  "docker_port o' =
     (let e = docker_env o'
      in \<lparr>running_containers_op = running_containers e, cleanup_exited_op = cleanup_exited e,
          cleanup_stuck_op = cleanup_stuck e, spawn_runner_op = spawn_runner e\<rparr>)"

definition store_port :: "'w Outside \<Rightarrow> 'w Core StorePort" where
  "store_port o' =
     (let e = o_store o'; saving = (\<lambda>m. on_daemon (on_saved (if_stored () m)))
      in \<lparr>record_tick_op = (\<lambda>t. saving (store_record_tick e t)),
          record_event_op = (\<lambda>event container pool reason. saving (store_record_event e event container pool reason)),
          sync_jobs_op = (\<lambda>pool jobs. saving (andThen (sync_jobs e pool jobs) (\<lambda>_. ret ()))),
          replace_runner_status_op = (\<lambda>pool rs. saving (replace_runner_status e pool rs))\<rparr>)"

definition runtime_port :: "'w Outside \<Rightarrow> 'w Core RuntimeEnv" where
  "runtime_port o' =
     (let r = o_runtime o'
      in \<lparr>monotonic_op = on_daemon (on_outside (monotonic_op r)), wall_clock_op = on_daemon (on_outside (wall_clock_op r)),
          submit_op = on_daemon (on_outside (submit_op r)), sha256_op = sha256_op r\<rparr>)"

definition ports :: "'w Outside \<Rightarrow> bool \<Rightarrow> 'w Core Ports" where
  "ports o' stored =
     \<lparr>api = api_port o', docker = docker_port o', store = (if stored then Some (store_port o') else None),
      runtime = runtime_port o'\<rparr>"

end
