(* ===== verification/Daemon.thy ===== *)
theory Daemon
  imports Wiring
begin

text \<open>
  \<open>orchestrator/rorch/__main__.py\<close>: what \<open>main()\<close> builds at startup, what one turn of the main
  loop does, and the jobs the two worker pools run. \<open>daemon_step\<close> is the whole process: the main
  loop, the workers of both pools, and whatever the dashboard does to the state they share, in any
  order. A job's effects happen when it ends: two jobs of the scaler never overlap here, their
  overlap over the global cap is the model of \<open>GlobalCap\<close>. Log lines are left out, and so is
  waiting for the next turn.
\<close>

section \<open>Settings\<close>

definition DEFAULT_DB_PATH :: string where "DEFAULT_DB_PATH = ''/app/data/rorch.db''"
definition DEFAULT_POOL_TICK_WORKERS :: int where "DEFAULT_POOL_TICK_WORKERS = 8"
definition CLEANUP_LANE :: string where "CLEANUP_LANE = ''cleanup''"
definition HOUSEKEEPING_LANE :: string where "HOUSEKEEPING_LANE = ''housekeeping''"
definition DEFAULT_MAX_CONCURRENT_REQUESTS :: int where "DEFAULT_MAX_CONCURRENT_REQUESTS = 8"

record Runtime =
  rt_pools :: "PoolConfig list"
  rt_poll :: int
  rt_prune_every :: int
  rt_retention_days :: int
  rt_rate_limit_reserve :: int
  rt_github_concurrency :: int
  rt_pool_tick_workers :: int
  rt_max_total_runners :: int
  rt_max_runner_lifetime :: int
  rt_ci_container_max_age :: int
  rt_ci_container_patterns :: "string list"
  rt_stored :: bool
  rt_resolver :: Resolver

definition bounded_env :: "environ \<Rightarrow> string \<Rightarrow> int \<Rightarrow> int \<Rightarrow> int \<Rightarrow> int" where
  "bounded_env env name dflt low high =
     (let raw = strip (getenv env name []);
          v = (if raw = [] then dflt else (case py_int raw of None \<Rightarrow> dflt | Some n \<Rightarrow> n))
      in min high (max low v))"

definition db_url :: "environ \<Rightarrow> bool \<Rightarrow> string" where
  "db_url env app_dir =
     (let url = strip (getenv env ''RORCH_DB_URL'' []); configured = getenv env ''RORCH_DB_PATH'' []
      in if url \<noteq> [] then url else if configured \<noteq> [] then configured
         else if app_dir then DEFAULT_DB_PATH else ''rorch.db'')"

definition int_env :: "environ \<Rightarrow> string \<Rightarrow> string \<Rightarrow> int result" where
  "int_env env name dflt = py_int_of (PStr (getenv env name dflt))"

text \<open>\<open>max(1, 900 // poll)\<close>.\<close>

definition prune_interval :: "int \<Rightarrow> int result" where
  "prune_interval poll =
     (if poll = 0 then Inl (ZeroDivisionError ''integer division or modulo by zero'') else Inr (max 1 (900 div poll)))"

definition build_federation :: "'w Outside \<Rightarrow> Federation option result" where
  "build_federation o' =
     bind_result (load_federation (o_str o') (o_file o')) (\<lambda>(cfg, _).
       let token = strip (getenv (o_env o') ''RORCH_PEER_TOKEN'' [])
       in Inr (if token = [] then None else Some (new_federation cfg token)))"

text \<open>The pools of the configuration file; the model stops at a value of another type than its field.\<close>

definition typed_pools :: "LoadedPool list \<Rightarrow> PoolConfig list result" where
  "typed_pools = map_result (\<lambda>l. case typed_pool l of
     None \<Rightarrow> Inl (TypeError ''a field of a pool has another type'') | Some p \<Rightarrow> Inr p)"

section \<open>Startup\<close>

definition new_resolver :: "'w Outside \<Rightarrow> PoolConfig list \<Rightarrow> int \<Rightarrow> int \<Rightarrow> Resolver" where
  "new_resolver o' ps cap lifetime =
     \<lparr>base_pools = ps, base_max_total = cap, base_max_lifetime = lifetime, environ = o_env o', str_rp = o_str o'\<rparr>"

definition new_clients :: "int \<Rightarrow> 'w \<Rightarrow> 'w ForgeClients" where
  "new_clients reserve w = \<lparr>fc_github = new_github_client w, fc_gitea = [], fc_reserve = reserve, fc_world = w\<rparr>"

definition new_brain :: "int \<Rightarrow> int \<Rightarrow> 'w Store option \<Rightarrow> Federation option \<Rightarrow> 'w \<Rightarrow> 'w Brain" where
  "new_brain cap reserve so fed w =
     (new_scaler cap \<lparr>build_retry_at = [], d_world = \<lparr>sh_store = so, sh_forge = new_clients reserve w, sh_world = w\<rparr>\<rparr>)
       \<lparr>federation := fed\<rparr>"

definition open_configured :: "'w Outside \<Rightarrow> ('w, 'w Store option) eff" where
  "open_configured o' =
     (if lower (getenv (o_env o') ''RORCH_DB'' []) = ''off'' then ret None
      else open_store (o_store o') (db_url (o_env o') (o_app_dir o')) 60)"

definition build_runtime :: "'w Outside \<Rightarrow> ('w, Runtime \<times> 'w Brain) eff" where
  "build_runtime o' =
     (let env = o_env o'; file' = o_file o'
      in andThen (lift_result (int_env env ''POLL_INTERVAL'' ''15'')) (\<lambda>poll.
         andThen (lift_result (bind_result (load_config (o_str o') env file') typed_pools)) (\<lambda>ps.
         andThen (lift_result (validate_pools ps)) (\<lambda>_.
         andThen (lift_result (load_max_total_runners env file')) (\<lambda>cap.
         andThen (lift_result (load_max_runner_lifetime env file')) (\<lambda>lifetime.
         andThen (lift_result (int_env env ''HISTORY_RETENTION_DAYS'' ''14'')) (\<lambda>days.
         andThen (open_configured o') (\<lambda>so.
         andThen (lift_result (int_env env ''GITHUB_RATE_LIMIT_RESERVE'' ''100'')) (\<lambda>reserve.
         andThen (lift_result (build_federation o')) (\<lambda>fed.
         andThen (lift_result (prune_interval poll)) (\<lambda>every.
         andThen (lift_result (load_ci_container_max_age env file')) (\<lambda>ci_age.
         andThen (lift_result (load_ci_container_patterns (o_str o') env file')) (\<lambda>patterns.
         andThen (read_state (\<lambda>w. w)) (\<lambda>w.
           ret (\<lparr>rt_pools = ps, rt_poll = poll, rt_prune_every = every, rt_retention_days = days,
              rt_rate_limit_reserve = max 0 reserve,
              rt_github_concurrency = bounded_env env ''GITHUB_MAX_CONCURRENT_REQUESTS'' DEFAULT_MAX_CONCURRENT_REQUESTS 1 32,
              rt_pool_tick_workers = bounded_env env ''POOL_TICK_WORKERS'' (max DEFAULT_POOL_TICK_WORKERS (int (length ps))) 1 64,
              rt_max_total_runners = cap, rt_max_runner_lifetime = lifetime, rt_ci_container_max_age = ci_age,
              rt_ci_container_patterns = patterns, rt_stored = (so \<noteq> None),
              rt_resolver = new_resolver o' ps cap lifetime\<rparr>,
             new_brain cap (max 0 reserve) so fed w)))))))))))))))"

section \<open>Jobs\<close>

datatype job = PoolTick PoolConfig PoolState | Cleanup EffectiveConfig | Housekeeping

definition on_docker_client :: "('w Core, 'a) eff \<Rightarrow> ('w Brain, 'a) eff" where
  "on_docker_client = on_world"

definition cleanup_with :: "'w DockerEnv \<Rightarrow> EffectiveConfig \<Rightarrow> ('w DockerClient, unit) eff" where
  "cleanup_with e c =
     andThen (swallow (cleanup_aged e GLOBAL_CONTAINER_PREFIX (eff_max_runner_lifetime c)
       (insert ORCHESTRATOR_CONTAINER (eff_protected c)))) (\<lambda>_.
     swallow (prune_networks e ''30m''))"

definition cleanup :: "'w Outside \<Rightarrow> EffectiveConfig \<Rightarrow> ('w Brain, unit) eff" where
  "cleanup o' c = on_docker_client (cleanup_with (docker_env o') c)"

definition wall_time :: "'w Outside \<Rightarrow> ('w Brain, rat) eff" where
  "wall_time o' = on_shared (on_outside (wall_clock_op (o_runtime o')))"

definition housekeeping :: "'w Outside \<Rightarrow> Runtime \<Rightarrow> ('w Brain, unit) eff" where
  "housekeeping o' rt =
     (let e = docker_env o'
      in andThen (swallow (andThen (wall_time o') (\<lambda>now. on_docker_client
           (cleanup_ci_containers e (rt_ci_container_max_age rt) (rt_ci_container_patterns rt) now)))) (\<lambda>_.
         andThen (swallow (andThen (on_docker_client (prune_images e ''24h'' True)) (\<lambda>_.
           andThen (on_docker_client (prune_build_cache e ''24h'')) (\<lambda>_.
           andThen (wall_time o') (\<lambda>now. on_docker_client (prune_volumes e now 5)))))) (\<lambda>_.
         swallow (on_shared (on_saved (if_stored ()
           (andThen (store_prune (o_store o') (rt_retention_days rt)) (\<lambda>_. prune_idempotency (o_store o') 24))))))))"

fun run_job :: "'w Outside \<Rightarrow> Runtime \<Rightarrow> job \<Rightarrow> ('w Brain, unit) eff" where
  "run_job o' rt (PoolTick p state) = tick (ports o' (rt_stored rt)) p state"
| "run_job o' rt (Cleanup c) = cleanup o' c"
| "run_job o' rt Housekeeping = housekeeping o' rt"

section \<open>The process\<close>

record 'w Daemon =
  dm_scaler :: "'w Brain"
  dm_pool_lanes :: Lanes
  dm_maintenance :: Lanes
  dm_pool_jobs :: "(nat, job) dict"
  dm_maintenance_jobs :: "(nat, job) dict"
  dm_ticks :: int

definition on_scaler :: "('w Brain, 'a) eff \<Rightarrow> ('w Daemon, 'a) eff" where
  "on_scaler m s = (case m (dm_scaler s) of (r, b) \<Rightarrow> (r, s\<lparr>dm_scaler := b\<rparr>))"

definition mono_time :: "'w Outside \<Rightarrow> ('w Daemon, rat) eff" where
  "mono_time o' = on_scaler (on_shared (on_outside (monotonic_op (o_runtime o'))))"

text \<open>\<open>lanes.submit(lane, job)\<close>: a job that is started is kept under the number of its future.\<close>

definition submit_job :: "rat \<Rightarrow> string \<Rightarrow> job \<Rightarrow> (Lanes \<times> (nat, job) dict, unit) eff" where
  "submit_job now lane j = (\<lambda>(l, jobs).
     case lane_submit now lane l of
       (Inl err, l') \<Rightarrow> (Inl err, l', jobs)
     | (Inr reply, l') \<Rightarrow> (Inr (), l', if started reply then dict_set (next_future l) j jobs else jobs))"

definition submit_pool_job :: "'w Outside \<Rightarrow> string \<Rightarrow> job \<Rightarrow> ('w Daemon, unit) eff" where
  "submit_pool_job o' lane j =
     andThen (mono_time o') (\<lambda>now s.
       case submit_job now lane j (dm_pool_lanes s, dm_pool_jobs s) of
         (r, l, jobs) \<Rightarrow> (r, s\<lparr>dm_pool_lanes := l, dm_pool_jobs := jobs\<rparr>))"

definition submit_maintenance :: "'w Outside \<Rightarrow> string \<Rightarrow> job \<Rightarrow> ('w Daemon, unit) eff" where
  "submit_maintenance o' lane j =
     andThen (mono_time o') (\<lambda>now s.
       case submit_job now lane j (dm_maintenance s, dm_maintenance_jobs s) of
         (r, l, jobs) \<Rightarrow> (r, s\<lparr>dm_maintenance := l, dm_maintenance_jobs := jobs\<rparr>))"

definition submit_pool_ticks :: "'w Outside \<Rightarrow> EffectiveConfig \<Rightarrow> ('w Daemon, unit) eff" where
  "submit_pool_ticks o' c =
     andThen (each (\<lambda>p. submit_pool_job o' (pool_name p) (PoolTick p (state_for c (pool_name p)))) (eff_pools c)) (\<lambda>_.
       update_state (\<lambda>s. s\<lparr>dm_pool_lanes := forget_except (map pool_name (eff_pools c)) (dm_pool_lanes s)\<rparr>))"

section \<open>Federation\<close>

definition change_federation :: "(Federation \<Rightarrow> Federation) \<Rightarrow> ('w Brain, unit) eff" where
  "change_federation f = update_state (\<lambda>s. s\<lparr>federation := map_option f (federation s)\<rparr>)"

text \<open>\<open>federation.refresh(own)\<close>: the clock is read for the peers that answered.\<close>

definition refresh_one_peer :: "'w Outside \<Rightarrow> string \<Rightarrow> PeerConfig \<Rightarrow> ('w Brain, unit) eff" where
  "refresh_one_peer o' token peer =
     andThen (attempt (on_shared (on_outside (fetch_snapshot (o_peer o') (peer_url peer) token)))) (\<lambda>response.
     andThen (if isl (bind_result response (validate_snapshot (o_str o'))) then ret 0
              else on_shared (on_outside (monotonic_op (o_runtime o')))) (\<lambda>now.
       change_federation (refresh_peer (o_str o') peer response now)))"

definition federation_refresh :: "'w Outside \<Rightarrow> Federation \<Rightarrow> Snapshot \<Rightarrow> ('w Brain, unit) eff" where
  "federation_refresh o' f own =
     andThen (change_federation (\<lambda>f. f\<lparr>fed_own := Some own\<rparr>)) (\<lambda>_.
       each (refresh_one_peer o' (fed_token f)) (fed_peers (fed_config f)))"

definition snapshot_counts :: "EffectiveConfig \<Rightarrow> (string, PoolCounts) dict \<Rightarrow> (string, PoolCounts) dict" where
  "snapshot_counts c counts =
     fold (\<lambda>p d. if is_personal_level p then d
            else (case map_of counts (pool_name p) of None \<Rightarrow> d | Some n \<Rightarrow> dict_set (pool_name p) n d)) (eff_pools c) []"

definition global_free :: "'w Outside \<Rightarrow> EffectiveConfig \<Rightarrow> ('w Brain, int option) eff" where
  "global_free o' c =
     (if eff_max_total_runners c = 0 then ret None
      else andThen (on_docker_client (running_containers (docker_env o') GLOBAL_CONTAINER_PREFIX)) (\<lambda>names.
        ret (Some (max 0 (eff_max_total_runners c - int (length names))))))"

definition refresh_federation :: "'w Outside \<Rightarrow> Runtime \<Rightarrow> EffectiveConfig \<Rightarrow> ('w Brain, unit) eff" where
  "refresh_federation o' rt c =
     andThen (read_state federation) (\<lambda>fed.
       case fed of
         None \<Rightarrow> ret ()
       | Some f \<Rightarrow>
           andThen (read_state pool_counts) (\<lambda>counts.
           andThen (global_free o' c) (\<lambda>free.
           andThen (on_shared (on_outside (o_host o'))) (\<lambda>metrics.
           andThen (wall_time o') (\<lambda>now.
           andThen (lift_result (build_snapshot (case rt_pools rt of [] \<Rightarrow> [] | p # _ \<Rightarrow> pool_instance p)
                (release (o_docker o')) metrics (snapshot_counts c counts) free now)) (\<lambda>own.
             federation_refresh o' f own))))))"

section \<open>The main loop\<close>

definition daemon_resolve :: "'w Outside \<Rightarrow> Runtime \<Rightarrow> ('w Brain, EffectiveConfig) eff" where
  "daemon_resolve o' rt = on_shared (on_saved (resolve (o_store o') (rt_resolver rt)))"

definition main_tick :: "'w Outside \<Rightarrow> Runtime \<Rightarrow> ('w Daemon, unit) eff" where
  "main_tick o' rt =
     andThen (on_scaler (daemon_resolve o' rt)) (\<lambda>c.
     andThen (on_scaler (swallow (refresh_federation o' rt c))) (\<lambda>_.
     andThen (on_scaler (update_state (set_max_total_runners (eff_max_total_runners c)))) (\<lambda>_.
     andThen (if eff_paused c then ret () else submit_pool_ticks o' c) (\<lambda>_.
       submit_maintenance o' CLEANUP_LANE (Cleanup c)))))"

text \<open>One turn of the loop.\<close>

definition main_turn :: "'w Outside \<Rightarrow> Runtime \<Rightarrow> ('w Daemon, unit) eff" where
  "main_turn o' rt =
     andThen (main_tick o' rt) (\<lambda>_.
     andThen (update_state (\<lambda>s. s\<lparr>dm_ticks := dm_ticks s + 1\<rparr>)) (\<lambda>_.
     andThen (read_state dm_ticks) (\<lambda>n.
       if n mod rt_prune_every rt = 0 then submit_maintenance o' HOUSEKEEPING_LANE Housekeeping else ret ())))"

definition shut_down :: "'w Daemon \<Rightarrow> 'w Daemon" where
  "shut_down s = s\<lparr>dm_pool_lanes := lane_shutdown (dm_pool_lanes s), dm_maintenance := lane_shutdown (dm_maintenance s)\<rparr>"

definition new_daemon :: "Runtime \<Rightarrow> 'w Brain \<Rightarrow> 'w Daemon" where
  "new_daemon rt b =
     \<lparr>dm_scaler = b, dm_pool_lanes = new_lanes (nat (rt_pool_tick_workers rt)), dm_maintenance = new_lanes 2,
      dm_pool_jobs = [], dm_maintenance_jobs = [], dm_ticks = 0\<rparr>"

text \<open>A worker ends the job of its task: what the job raises is swallowed.\<close>

definition finish :: "'w Outside \<Rightarrow> Runtime \<Rightarrow> job option \<Rightarrow> 'w Brain \<Rightarrow> 'w Brain" where
  "finish o' rt j b = (case j of None \<Rightarrow> b | Some job' \<Rightarrow> snd (run_job o' rt job' b))"

inductive daemon_step :: "'w Outside \<Rightarrow> Runtime \<Rightarrow> 'w Daemon \<Rightarrow> 'w Daemon \<Rightarrow> bool" for o' rt where
  turns: "main_turn o' rt s = (r, s') \<Longrightarrow> daemon_step o' rt s s'"
| pool_starts: "take_job (dm_pool_lanes s) = Some l \<Longrightarrow> daemon_step o' rt s (s\<lparr>dm_pool_lanes := l\<rparr>)"
| pool_ends: "end_job t (dm_pool_lanes s) = Some l \<Longrightarrow>
    daemon_step o' rt s (s\<lparr>dm_pool_lanes := l, dm_scaler := finish o' rt (map_of (dm_pool_jobs s) (tk_future t)) (dm_scaler s)\<rparr>)"
| upkeep_starts: "take_job (dm_maintenance s) = Some l \<Longrightarrow> daemon_step o' rt s (s\<lparr>dm_maintenance := l\<rparr>)"
| upkeep_ends: "end_job t (dm_maintenance s) = Some l \<Longrightarrow>
    daemon_step o' rt s (s\<lparr>dm_maintenance := l,
      dm_scaler := finish o' rt (map_of (dm_maintenance_jobs s) (tk_future t)) (dm_scaler s)\<rparr>)"
| dashboard: "daemon_step o' rt s (s\<lparr>dm_scaler := (dm_scaler s)\<lparr>world := w\<rparr>\<rparr>)"
| stops: "daemon_step o' rt s (shut_down s)"

inductive_cases daemon_stepE: "daemon_step o' rt s s'"

end
