(* ===== verification/Auth.thy ===== *)
theory Auth
  imports Resolver Scaler DockerClient Exclusive
begin

text \<open>
  \<open>orchestrator/rorch/server/deps.py\<close> and \<open>auth.py\<close>: what every request handler reaches for,
  who a request is from and what it may do, and the replay of retried control actions.

  Flask and waitress are not under the source tree: a request is the record \<open>Request\<close> of what
  the handlers read from it (headers and query arguments by name, the parsed JSON body or
  \<open>None\<close>), a response the record \<open>Response\<close>, and \<open>body_text\<close> is what Flask makes of a body.
  The Docker client is the record \<open>ServerDocker\<close>; its calls may record events, so they act on
  the store as well as on the world. Characters are single bytes; those from 128 on stand for
  what Python calls non-ASCII.

  A handler is an action on \<open>Web\<close>: the store, the failure counters of \<open>TokenGuard\<close> and the
  keys of \<open>InFlightKeys\<close>. A handler that raises is answered with an error 500 by Flask; here
  the exception is the result. Handlers run one after the other in this theory; how the
  requests that share an idempotency key interleave is the step relation of \<open>Replay\<close>.
\<close>

section \<open>Requests and responses\<close>

record Request =
  rq_method :: string
  rq_path :: string
  rq_header :: "string \<Rightarrow> string option"
  rq_arg :: "string \<Rightarrow> string option"
  rq_cookie :: "string \<Rightarrow> string option"
  rq_remote :: "string option"
  rq_json :: pyval

datatype body = Json fields | PlainText string

record Response =
  rsp_status :: int
  rsp_body :: body
  rsp_type :: string
  rsp_headers :: "(string \<times> string) list"

definition respond :: "int \<Rightarrow> fields \<Rightarrow> Response" where
  "respond status d = \<lparr>rsp_status = status, rsp_body = Json d, rsp_type = ''application/json'', rsp_headers = []\<rparr>"

definition failure :: "int \<Rightarrow> string \<Rightarrow> Response" where
  "failure status m = respond status [(''error'', PStr m)]"

definition or_empty :: "string option \<Rightarrow> string" where
  "or_empty x = (case x of None \<Rightarrow> [] | Some s \<Rightarrow> s)"

section \<open>The wired dependencies\<close>

record 'w ServerDocker =
  sd_spawn :: "PoolConfig \<Rightarrow> ('w, bool) db"
  sd_stop :: "string \<Rightarrow> ('w, bool) db"
  sd_details :: "string \<Rightarrow> ('w, ContainerInfo list) db"
  sd_logs :: "string \<Rightarrow> int \<Rightarrow> ('w, string) db"

record 'w Deps =
  d_store :: "'w StoreEnv"
  d_resolver :: Resolver
  d_docker :: "'w ServerDocker"
  d_token :: string
  d_readonly :: string
  rate_limit_op :: "('w, pyval) db"
  host_state_op :: "('w, fields) db"
  body_text :: "body \<Rightarrow> string"

record 'w Web =
  w_store :: "'w Store"
  guard_failures :: "(string, int \<times> rat) dict"
  in_flight :: "string list"

type_synonym ('w, 'a) web = "('w Web, 'a) eff"

definition on_store :: "('w, 'a) db \<Rightarrow> ('w, 'a) web" where
  "on_store m s = (case m (w_store s) of (r, st) \<Rightarrow> (r, s\<lparr>w_store := st\<rparr>))"

definition web_time :: "'w Deps \<Rightarrow> ('w, rat) web" where
  "web_time d = on_store (store_now (d_store d))"

section \<open>Token guard\<close>

definition MAX_TOKEN_FAILURES :: int where "MAX_TOKEN_FAILURES = 10"
definition LOCKOUT_SECONDS :: rat where "LOCKOUT_SECONDS = 300"

definition locked_until :: "'w Deps \<Rightarrow> string \<Rightarrow> ('w, rat) web" where
  "locked_until d client =
     andThen (read_state (\<lambda>s. dict_get (guard_failures s) client (0, 0))) (\<lambda>(count, last).
       if count < MAX_TOKEN_FAILURES then ret 0
       else andThen (web_time d) (\<lambda>now.
         if last + LOCKOUT_SECONDS \<le> now
         then andThen (update_state (\<lambda>s. s\<lparr>guard_failures := dict_del client (guard_failures s)\<rparr>)) (\<lambda>_. ret 0)
         else ret (last + LOCKOUT_SECONDS)))"

definition record_failure :: "'w Deps \<Rightarrow> string \<Rightarrow> ('w, unit) web" where
  "record_failure d client =
     andThen (read_state (\<lambda>s. fst (dict_get (guard_failures s) client (0, 0)))) (\<lambda>count.
     andThen (web_time d) (\<lambda>now.
       update_state (\<lambda>s. s\<lparr>guard_failures := dict_set client (count + 1, now) (guard_failures s)\<rparr>)))"

definition record_success :: "string \<Rightarrow> ('w, unit) web" where
  "record_success client = update_state (\<lambda>s. s\<lparr>guard_failures := dict_del client (guard_failures s)\<rparr>)"

section \<open>Keys in flight\<close>

definition claim_key :: "string \<Rightarrow> ('w, bool) web" where
  "claim_key k =
     andThen (read_state in_flight) (\<lambda>ks.
       if k \<in> set ks then ret False
       else andThen (update_state (\<lambda>s. s\<lparr>in_flight := k # in_flight s\<rparr>)) (\<lambda>_. ret True))"

definition release_key :: "string \<Rightarrow> 'w Web \<Rightarrow> 'w Web" where
  "release_key k s = s\<lparr>in_flight := removeAll k (in_flight s)\<rparr>"

section \<open>Request helpers\<close>

definition actor_of :: "Request \<Rightarrow> string" where
  "actor_of rq =
     (case rq_header rq ''X-Actor'' of
        Some a \<Rightarrow> a
      | None \<Rightarrow> (case rq_remote rq of Some a \<Rightarrow> if a = [] then ''unknown'' else a | None \<Rightarrow> ''unknown''))"

definition client_of :: "Request \<Rightarrow> string" where
  "client_of rq = (case rq_remote rq of Some a \<Rightarrow> if a = [] then ''unknown'' else a | None \<Rightarrow> ''unknown'')"

definition json_body :: "Request \<Rightarrow> fields" where
  "json_body rq = dict_items (rq_json rq)"

definition limit_arg :: "Request \<Rightarrow> int \<Rightarrow> string \<Rightarrow> int" where
  "limit_arg rq dflt param =
     (case rq_arg rq param of
        None \<Rightarrow> max 1 (min dflt 5000)
      | Some raw \<Rightarrow> (case py_int raw of None \<Rightarrow> dflt | Some n \<Rightarrow> max 1 (min n 5000)))"

definition pool_by_name :: "'w Deps \<Rightarrow> string \<Rightarrow> ('w, PoolConfig option) web" where
  "pool_by_name d name =
     andThen (on_store (resolve_store (d_store d) (d_resolver d))) (\<lambda>c.
       ret (find (\<lambda>p. pool_name p = name) (eff_pools c)))"

definition is_runner_container :: "string \<Rightarrow> bool" where
  "is_runner_container name \<longleftrightarrow>
     starts_with name (GLOBAL_CONTAINER_PREFIX @ ''-'') \<and> name \<noteq> ORCHESTRATOR_CONTAINER \<and>
     CHR ''/'' \<notin> set name \<and> \<not> contains name ''..''"

section \<open>Shared by the endpoints\<close>

definition on_docker :: "('w, 'a) db \<Rightarrow> ('w, 'a) web" where
  "on_docker = on_store"

definition ok_response :: "fields \<Rightarrow> Response" where
  "ok_response d = respond 200 d"

definition web_resolve :: "'w Deps \<Rightarrow> ('w, EffectiveConfig) web" where
  "web_resolve d = on_store (resolve_store (d_store d) (d_resolver d))"

definition web_overrides :: "'w Deps \<Rightarrow> ('w, (string, PoolOverride) dict) web" where
  "web_overrides d = on_store (pool_overrides (d_store d))"

definition str_of :: "'w Deps \<Rightarrow> pyval \<Rightarrow> string" where
  "str_of d v = py_str_of (str_rp (d_resolver d)) v"

definition globals_response :: "EffectiveConfig \<Rightarrow> fields" where
  "globals_response c =
     [(''max_total_runners'', PInt (eff_max_total_runners c)), (''max_runner_lifetime'', PInt (eff_max_runner_lifetime c)),
      (''paused'', PBool (eff_paused c))]"

section \<open>Who may do what\<close>

definition AUTH_COOKIE :: string where "AUTH_COOKIE = ''rorch_token''"
definition LOOPBACK_BINDS :: "string list" where "LOOPBACK_BINDS = [''127.0.0.1'', ''localhost'', ''::1'']"
definition TOKEN_KEY :: string where "TOKEN_KEY = ''api_token''"

definition supplied_token :: "Request \<Rightarrow> string" where
  "supplied_token rq =
     (let header = or_empty (rq_header rq ''Authorization'')
      in if starts_with header ''Bearer '' then drop 7 header
         else let arg = or_empty (rq_arg rq ''token'')
              in if arg \<noteq> [] then arg else or_empty (rq_cookie rq AUTH_COOKIE))"

datatype scope = Write | Read

definition same_token :: "string \<Rightarrow> string \<Rightarrow> bool result" where
  "same_token supplied token = (if token = [] then Inr False else compare_digest supplied token)"

definition scope_of :: "'w Deps \<Rightarrow> string \<Rightarrow> scope option result" where
  "scope_of d supplied =
     (if d_token d = [] \<and> d_readonly d = [] then Inr (Some Write)
      else bind_result (same_token supplied (d_token d)) (\<lambda>write.
        if write then Inr (Some Write)
        else bind_result (same_token supplied (d_readonly d)) (\<lambda>read.
          Inr (if read then Some Read else None))))"

definition too_many_attempts :: "int \<Rightarrow> Response" where
  "too_many_attempts retry_after =
     (failure 429 ''too many failed attempts'')\<lparr>rsp_headers := [(''Retry-After'', show_int retry_after)]\<rparr>"

text \<open>\<open>None\<close> when the request may proceed.\<close>

definition authorize :: "'w Deps \<Rightarrow> Request \<Rightarrow> bool \<Rightarrow> ('w, Response option) web" where
  "authorize d rq write =
     (let client = client_of rq
      in andThen (locked_until d client) (\<lambda>locked.
         if locked \<noteq> 0
         then andThen (web_time d) (\<lambda>now. ret (Some (too_many_attempts (max 1 (trunc_rat (locked - now))))))
         else andThen (lift_result (scope_of d (supplied_token rq))) (\<lambda>scope.
           case scope of
             None \<Rightarrow> andThen (record_failure d client) (\<lambda>_. ret (Some (failure 401 ''unauthorized'')))
           | Some sc \<Rightarrow> andThen (record_success client) (\<lambda>_.
               ret (if write \<and> sc \<noteq> Write
                    then Some (failure 403 ''read-only token: this action requires the control token'') else None)))))"

definition authorized :: "'w Deps \<Rightarrow> Request \<Rightarrow> bool \<Rightarrow> ('w, Response) web \<Rightarrow> ('w, Response) web" where
  "authorized d rq write view =
     andThen (authorize d rq write) (\<lambda>denied. case denied of Some r \<Rightarrow> ret r | None \<Rightarrow> view)"

definition require_auth :: "'w Deps \<Rightarrow> Request \<Rightarrow> ('w, Response) web \<Rightarrow> ('w, Response) web" where
  "require_auth d rq view = authorized d rq False view"

definition require_write :: "'w Deps \<Rightarrow> Request \<Rightarrow> ('w, Response) web \<Rightarrow> ('w, Response) web" where
  "require_write d rq view = authorized d rq True view"

section \<open>Replay\<close>

definition scoped_key :: "Request \<Rightarrow> string \<Rightarrow> string" where
  "scoped_key rq key = rq_method rq @ '':'' @ rq_path rq @ '':'' @ key"

definition replayed :: "string \<Rightarrow> Response" where
  "replayed cached =
     \<lparr>rsp_status = 200, rsp_body = PlainText cached, rsp_type = ''application/json'',
      rsp_headers = [(''Idempotency-Replayed'', ''true'')]\<rparr>"

definition in_progress :: Response where
  "in_progress = failure 409 ''a request with this Idempotency-Key is in progress''"

definition run_and_remember :: "'w Deps \<Rightarrow> string \<Rightarrow> ('w, Response) web \<Rightarrow> ('w, Response) web" where
  "run_and_remember d scoped view =
     andThen view (\<lambda>r.
       if 200 \<le> rsp_status r \<and> rsp_status r < 300
       then andThen (on_store (remember_response (d_store d) scoped (body_text d (rsp_body r)))) (\<lambda>_. ret r)
       else ret r)"

definition idempotent :: "'w Deps \<Rightarrow> Request \<Rightarrow> ('w, Response) web \<Rightarrow> ('w, Response) web" where
  "idempotent d rq view =
     (let key = or_empty (rq_header rq ''Idempotency-Key''); scoped = scoped_key rq key
      in if key = [] then view
         else andThen (claim_key scoped) (\<lambda>mine.
           if \<not> mine then ret in_progress
           else ensure
             (andThen (on_store (idempotent_response (d_store d) scoped)) (\<lambda>cached.
                case cached of Some text' \<Rightarrow> ret (replayed text') | None \<Rightarrow> run_and_remember d scoped view))
             (release_key scoped)))"

text \<open>\<open>serialized\<close> holds the configuration lock for the whole view: the view is one step.\<close>

definition serialized :: "('w, Response) web \<Rightarrow> ('w, Response) web" where
  "serialized view = view"

section \<open>Tokens\<close>

text \<open>\<open>token_urlsafe\<close> is the text \<open>secrets\<close> generated for this start.\<close>

definition resolve_token :: "'w StoreEnv \<Rightarrow> environ \<Rightarrow> string \<Rightarrow> ('w Store option, string) eff" where
  "resolve_token e env token_urlsafe so =
     (let token = strip (getenv env ''RORCH_API_TOKEN'' [])
      in if token \<noteq> [] then (Inr token, so)
         else if getenv env ''RORCH_API_HOST'' ''127.0.0.1'' \<in> set LOOPBACK_BINDS then (Inr [], so)
         else (case so of
                 None \<Rightarrow> (Inr token_urlsafe, None)
               | Some s \<Rightarrow>
                   (case andThen (global_overrides e) (\<lambda>g.
                      let existing = strip (dict_get g TOKEN_KEY [])
                      in if existing \<noteq> [] then ret existing
                         else andThen (set_global e TOKEN_KEY token_urlsafe) (\<lambda>_. ret token_urlsafe)) s of
                      (r, s') \<Rightarrow> (r, Some s'))))"

definition resolve_readonly_token :: "environ \<Rightarrow> string" where
  "resolve_readonly_token env = strip (getenv env ''RORCH_API_READONLY_TOKEN'' [])"

end
