(* ===== verification/Payloads.thy ===== *)
theory Payloads
  imports Auth
begin

text \<open>
  \<open>orchestrator/rorch/server/payloads.py\<close>: what \<open>/api/state\<close> and \<open>/metrics\<close> show, from the
  history in the store, the containers and the configuration in effect. A row of the store is a
  record there and a JSON object here. The version is an argument. \<open>round(x, 1)\<close> is rounding
  to the nearest tenth, ties to even.
\<close>

section \<open>Rows as JSON\<close>

definition seconds_value :: "rat \<Rightarrow> pyval" where
  "seconds_value r = PFloat (Fin r)"

definition COUNTERS :: "(string \<times> (TickSnapshot \<Rightarrow> int)) list" where
  "COUNTERS =
     [(''containers'', ts_containers), (''online'', ts_online), (''idle'', ts_idle), (''busy'', ts_busy), (''queued'', ts_queued)]"

definition counter_fields :: "((TickSnapshot \<Rightarrow> int) \<Rightarrow> int) \<Rightarrow> fields" where
  "counter_fields f = map (\<lambda>(k, g). (k, PInt (f g))) COUNTERS"

definition tick_fields :: "TickRow \<Rightarrow> fields" where
  "tick_fields r =
     [(''ts'', seconds_value (tr_ts r)), (''pool'', PStr (ts_pool (tr_tick r)))] @
     counter_fields (\<lambda>g. g (tr_tick r)) @ [(''duration'', seconds_value (ts_duration (tr_tick r)))]"

definition event_fields :: "EventRow \<Rightarrow> fields" where
  "event_fields r =
     [(''ts'', seconds_value (ev_ts r)), (''pool'', PStr (ev_pool r)), (''container'', PStr (ev_container r)),
      (''event'', PStr (ev_event r)), (''reason'', PStr (ev_reason r))]"

definition job_fields :: "int \<times> JobRow \<Rightarrow> fields" where
  "job_fields = (\<lambda>(i, r).
     [(''job_id'', PInt i), (''pool'', PStr (jr_pool r)), (''repo'', PStr (jr_repo r)), (''workflow'', PStr (jr_workflow r)),
      (''job_name'', PStr (jr_job_name r)), (''runner'', PStr (jr_runner r)), (''status'', PStr (jr_status r)),
      (''conclusion'', PStr (jr_conclusion r)), (''url'', PStr (jr_url r)), (''started_at'', PStr (jr_started_at r)),
      (''ts'', seconds_value (jr_ts r)),
      (''ended_ts'', (case jr_ended_ts r of None \<Rightarrow> PNone | Some t \<Rightarrow> seconds_value t))])"

definition running_job_fields :: "JobReport \<Rightarrow> fields" where
  "running_job_fields r =
     [(''runner'', PStr (rep_runner r)), (''repo'', PStr (rep_repo r)), (''workflow'', PStr (rep_workflow r)),
      (''job_name'', PStr (rep_job_name r)), (''url'', PStr (rep_url r))]"

definition status_fields :: "StatusView \<Rightarrow> fields" where
  "status_fields v = [(''pool'', PStr (sv_pool v)), (''status'', PStr (sv_status v)), (''busy'', PBool (sv_busy v))]"

section \<open>Pools and their repositories\<close>

type_synonym children = "(string, TickRow list) dict"

definition longest_first :: "string list \<Rightarrow> string list" where
  "longest_first = sort_key (\<lambda>n. - int (length n))"

definition parent_pool :: "string list \<Rightarrow> string \<Rightarrow> string option" where
  "parent_pool ordered key = find (\<lambda>name. starts_with key (name @ ''-'')) ordered"

definition attach :: "string list \<Rightarrow> string \<times> TickRow \<Rightarrow> children \<Rightarrow> children" where
  "attach ordered = (\<lambda>(key, snapshot) d.
     if map_of d key \<noteq> None then d
     else (case parent_pool ordered key of
             None \<Rightarrow> d
           | Some parent \<Rightarrow> dict_set parent (dict_get d parent [] @ [snapshot]) d))"

definition group_snapshots :: "string list \<Rightarrow> (string, TickRow) dict \<Rightarrow> children" where
  "group_snapshots pool_names snapshots =
     map (\<lambda>(k, rs). (k, sort_key (\<lambda>r. ts_pool (tr_tick r)) rs))
       (fold (attach (longest_first pool_names)) snapshots (fold (\<lambda>n. dict_set n []) pool_names []))"

definition max_of :: "rat list \<Rightarrow> rat" where
  "max_of xs = (case xs of [] \<Rightarrow> 0 | x # t \<Rightarrow> fold max t x)"

definition rollup :: "TickRow option \<Rightarrow> TickRow list \<Rightarrow> fields" where
  "rollup own kids =
     (case own of
        Some r \<Rightarrow> counter_fields (\<lambda>g. g (tr_tick r)) @
          [(''duration'', seconds_value (ts_duration (tr_tick r))), (''last_tick'', seconds_value (tr_ts r))]
      | None \<Rightarrow> counter_fields (\<lambda>g. sum_list (map (\<lambda>r. g (tr_tick r)) kids)) @
          [(''duration'', seconds_value (max_of (map (\<lambda>r. ts_duration (tr_tick r)) kids))),
           (''last_tick'', seconds_value (max_of (map tr_ts kids)))])"

section \<open>The state\<close>

definition round_half_even :: "rat \<Rightarrow> int" where
  "round_half_even r =
     (let n = \<lfloor>r\<rfloor>; d = r - of_int n
      in if d < 1 / 2 \<or> (d = 1 / 2 \<and> even n) then n else n + 1)"

fun round_tenth :: "pyfloat \<Rightarrow> pyfloat" where
  "round_tenth (Fin r) = Fin (of_int (round_half_even (10 * r)) / 10)"
| "round_tenth f = f"

definition repo_payload :: "TickRow \<Rightarrow> fields" where
  "repo_payload r = counter_fields (\<lambda>g. g (tr_tick r)) @ [(''name'', PStr (ts_pool (tr_tick r)))]"

definition is_quiet :: "TickRow \<Rightarrow> bool" where
  "is_quiet r = list_all (\<lambda>(_, g). g (tr_tick r) = 0) COUNTERS"

definition pool_payload :: "EffectiveConfig \<Rightarrow> (string, TickRow) dict \<Rightarrow> children \<Rightarrow> PoolConfig \<Rightarrow> fields" where
  "pool_payload c snapshots groups p =
     (let kids = dict_get groups (pool_name p) []; st = state_for c (pool_name p)
      in [(''config'', PDict (pool_to_dict p)), (''paused'', PBool (st_paused st)), (''draining'', PBool (st_draining st))] @
         rollup (map_of snapshots (pool_name p)) kids @
         [(''repos'', PList (map (\<lambda>r. PDict (repo_payload r)) (filter (\<lambda>r. \<not> is_quiet r) kids))),
          (''repo_count'', PInt (int (length kids)))])"

definition container_payload ::
  "EffectiveConfig \<Rightarrow> (string, StatusView) dict \<Rightarrow> (string, JobReport) dict \<Rightarrow> ContainerInfo \<Rightarrow> fields" where
  "container_payload c status running i =
     [(''name'', PStr (ci_name i)), (''image'', PStr (ci_image i)), (''status'', PStr (ci_status i)),
      (''running_for'', PStr (ci_running_for i)), (''minutes'', PFloat (round_tenth (ci_minutes i))),
      (''protected'', PBool (ci_name i \<in> eff_protected c)),
      (''github'', PDict (case map_of status (ci_name i) of None \<Rightarrow> [] | Some v \<Rightarrow> status_fields v)),
      (''job'', (case map_of running (ci_name i) of None \<Rightarrow> PNone | Some r \<Rightarrow> PDict (running_job_fields r)))]"

definition state_payload :: "'w Deps \<Rightarrow> string \<Rightarrow> ('w, fields) web" where
  "state_payload d version =
     andThen (web_resolve d) (\<lambda>c.
     andThen (on_store (latest_snapshots (d_store d))) (\<lambda>snapshots.
     andThen (on_store (runner_status_view (d_store d))) (\<lambda>status.
     andThen (on_docker (sd_details (d_docker d) GLOBAL_CONTAINER_PREFIX)) (\<lambda>containers.
       let runners = filter (\<lambda>i. ci_name i \<noteq> ORCHESTRATOR_CONTAINER) containers;
           groups = group_snapshots (map pool_name (eff_pools c)) snapshots
       in andThen (on_store (jobs_by_runner (d_store d))) (\<lambda>running.
          andThen (on_store (recent_jobs (d_store d) 25)) (\<lambda>jobs.
          andThen (on_store (rate_limit_op d)) (\<lambda>rate.
          andThen (on_store (recent_events (d_store d) 25)) (\<lambda>events.
          andThen (on_store (host_state_op d)) (\<lambda>host.
          andThen (web_time d) (\<lambda>now.
            ret (dict_set ''ts'' (seconds_value now) (dict_update host
              [(''pools'', PList (map (\<lambda>p. PDict (pool_payload c snapshots groups p)) (eff_pools c))),
               (''containers'', PList (map (\<lambda>i. PDict (container_payload c status running i)) runners)),
               (''jobs'', PList (map (\<lambda>j. PDict (job_fields j)) jobs)),
               (''version'', PStr version),
               (''globals'', PDict (globals_response c @ [(''total_containers'', PInt (int (length runners)))])),
               (''rate_limit'', rate),
               (''events'', PList (map (\<lambda>e. PDict (event_fields e)) events))]))))))))))))"

section \<open>Metrics\<close>

definition METRICS :: "(string \<times> (TickSnapshot \<Rightarrow> int) \<times> string) list" where
  "METRICS =
     [(''containers'', ts_containers, ''Runner containers currently running.''),
      (''online'', ts_online, ''Runners GitHub reports online.''),
      (''idle'', ts_idle, ''Online runners not executing a job.''),
      (''busy'', ts_busy, ''Online runners executing a job.''),
      (''queued'', ts_queued, ''Queued jobs waiting for a runner.'')]"

definition metric_header :: "string \<Rightarrow> string \<Rightarrow> string list" where
  "metric_header name help = [''# HELP '' @ name @ '' '' @ help, ''# TYPE '' @ name @ '' gauge'']"

definition labelled :: "string \<Rightarrow> string \<Rightarrow> string \<Rightarrow> string \<Rightarrow> string" where
  "labelled name label v sample = name @ ''{'' @ label @ ''='' @ [quote_char] @ v @ [quote_char] @ ''} '' @ sample"

definition snapshot_count :: "(string, TickRow) dict \<Rightarrow> (TickSnapshot \<Rightarrow> int) \<Rightarrow> string \<Rightarrow> int" where
  "snapshot_count snapshots g key = (case map_of snapshots key of None \<Rightarrow> 0 | Some r \<Rightarrow> g (tr_tick r))"

definition prometheus_lines ::
  "EffectiveConfig \<Rightarrow> (string, TickRow) dict \<Rightarrow> (string, int) dict \<Rightarrow> string option \<Rightarrow> string list" where
  "prometheus_lines c snapshots counts remaining =
     (let keys = (if snapshots \<noteq> [] then sort (map fst snapshots) else map pool_name (eff_pools c))
      in concat (map (\<lambda>(metric, g, help). metric_header (''rorch_pool_'' @ metric) help @
           map (\<lambda>key. labelled (''rorch_pool_'' @ metric) ''pool'' key (show_int (snapshot_count snapshots g key))) keys) METRICS) @
         metric_header ''rorch_events_24h'' ''Runner lifecycle events in the last 24 hours.'' @
         map (\<lambda>(event, n). labelled ''rorch_events_24h'' ''event'' event (show_int n)) (sort_key fst counts) @
         metric_header ''rorch_max_total_runners'' ''Global ceiling (0 = unlimited).'' @
         [''rorch_max_total_runners '' @ show_int (eff_max_total_runners c)] @
         metric_header ''rorch_paused'' ''Whether all provisioning is paused.'' @
         [''rorch_paused '' @ (if eff_paused c then ''1'' else ''0'')] @
         (case remaining of
            None \<Rightarrow> []
          | Some n \<Rightarrow> metric_header ''rorch_github_rate_remaining'' ''Last seen GitHub API budget.'' @
              [''rorch_github_rate_remaining '' @ n]))"

definition prometheus :: "'w Deps \<Rightarrow> ('w, string) web" where
  "prometheus d =
     andThen (web_resolve d) (\<lambda>c.
     andThen (on_store (latest_snapshots (d_store d))) (\<lambda>snapshots.
     andThen (on_store (event_counts_since (d_store d) 24)) (\<lambda>counts.
     andThen (on_store (rate_limit_op d)) (\<lambda>rate.
       let remaining = pget (dict_items rate) ''remaining'' PNone
       in ret (join [newline] (prometheus_lines c snapshots counts
            (if remaining = PNone then None else Some (str_of d remaining))) @ [newline])))))"

end
