(* ===== verification/Control.thy ===== *)
theory Control
  imports Auth
begin

text \<open>
  \<open>orchestrator/rorch/server/control_routes.py\<close>: the endpoints that change something. Each
  route is the view inside its decorators, in their order. A value of a request body is any JSON
  value; \<open>bool\<close>, \<open>int\<close> and \<open>str\<close> of it are those of \<open>PyVal\<close>. A stored override whose data is
  a list of pairs or a string, which the API never writes, makes \<open>dict(...)\<close> raise here
  unless it is empty. The dash of one message is written as a colon.
\<close>

section \<open>Helpers\<close>

definition bool_text :: "bool \<Rightarrow> string" where
  "bool_text b = (if b then ''True'' else ''False'')"

definition web_audit :: "'w Deps \<Rightarrow> Request \<Rightarrow> string \<Rightarrow> string \<Rightarrow> string \<Rightarrow> ('w, unit) web" where
  "web_audit d rq action target detail = on_store (store_audit (d_store d) (actor_of rq) action target detail)"

definition body_json :: "'w Deps \<Rightarrow> fields \<Rightarrow> string" where
  "body_json d b = dumps (float_repr (d_store d)) (PDict b)"

fun dict_of :: "pyval \<Rightarrow> fields result" where
  "dict_of (PDict d) = Inr d"
| "dict_of (PList []) = Inr []"
| "dict_of (PStr []) = Inr []"
| "dict_of _ = Inl (TypeError ''cannot convert to a dict'')"

definition unknown_pool :: "string \<Rightarrow> Response" where
  "unknown_pool name = failure 404 (''unknown pool '' @ quoted name)"

section \<open>Containers\<close>

definition busy_runner :: "(string, StatusView) dict \<Rightarrow> string \<Rightarrow> bool" where
  "busy_runner status name = (case map_of status name of None \<Rightarrow> False | Some v \<Rightarrow> sv_busy v)"

definition stop_view :: "'w Deps \<Rightarrow> Request \<Rightarrow> string \<Rightarrow> string \<Rightarrow> ('w, Response) web" where
  "stop_view d rq name action =
     (if \<not> is_runner_container name then ret (failure 400 ''not a runner container'')
      else let b = json_body rq
        in andThen (on_store (runner_status_view (d_store d))) (\<lambda>status.
           let busy = busy_runner status name
           in if busy \<and> \<not> truthy (pget b ''confirm'' PNone)
              then ret (respond 409 [(''error'', PStr ''runner is busy: resend with confirm=true to abort its job''), (''busy'', PBool True)])
              else andThen (on_docker (sd_stop (d_docker d) name)) (\<lambda>ok.
                   andThen (web_audit d rq action name
                      (''busy='' @ bool_text busy @ '' reason='' @ str_of d (pget b ''reason'' (PStr [])))) (\<lambda>_.
                     ret (ok_response [(''container'', PStr name), (''action'', PStr action), (''ok'', PBool ok), (''was_busy'', PBool busy)])))))"

definition stop_container_route :: "'w Deps \<Rightarrow> Request \<Rightarrow> string \<Rightarrow> ('w, Response) web" where
  "stop_container_route d rq name = require_write d rq (idempotent d rq (stop_view d rq name ''stop''))"

definition restart_container_route :: "'w Deps \<Rightarrow> Request \<Rightarrow> string \<Rightarrow> ('w, Response) web" where
  "restart_container_route d rq name = require_write d rq (idempotent d rq (stop_view d rq name ''restart''))"

definition protect_view :: "'w Deps \<Rightarrow> Request \<Rightarrow> string \<Rightarrow> ('w, Response) web" where
  "protect_view d rq name =
     (if \<not> is_runner_container name then ret (failure 400 ''not a runner container'')
      else let on = truthy (pget (json_body rq) ''protected'' (PBool True))
        in andThen (on_store (set_protected (d_store d) name on)) (\<lambda>_.
           andThen (web_audit d rq (if on then ''protect'' else ''unprotect'') name []) (\<lambda>_.
             ret (ok_response [(''container'', PStr name), (''protected'', PBool on)]))))"

definition protect_container_route :: "'w Deps \<Rightarrow> Request \<Rightarrow> string \<Rightarrow> ('w, Response) web" where
  "protect_container_route d rq name = require_write d rq (protect_view d rq name)"

section \<open>Pools\<close>

definition pool_state_view :: "'w Deps \<Rightarrow> Request \<Rightarrow> string \<Rightarrow> ('w, Response) web" where
  "pool_state_view d rq name =
     andThen (pool_by_name d name) (\<lambda>found.
       if found = None then ret (unknown_pool name)
       else let b = json_body rq
         in andThen (web_resolve d) (\<lambda>c.
            let current = state_for c name;
                paused = truthy (pget b ''paused'' (PBool (st_paused current)));
                draining = truthy (pget b ''draining'' (PBool (st_draining current)))
            in andThen (on_store (set_pool_state (d_store d) name paused draining)) (\<lambda>_.
               andThen (web_audit d rq ''pool_state'' name (''paused='' @ bool_text paused @ '' draining='' @ bool_text draining)) (\<lambda>_.
                 ret (ok_response [(''pool'', PStr name), (''paused'', PBool paused), (''draining'', PBool draining)])))))"

definition pool_state_route :: "'w Deps \<Rightarrow> Request \<Rightarrow> string \<Rightarrow> ('w, Response) web" where
  "pool_state_route d rq name = require_write d rq (serialized (pool_state_view d rq name))"

text \<open>\<open>max(candidates, key=lambda info: info.minutes)\<close>.\<close>

fun oldest :: "ContainerInfo \<Rightarrow> ContainerInfo list \<Rightarrow> ContainerInfo" where
  "oldest best [] = best"
| "oldest best (x # xs) = oldest (if pf_lt (ci_minutes best) (ci_minutes x) then x else best) xs"

definition idle_container :: "'w Deps \<Rightarrow> PoolConfig \<Rightarrow> ('w, string option) web" where
  "idle_container d p =
     andThen (on_store (runner_status_view (d_store d))) (\<lambda>status.
     andThen (on_docker (sd_details (d_docker d) (container_prefix p))) (\<lambda>infos.
       ret (case filter (\<lambda>i. \<not> busy_runner status (ci_name i)) infos of
              [] \<Rightarrow> None
            | i # is \<Rightarrow> Some (ci_name (oldest i is)))))"

definition scale_by :: "'w Deps \<Rightarrow> Request \<Rightarrow> string \<Rightarrow> PoolConfig \<Rightarrow> int \<Rightarrow> ('w, Response) web" where
  "scale_by d rq name p delta =
     (if delta \<noteq> -1 \<and> delta \<noteq> 1 then ret (failure 400 ''delta must be -1 or 1'')
      else if 0 < delta
      then andThen (on_docker (sd_spawn (d_docker d) p)) (\<lambda>ok.
           andThen (web_audit d rq ''scale_up'' name ''manual +1'') (\<lambda>_.
             ret (respond (if ok then 200 else 502) [(''pool'', PStr name), (''spawned'', PBool ok)])))
      else andThen (idle_container d p) (\<lambda>found.
           case found of
             None \<Rightarrow> ret (failure 409 ''no idle runner to remove'')
           | Some victim \<Rightarrow>
               andThen (on_docker (sd_stop (d_docker d) victim)) (\<lambda>ok.
               andThen (web_audit d rq ''scale_down'' name (''stopped '' @ victim)) (\<lambda>_.
                 ret (ok_response [(''pool'', PStr name), (''stopped'', PStr victim), (''ok'', PBool ok)])))))"

definition scale_view :: "'w Deps \<Rightarrow> Request \<Rightarrow> string \<Rightarrow> ('w, Response) web" where
  "scale_view d rq name =
     andThen (pool_by_name d name) (\<lambda>found.
       case found of
         None \<Rightarrow> ret (unknown_pool name)
       | Some p \<Rightarrow>
           (case py_int_of (pget (json_body rq) ''delta'' (PInt 0)) of
              Inl (TypeError _) \<Rightarrow> ret (failure 400 ''delta must be an integer'')
            | Inl (ValueError _) \<Rightarrow> ret (failure 400 ''delta must be an integer'')
            | Inl err \<Rightarrow> raise_error err
            | Inr delta \<Rightarrow> scale_by d rq name p delta))"

definition scale_pool_route :: "'w Deps \<Rightarrow> Request \<Rightarrow> string \<Rightarrow> ('w, Response) web" where
  "scale_pool_route d rq name = require_write d rq (idempotent d rq (scale_view d rq name))"

definition pause_view :: "'w Deps \<Rightarrow> Request \<Rightarrow> ('w, Response) web" where
  "pause_view d rq =
     (let paused = truthy (pget (json_body rq) ''paused'' (PBool True))
      in andThen (on_store (set_global (d_store d) ''paused'' (if paused then ''1'' else ''0''))) (\<lambda>_.
         andThen (web_audit d rq ''global_pause'' [] (bool_text paused)) (\<lambda>_.
           ret (ok_response [(''paused'', PBool paused)]))))"

definition global_pause_route :: "'w Deps \<Rightarrow> Request \<Rightarrow> ('w, Response) web" where
  "global_pause_route d rq = require_write d rq (pause_view d rq)"

section \<open>Configuration\<close>

definition base_pool :: "'w Deps \<Rightarrow> string \<Rightarrow> PoolConfig option" where
  "base_pool d name = find (\<lambda>p. pool_name p = name) (base_pools (d_resolver d))"

definition candidate_pool :: "'w Deps \<Rightarrow> string \<Rightarrow> fields \<Rightarrow> string \<Rightarrow> PoolConfig option result" where
  "candidate_pool d name data origin =
     (let r = d_resolver d; coerce = coerce_pool_fields (str_rp r)
      in if origin = ''ui''
         then let pat = pat_of r data
           in if pat = [] then Inr None
              else bind_result (coerce (filter (\<lambda>(k, v). k \<noteq> ''pat_env'') data)) (\<lambda>fs.
                   or_else (bind_result (new_pool_from name pat (dict_del ''name'' fs)) (\<lambda>p. Inr (Some p))) None)
         else (case base_pool d name of
                 None \<Rightarrow> Inr None
               | Some base \<Rightarrow> bind_result (coerce data) (\<lambda>fs.
                   or_else (bind_result (set_fields (tunables fs) base) (\<lambda>p. Inr (Some p))) None)))"

text \<open>What is answered when a candidate is not usable; \<open>None\<close> when it is.\<close>

definition candidate_error :: "string \<Rightarrow> PoolConfig option \<Rightarrow> Response option" where
  "candidate_error unusable c =
     (case c of
        None \<Rightarrow> Some (failure 400 unusable)
      | Some p \<Rightarrow> if validation_errors [p] \<noteq> [] then Some (failure 400 (join ''; '' (validation_errors [p]))) else None)"

definition save_override :: "'w Deps \<Rightarrow> Request \<Rightarrow> string \<Rightarrow> fields \<Rightarrow> string \<Rightarrow> bool \<Rightarrow> string \<Rightarrow> string \<Rightarrow> Response \<Rightarrow> ('w, Response) web" where
  "save_override d rq name data origin disabled action detail r =
     andThen (on_store (set_pool_override (d_store d) name (PDict data) origin disabled)) (\<lambda>_.
     andThen (web_audit d rq action name detail) (\<lambda>_. ret r))"

definition checked_save :: "'w Deps \<Rightarrow> Request \<Rightarrow> string \<Rightarrow> fields \<Rightarrow> string \<Rightarrow> string \<Rightarrow> string \<Rightarrow> string \<Rightarrow> Response \<Rightarrow> ('w, Response) web" where
  "checked_save d rq name data origin unusable action detail r =
     andThen (lift_result (candidate_pool d name data origin)) (\<lambda>c.
       case candidate_error unusable c of
         Some err \<Rightarrow> ret err
       | None \<Rightarrow> save_override d rq name data origin False action detail r)"

definition patch_pool_view :: "'w Deps \<Rightarrow> Request \<Rightarrow> string \<Rightarrow> ('w, Response) web" where
  "patch_pool_view d rq name =
     (let b = json_body rq; rejected = unknown_fields b False
      in if rejected \<noteq> [] then ret (failure 400 (''not editable: '' @ join '', '' rejected))
         else andThen (web_overrides d) (\<lambda>ov.
           let existing = map_of ov name
           in if base_pool d name = None \<and> (case existing of None \<Rightarrow> True | Some x \<Rightarrow> po_origin x \<noteq> ''ui'')
              then ret (unknown_pool name)
              else andThen (lift_result (case existing of None \<Rightarrow> Inr [] | Some x \<Rightarrow> dict_of (po_data x))) (\<lambda>old.
                let origin = (case existing of None \<Rightarrow> ''yaml'' | Some x \<Rightarrow> po_origin x)
                in case coerce_pool_fields (str_rp (d_resolver d)) b of
                     Inl (TypeError m) \<Rightarrow> ret (failure 400 (''invalid value: '' @ m))
                   | Inl (ValueError m) \<Rightarrow> ret (failure 400 (''invalid value: '' @ m))
                   | Inl err \<Rightarrow> raise_error err
                   | Inr coerced \<Rightarrow>
                       (let merged = dict_update coerced old
                        in checked_save d rq name merged origin ''override does not produce a usable pool'' ''config_patch'' (body_json d b)
                             (ok_response [(''pool'', PStr name), (''overrides'', PDict merged)])))))"

definition patch_pool_route :: "'w Deps \<Rightarrow> Request \<Rightarrow> string \<Rightarrow> ('w, Response) web" where
  "patch_pool_route d rq name = require_write d rq (serialized (patch_pool_view d rq name))"

definition reset_pool_view :: "'w Deps \<Rightarrow> Request \<Rightarrow> string \<Rightarrow> ('w, Response) web" where
  "reset_pool_view d rq name =
     (if base_pool d name = None then ret (failure 404 (quoted name @ '' has no config.yml definition to revert to''))
      else andThen (on_store (delete_pool_override (d_store d) name)) (\<lambda>_.
           andThen (web_audit d rq ''config_reset'' name []) (\<lambda>_.
             ret (ok_response [(''pool'', PStr name), (''reset'', PBool True)]))))"

definition reset_pool_route :: "'w Deps \<Rightarrow> Request \<Rightarrow> string \<Rightarrow> ('w, Response) web" where
  "reset_pool_route d rq name = require_write d rq (serialized (reset_pool_view d rq name))"

definition create_pool_view :: "'w Deps \<Rightarrow> Request \<Rightarrow> ('w, Response) web" where
  "create_pool_view d rq =
     (let b = json_body rq; name = strip (str_of d (pget b ''name'' (PStr []))); data = dict_del ''name'' b
      in if name = [] then ret (failure 400 ''name is required'')
         else let rejected = unknown_fields data True
           in if rejected \<noteq> [] then ret (failure 400 (''not accepted: '' @ join '', '' rejected))
              else andThen (web_resolve d) (\<lambda>c.
                if list_ex (\<lambda>p. pool_name p = name) (eff_pools c)
                then ret (failure 409 (''pool '' @ quoted name @ '' already exists''))
                else checked_save d rq name data ''ui'' ''pool definition is unusable (is its PAT env var set?)'' ''config_create_pool'' []
                       (respond 201 [(''pool'', PStr name), (''created'', PBool True)])))"

definition create_pool_route :: "'w Deps \<Rightarrow> Request \<Rightarrow> ('w, Response) web" where
  "create_pool_route d rq = require_write d rq (serialized (create_pool_view d rq))"

definition remove_pool_view :: "'w Deps \<Rightarrow> Request \<Rightarrow> string \<Rightarrow> ('w, Response) web" where
  "remove_pool_view d rq name =
     andThen (web_overrides d) (\<lambda>ov.
       let existing = map_of ov name; removed = ok_response [(''pool'', PStr name), (''removed'', PBool True)]
       in if (case existing of None \<Rightarrow> False | Some x \<Rightarrow> po_origin x = ''ui'')
          then andThen (on_store (delete_pool_override (d_store d) name)) (\<lambda>_.
               andThen (web_audit d rq ''config_remove_pool'' name []) (\<lambda>_. ret removed))
          else if base_pool d name \<noteq> None
          then andThen (on_store (set_pool_override (d_store d) name
                 (case existing of None \<Rightarrow> PDict [] | Some x \<Rightarrow> po_data x) ''yaml'' True)) (\<lambda>_.
               andThen (web_audit d rq ''config_remove_pool'' name []) (\<lambda>_. ret removed))
          else ret (unknown_pool name))"

definition remove_pool_route :: "'w Deps \<Rightarrow> Request \<Rightarrow> string \<Rightarrow> ('w, Response) web" where
  "remove_pool_route d rq name = require_write d rq (serialized (remove_pool_view d rq name))"

text \<open>The loop of \<open>patch_globals\<close>; \<open>Some\<close> is the early return.\<close>

fun apply_globals :: "'w Deps \<Rightarrow> fields \<Rightarrow> ('w, Response option) web" where
  "apply_globals d [] = ret None"
| "apply_globals d ((key, v) # rest) =
     (if key = ''paused''
      then andThen (on_store (set_global (d_store d) key (if truthy v then ''1'' else ''0''))) (\<lambda>_. apply_globals d rest)
      else (case py_int_of v of
              Inl (TypeError _) \<Rightarrow> ret (Some (failure 400 (key @ '' must be an integer'')))
            | Inl (ValueError _) \<Rightarrow> ret (Some (failure 400 (key @ '' must be an integer'')))
            | Inl err \<Rightarrow> raise_error err
            | Inr n \<Rightarrow>
                if n < 0 then ret (Some (failure 400 (key @ '' cannot be negative'')))
                else andThen (on_store (set_global (d_store d) key (show_int n))) (\<lambda>_. apply_globals d rest)))"

definition patch_globals_view :: "'w Deps \<Rightarrow> Request \<Rightarrow> ('w, Response) web" where
  "patch_globals_view d rq =
     (let b = json_body rq; rejected = sort (filter (\<lambda>k. k \<notin> set GLOBAL_KEYS) (map fst b))
      in if rejected \<noteq> [] then ret (failure 400 (''not editable: '' @ join '', '' rejected))
         else andThen (apply_globals d b) (\<lambda>early.
           case early of
             Some r \<Rightarrow> ret r
           | None \<Rightarrow> andThen (web_audit d rq ''config_globals'' [] (body_json d b)) (\<lambda>_.
               andThen (web_resolve d) (\<lambda>c. ret (ok_response (globals_response c))))))"

definition patch_globals_route :: "'w Deps \<Rightarrow> Request \<Rightarrow> ('w, Response) web" where
  "patch_globals_route d rq = require_write d rq (serialized (patch_globals_view d rq))"

section \<open>The blueprint\<close>

datatype control_call =
    StopContainer string | RestartContainer string | ProtectContainer string
  | SetPoolState string | ScalePool string | GlobalPause
  | PatchPool string | ResetPool string | CreatePool | RemovePool string | PatchGlobals

fun control :: "'w Deps \<Rightarrow> Request \<Rightarrow> control_call \<Rightarrow> ('w, Response) web" where
  "control d rq (StopContainer name) = stop_container_route d rq name"
| "control d rq (RestartContainer name) = restart_container_route d rq name"
| "control d rq (ProtectContainer name) = protect_container_route d rq name"
| "control d rq (SetPoolState name) = pool_state_route d rq name"
| "control d rq (ScalePool name) = scale_pool_route d rq name"
| "control d rq GlobalPause = global_pause_route d rq"
| "control d rq (PatchPool name) = patch_pool_route d rq name"
| "control d rq (ResetPool name) = reset_pool_route d rq name"
| "control d rq CreatePool = create_pool_route d rq"
| "control d rq (RemovePool name) = remove_pool_route d rq name"
| "control d rq PatchGlobals = patch_globals_route d rq"

end
