(* ===== verification/ReadRoutes.thy ===== *)
theory ReadRoutes
  imports Payloads Control
begin

text \<open>
  \<open>orchestrator/rorch/server/read_routes.py\<close> and the request log level of \<open>app.py\<close>: the
  endpoints that only look, and the table of all endpoints. What these endpoints take from
  elsewhere is the record \<open>ReadEnv\<close>: the text of \<open>dashboard.html\<close>, the text werkzeug makes of a
  cookie, the YAML dumper and the version. A history of NaN hours selects no row (SQLite binds a
  NaN as NULL).
\<close>

record ReadEnv =
  dashboard_html :: "string result"
  cookie_text :: "string \<Rightarrow> string \<Rightarrow> string"
  safe_dump :: "pyval \<Rightarrow> string"
  the_version :: string

definition typed_text :: "string \<Rightarrow> string \<Rightarrow> Response" where
  "typed_text mimetype t = \<lparr>rsp_status = 200, rsp_body = PlainText t, rsp_type = mimetype, rsp_headers = []\<rparr>"

definition dashboard_view :: "'w Deps \<Rightarrow> ReadEnv \<Rightarrow> Request \<Rightarrow> ('w, Response) web" where
  "dashboard_view d e rq =
     andThen (lift_result (dashboard_html e)) (\<lambda>html.
       let r = typed_text ''text/html'' html
       in ret (if d_token d \<noteq> [] \<and> or_empty (rq_arg rq ''token'') \<noteq> []
               then r\<lparr>rsp_headers := [(''Set-Cookie'', cookie_text e AUTH_COOKIE (d_token d))]\<rparr> else r))"

definition health_route :: "'w Deps \<Rightarrow> ReadEnv \<Rightarrow> ('w, Response) web" where
  "health_route d e =
     andThen (web_time d) (\<lambda>now.
       ret (ok_response [(''status'', PStr ''ok''), (''version'', PStr (the_version e)), (''ts'', seconds_value now)]))"

definition state_view :: "'w Deps \<Rightarrow> ReadEnv \<Rightarrow> ('w, Response) web" where
  "state_view d e = andThen (state_payload d (the_version e)) (\<lambda>fs. ret (ok_response fs))"

definition events_view :: "'w Deps \<Rightarrow> Request \<Rightarrow> ('w, Response) web" where
  "events_view d rq =
     andThen (on_store (recent_events (d_store d) (limit_arg rq 200 ''limit''))) (\<lambda>rs.
       ret (ok_response [(''events'', PList (map (\<lambda>r. PDict (event_fields r)) rs))]))"

definition audit_fields :: "AuditRow \<Rightarrow> fields" where
  "audit_fields r =
     [(''ts'', seconds_value (au_ts r)), (''actor'', PStr (au_actor r)), (''action'', PStr (au_action r)),
      (''target'', PStr (au_target r)), (''detail'', PStr (au_detail r))]"

definition audit_view :: "'w Deps \<Rightarrow> Request \<Rightarrow> ('w, Response) web" where
  "audit_view d rq =
     andThen (on_store (recent_audit (d_store d) (limit_arg rq 100 ''limit''))) (\<lambda>rs.
       ret (ok_response [(''audit'', PList (map (\<lambda>r. PDict (audit_fields r)) rs))]))"

definition jobs_view :: "'w Deps \<Rightarrow> Request \<Rightarrow> ('w, Response) web" where
  "jobs_view d rq =
     andThen (on_store (recent_jobs (d_store d) (limit_arg rq 50 ''limit''))) (\<lambda>rs.
       ret (ok_response [(''jobs'', PList (map (\<lambda>r. PDict (job_fields r)) rs))]))"

text \<open>\<open>min(max(hours, 0.1), 720)\<close>.\<close>

definition history_hours :: "pyfloat \<Rightarrow> pyfloat" where
  "history_hours f =
     (let f = (if pf_lt f (Fin (1 / 10)) then Fin (1 / 10) else f) in if pf_lt (Fin 720) f then Fin 720 else f)"

definition hours_value :: "pyfloat \<Rightarrow> pyval" where
  "hours_value f = (if pf_lt (Fin 720) f then PInt 720 else PFloat (history_hours f))"

definition history_rows :: "'w StoreEnv \<Rightarrow> pyfloat \<Rightarrow> ('w, TickRow list) db" where
  "history_rows e h =
     (case h of Fin hours \<Rightarrow> snapshots_since e hours | _ \<Rightarrow> andThen (store_now e) (\<lambda>_. store_read e (\<lambda>_. [])))"

definition history_counts :: "'w StoreEnv \<Rightarrow> pyfloat \<Rightarrow> ('w, (string, int) dict) db" where
  "history_counts e h =
     (case h of Fin hours \<Rightarrow> event_counts_since e hours | _ \<Rightarrow> andThen (store_now e) (\<lambda>_. store_read e (\<lambda>_. [])))"

definition history_view :: "'w Deps \<Rightarrow> Request \<Rightarrow> ('w, Response) web" where
  "history_view d rq =
     andThen (lift_result (py_float_of (case rq_arg rq ''hours'' of None \<Rightarrow> PInt 6 | Some h \<Rightarrow> PStr h))) (\<lambda>f.
     andThen (on_store (history_rows (d_store d) (history_hours f))) (\<lambda>ticks.
     andThen (on_store (history_counts (d_store d) (history_hours f))) (\<lambda>counts.
       ret (ok_response [(''snapshots'', PList (map (\<lambda>r. PDict (tick_fields r)) ticks)),
            (''event_counts'', PDict (map (\<lambda>(k, n). (k, PInt n)) counts)), (''hours'', hours_value f)]))))"

definition container_logs_view :: "'w Deps \<Rightarrow> Request \<Rightarrow> string \<Rightarrow> ('w, Response) web" where
  "container_logs_view d rq name =
     (if \<not> is_runner_container name then ret (failure 400 ''not a runner container'')
      else andThen (on_docker (sd_logs (d_docker d) name (limit_arg rq 500 ''tail''))) (\<lambda>t.
        ret (typed_text ''text/plain'' t)))"

definition metrics_view :: "'w Deps \<Rightarrow> ('w, Response) web" where
  "metrics_view d = andThen (prometheus d) (\<lambda>t. ret (typed_text ''text/plain; version=0.0.4'' t))"

definition override_fields :: "PoolOverride \<Rightarrow> fields" where
  "override_fields o' =
     [(''data'', po_data o'), (''origin'', PStr (po_origin o')), (''disabled'', PBool (po_disabled o'))]"

definition pools_value :: "PoolConfig list \<Rightarrow> pyval" where
  "pools_value ps = PList (map (\<lambda>p. PDict (pool_to_dict p)) ps)"

definition get_config_view :: "'w Deps \<Rightarrow> ('w, Response) web" where
  "get_config_view d =
     andThen (web_resolve d) (\<lambda>c.
     andThen (web_overrides d) (\<lambda>ov.
       ret (ok_response
         [(''pools'', pools_value (eff_pools c)), (''base_pools'', pools_value (base_pools (d_resolver d))),
          (''overrides'', PDict (map (\<lambda>(k, x). (k, PDict (override_fields x))) ov)),
          (''globals'', PDict (globals_response c)),
          (''editable_fields'', PList (map PStr (sort TUNABLE_FIELDS)))])))"

definition exported_pool :: "PoolConfig \<Rightarrow> fields" where
  "exported_pool p =
     dict_set ''pat'' (PStr ''${GITHUB_PAT}'')
       (filter (\<lambda>(k, _). k \<notin> {''display'', ''container_prefix''}) (pool_to_dict p))"

definition export_config_view :: "'w Deps \<Rightarrow> ReadEnv \<Rightarrow> ('w, Response) web" where
  "export_config_view d e =
     andThen (web_resolve d) (\<lambda>c.
       ret (typed_text ''text/yaml'' (safe_dump e (PDict
         [(''max_total_runners'', PInt (eff_max_total_runners c)), (''max_runner_lifetime'', PInt (eff_max_runner_lifetime c)),
          (''pools'', PList (map (\<lambda>p. PDict (exported_pool p)) (eff_pools c)))]))))"

section \<open>The blueprint\<close>

datatype read_call =
    Dashboard | State | Events | Audit | Jobs | History | ContainerLogs string | Metrics | GetConfig | ExportConfig

fun read_view :: "'w Deps \<Rightarrow> ReadEnv \<Rightarrow> Request \<Rightarrow> read_call \<Rightarrow> ('w, Response) web" where
  "read_view d e rq Dashboard = dashboard_view d e rq"
| "read_view d e rq State = state_view d e"
| "read_view d e rq Events = events_view d rq"
| "read_view d e rq Audit = audit_view d rq"
| "read_view d e rq Jobs = jobs_view d rq"
| "read_view d e rq History = history_view d rq"
| "read_view d e rq (ContainerLogs name) = container_logs_view d rq name"
| "read_view d e rq Metrics = metrics_view d"
| "read_view d e rq GetConfig = get_config_view d"
| "read_view d e rq ExportConfig = export_config_view d e"

definition read_route :: "'w Deps \<Rightarrow> ReadEnv \<Rightarrow> Request \<Rightarrow> read_call \<Rightarrow> ('w, Response) web" where
  "read_route d e rq c = require_auth d rq (read_view d e rq c)"

section \<open>The application\<close>

datatype api_call = Health | Reading read_call | Controlling control_call

fun endpoint :: "'w Deps \<Rightarrow> ReadEnv \<Rightarrow> Request \<Rightarrow> api_call \<Rightarrow> ('w, Response) web" where
  "endpoint d e rq Health = health_route d e"
| "endpoint d e rq (Reading c) = read_route d e rq c"
| "endpoint d e rq (Controlling c) = control d rq c"

datatype log_level = Debug | Info | Warning

text \<open>What Flask answers: a view that raises is an error 500.\<close>

definition answer :: "Response result \<Rightarrow> Response" where
  "answer x = (case x of Inr r \<Rightarrow> r | Inl _ \<Rightarrow> \<lparr>rsp_status = 500, rsp_body = PlainText ''Internal Server Error'',
     rsp_type = ''text/html'', rsp_headers = []\<rparr>)"

definition request_log_level :: "Response \<Rightarrow> log_level" where
  "request_log_level r =
     (if 500 \<le> rsp_status r then Warning else if 400 \<le> rsp_status r then Info else Debug)"

text \<open>\<open>start\<close>: whether the API is served on a host at all.\<close>

definition serves :: "'w Deps \<Rightarrow> string \<Rightarrow> bool" where
  "serves d host \<longleftrightarrow> \<not> (host \<notin> set LOOPBACK_BINDS \<and> d_token d = [])"

end
