(* ===== verification/Dashboard.thy ===== *)
theory Dashboard
  imports Daemon ReadRoutes
begin

text \<open>
  How \<open>__main__.py\<close> wires the HTTP API: the dependencies \<open>_start_dashboard\<close> hands to the server,
  over the state of the running process. The API's store is the process's store: \<open>detached\<close> takes
  it out of the state, which becomes the world the store acts on, and \<open>attached\<close> puts it back;
  whatever the API does with Docker acts on the process. \<open>shows_text\<close> is what Flask makes of a
  body.
\<close>

section \<open>The process as the API's world\<close>

definition saved_store :: "'w Brain \<Rightarrow> 'w Store option" where
  "saved_store b = sh_store (d_world (world b))"

definition put_saved :: "'w Store option \<Rightarrow> 'w Brain \<Rightarrow> 'w Brain" where
  "put_saved so b =
     (let c = world b; sh = d_world c in b\<lparr>world := c\<lparr>d_world := sh\<lparr>sh_store := so\<rparr>\<rparr>\<rparr>)"

definition world_of :: "'w Brain \<Rightarrow> 'w" where
  "world_of b = sh_world (d_world (world b))"

definition detached :: "'w Brain \<Rightarrow> 'w Store \<Rightarrow> 'w Brain Store" where
  "detached b st = \<lparr>st_dsn = st_dsn st, live = live st, durable = durable st, st_world = b\<rparr>"

definition attached :: "'w Brain Store \<Rightarrow> 'w Brain" where
  "attached s =
     put_saved (Some \<lparr>st_dsn = st_dsn s, live = live s, durable = durable s, st_world = world_of (st_world s)\<rparr>) (st_world s)"

definition on_process :: "('w Brain, 'a) eff \<Rightarrow> ('w Brain, 'a) db" where
  "on_process m s =
     (case m (attached s) of
        (r, b) \<Rightarrow> (r, case saved_store b of None \<Rightarrow> s\<lparr>st_world := b\<rparr> | Some st \<Rightarrow> detached b st))"

definition from_outside :: "('w, 'a) eff \<Rightarrow> ('w Brain, 'a) eff" where
  "from_outside m = on_shared (on_outside m)"

definition api_store_env :: "'w Outside \<Rightarrow> 'w Brain StoreEnv" where
  "api_store_env o' =
     (let e = o_store o'
      in \<lparr>time_op = from_outside (time_op e), store_mono_op = from_outside (store_mono_op e),
          store_sleep_op = (\<lambda>d. from_outside (store_sleep_op e d)), statement_op = from_outside (statement_op e),
          commit_op = from_outside (commit_op e), connect_op = (\<lambda>d. from_outside (connect_op e d)),
          parent_dir_op = (\<lambda>p. from_outside (parent_dir_op e p)), contents = (\<lambda>d b. contents e d (world_of b)),
          float_repr = float_repr e, open_fuel = open_fuel e\<rparr>)"

section \<open>What the dashboard is given\<close>

definition api_docker :: "'w Outside \<Rightarrow> 'w Brain ServerDocker" where
  "api_docker o' =
     (let e = docker_env o'
      in \<lparr>sd_spawn = (\<lambda>p. on_process (on_docker_client (spawn_runner e p))),
          sd_stop = (\<lambda>c. on_process (on_docker_client (stop_container e c))),
          sd_details = (\<lambda>pfx. on_process (on_docker_client (container_details e pfx))),
          sd_logs = (\<lambda>c n. on_process (on_docker_client (container_logs e c n)))\<rparr>)"

definition github_status :: "'w Outside \<Rightarrow> ('w ForgeClients, int option \<times> rat option \<times> int \<times> rat) eff" where
  "github_status o' s =
     (case rate_limit_status (o_http o') (github_forge (fc_reserve s)) ((fc_github s)\<lparr>gh_world := fc_world s\<rparr>) of
        (r, c) \<Rightarrow> (r, s\<lparr>fc_github := c, fc_world := gh_world c\<rparr>))"

definition rate_limit_value :: "int option \<times> rat option \<times> int \<times> rat \<Rightarrow> pyval" where
  "rate_limit_value = (\<lambda>(remaining, reset_at, reserve, until).
     PDict [(''remaining'', (case remaining of None \<Rightarrow> PNone | Some n \<Rightarrow> PInt n)),
            (''reset_at'', (case reset_at of None \<Rightarrow> PNone | Some t \<Rightarrow> seconds_value t)),
            (''reserve'', PInt reserve), (''blocked_until'', seconds_value until)])"

definition host_value :: "HostView \<Rightarrow> pyval" where
  "host_value h =
     PDict [(''cores'', PInt (hv_cores h)), (''cpu_count'', PInt (hv_cpu_count h)), (''load1'', PFloat (hv_load1 h)),
            (''mem_total_mb'', PInt (hv_mem_total_mb h)), (''mem_available_mb'', PInt (hv_mem_available_mb h)),
            (''temp_c'', (case hv_temp_c h of None \<Rightarrow> PNone | Some t \<Rightarrow> PFloat (Fin t))), (''free_cores'', PInt (hv_free_cores h))]"

definition counts_value :: "PoolCounts \<Rightarrow> pyval" where
  "counts_value n =
     PDict [(''running'', PInt (cnt_running n)), (''busy'', PInt (cnt_busy n)),
            (''max_runners'', PInt (cnt_max_runners n))]"

definition snapshot_value :: "Snapshot \<Rightarrow> pyval" where
  "snapshot_value sn =
     PDict [(''instance'', PStr (sn_instance sn)), (''version'', PStr (sn_version sn)), (''ts'', seconds_value (sn_ts sn)),
            (''host'', host_value (sn_host sn)), (''pools'', PDict (map (\<lambda>(k, n). (k, counts_value n)) (sn_pools sn))),
            (''global_free'', (case sn_global_free sn of None \<Rightarrow> PNone | Some n \<Rightarrow> PInt n))]"

definition peer_value :: "PeerStatus \<Rightarrow> pyval" where
  "peer_value p =
     PDict [(''name'', PStr (ps_name p)), (''url'', PStr (ps_url p)), (''ok'', PBool (ps_ok p)),
            (''age_seconds'', (case ps_age_seconds p of None \<Rightarrow> PNone | Some t \<Rightarrow> PFloat (round_tenth (Fin t)))),
            (''error'', PStr (ps_error p)),
            (''snapshot'', (case ps_snapshot p of None \<Rightarrow> PNone | Some sn \<Rightarrow> snapshot_value sn))]"

definition status_value :: "bool \<times> rat \<times> bool \<times> Snapshot option \<times> PeerStatus list \<Rightarrow> pyval" where
  "status_value = (\<lambda>(enabled, max_temp, hot, own, peers).
     PDict [(''enabled'', PBool enabled), (''max_temp_c'', PFloat (Fin max_temp)), (''hot'', PBool hot),
            (''self'', (case own of None \<Rightarrow> PNone | Some sn \<Rightarrow> snapshot_value sn)), (''peers'', PList (map peer_value peers))])"

text \<open>\<open>hostmetrics.read().as_dict()\<close>, where the federation has no snapshot of this host yet.\<close>

definition own_host :: "'w Outside \<Rightarrow> Federation option \<Rightarrow> ('w Brain, HostView) eff" where
  "own_host o' fed =
     (case (case fed of None \<Rightarrow> None | Some f \<Rightarrow> fed_own f) of
        Some sn \<Rightarrow> ret (sn_host sn)
      | None \<Rightarrow> andThen (from_outside (o_host o')) (\<lambda>m. lift_result (host_as_dict m)))"

definition host_state :: "'w Outside \<Rightarrow> ('w Brain, fields) eff" where
  "host_state o' =
     andThen (read_state federation) (\<lambda>fed.
     andThen (own_host o' fed) (\<lambda>h.
     andThen (case fed of
         None \<Rightarrow> ret PNone
       | Some f \<Rightarrow> andThen (from_outside (monotonic_op (o_runtime o'))) (\<lambda>now. ret (status_value (federation_status f now)))) (\<lambda>status.
       ret [(''host'', host_value h), (''federation'', status)])))"

definition dashboard_deps :: "'w Outside \<Rightarrow> Runtime \<Rightarrow> string \<Rightarrow> (body \<Rightarrow> string) \<Rightarrow> 'w Brain Deps" where
  "dashboard_deps o' rt token shows_text =
     \<lparr>d_store = api_store_env o', d_resolver = rt_resolver rt, d_docker = api_docker o', d_token = token,
      d_readonly = resolve_readonly_token (o_env o'),
      rate_limit_op = on_process (andThen (on_shared (on_clients (github_status o'))) (\<lambda>x. ret (rate_limit_value x))),
      host_state_op = on_process (host_state o'), body_text = shows_text\<rparr>"

text \<open>\<open>_start_dashboard\<close>: no store or no permission to bind, no API.\<close>

definition start_dashboard :: "'w Outside \<Rightarrow> Runtime \<Rightarrow> string \<Rightarrow> (body \<Rightarrow> string) \<Rightarrow> ('w Brain, 'w Brain Deps option) eff" where
  "start_dashboard o' rt generated shows_text =
     (if \<not> rt_stored rt then ret None
      else andThen (on_shared (on_saved (resolve_token (o_store o') (o_env o') generated))) (\<lambda>token.
           andThen (lift_result (int_env (o_env o') ''RORCH_API_PORT'' ''8080'')) (\<lambda>_.
             let d = dashboard_deps o' rt token shows_text
             in ret (if serves d (getenv (o_env o') ''RORCH_API_HOST'' ''127.0.0.1'') then Some d else None))))"

text \<open>A request to the running API: the process before and after, with the guard and the keys.\<close>

definition serve :: "'w Outside \<Rightarrow> Runtime \<Rightarrow> string \<Rightarrow> (body \<Rightarrow> string) \<Rightarrow> ReadEnv \<Rightarrow> Request \<Rightarrow> api_call \<Rightarrow>
    ('w Brain \<times> (string, int \<times> rat) dict \<times> string list) \<Rightarrow> Response \<times> ('w Brain \<times> (string, int \<times> rat) dict \<times> string list)" where
  "serve o' rt token shows_text e rq c = (\<lambda>(b, guard, keys).
     (case saved_store b of
        None \<Rightarrow> (answer (Inl (RuntimeError ''no store'')), b, guard, keys)
      | Some st \<Rightarrow>
          (case endpoint (dashboard_deps o' rt token shows_text) e rq c
                  \<lparr>w_store = detached b st, guard_failures = guard, in_flight = keys\<rparr> of
             (x, s) \<Rightarrow> (answer x, attached (w_store s), guard_failures s, in_flight s))))"

end
