(* ===== verification/Startup.thy ===== *)
theory Startup
  imports Dashboard
begin

text \<open>
  What \<open>main()\<close> of \<open>__main__.py\<close> does before its loop: build, look for pools on public repositories
  (the one part of the banner that asks anybody anything), start the API and the listener for the
  peers, then see to the images. Binding the two sockets is taken to succeed.
\<close>

text \<open>\<open>ForgeClients.is_public_repo\<close>.\<close>

definition forge_is_public :: "'w HttpEnv \<Rightarrow> PoolConfig \<Rightarrow> ('w ForgeClients, bool option) eff" where
  "forge_is_public e = on_forge (is_public_repo e)"

text \<open>\<open>_warn_public_repo_pools\<close>: the pools it warns of.\<close>

fun public_repo_pools :: "'w Outside \<Rightarrow> PoolConfig list \<Rightarrow> ('w Brain, PoolConfig list) eff" where
  "public_repo_pools o' [] = ret []"
| "public_repo_pools o' (p # ps) =
     andThen (if pool_repo p = [] then ret None else on_shared (on_clients (forge_is_public (o_http o') p))) (\<lambda>public.
     andThen (public_repo_pools o' ps) (\<lambda>qs. ret (if public = Some True then p # qs else qs)))"

text \<open>\<open>_start_peer_listener\<close>: the address the peers' listener is given, where there is one.\<close>

definition start_peer_listener :: "environ \<Rightarrow> Federation option \<Rightarrow> (string \<times> int) option result" where
  "start_peer_listener env fed =
     (case fed of
        None \<Rightarrow> Inr None
      | Some f \<Rightarrow>
          if fed_token f = [] then Inr None
          else bind_result (int_env env ''RORCH_PEER_PORT'' ''8081'') (\<lambda>port.
                 Inr (Some (getenv env ''RORCH_PEER_HOST'' ''0.0.0.0'', port))))"

record 'w Listeners =
  ls_api :: "'w Brain Deps option"
  ls_peers :: "(string \<times> int) option"
  ls_warned :: "PoolConfig list"

definition prepare :: "'w Outside \<Rightarrow> Runtime \<Rightarrow> string \<Rightarrow> (body \<Rightarrow> string) \<Rightarrow> ('w Brain, 'w Listeners) eff" where
  "prepare o' rt generated shows_text =
     andThen (public_repo_pools o' (rt_pools rt)) (\<lambda>warned.
     andThen (start_dashboard o' rt generated shows_text) (\<lambda>api.
     andThen (read_state federation) (\<lambda>fed.
     andThen (lift_result (start_peer_listener (o_env o') fed)) (\<lambda>peers.
     andThen (each (\<lambda>img. on_docker_client (ensure_image (docker_env o') img)) (remdups (map runner_image (rt_pools rt)))) (\<lambda>_.
       ret \<lparr>ls_api = api, ls_peers = peers, ls_warned = warned\<rparr>)))))"

definition start_daemon :: "'w Outside \<Rightarrow> string \<Rightarrow> (body \<Rightarrow> string) \<Rightarrow> ('w, Runtime \<times> 'w Listeners \<times> 'w Daemon) eff" where
  "start_daemon o' generated shows_text =
     andThen (build_runtime o') (\<lambda>(rt, b) w.
       case prepare o' rt generated shows_text b of
         (Inl err, b') \<Rightarrow> (Inl err, sh_world (d_world (world b')))
       | (Inr ls, b') \<Rightarrow> (Inr (rt, ls, new_daemon rt b'), sh_world (d_world (world b'))))"

end
