(* ===== verification/Banner.thy ===== *)
theory Banner
  imports Startup
begin

text \<open>
  \<open>_log_banner\<close> of \<open>__main__.py\<close> as the lines it logs, the pools' among them. The dash of the first
  line is its three bytes in UTF-8. The warnings of pools on public repositories stand for the
  pools they name.
\<close>

definition pool_scope_text :: "PoolConfig \<Rightarrow> string" where
  "pool_scope_text p =
     (if is_personal_level p then ''personal all-repositories''
      else if is_org_level p then ''org-level'' else ''repo-level'')"

definition pool_lines :: "PoolConfig \<Rightarrow> string list" where
  "pool_lines p =
     [''  ['' @ pool_name p @ '']  '' @ display p @ ''  max='' @ show_int (max_runners p) @ ''  min_idle='' @ show_int (min_idle p) @
        ''  ('' @ pool_scope_text p @ '')'',
      ''    PAT: '' @ (if pool_pat p \<noteq> [] then ''SET'' else ''MISSING'')]"

definition rule_line :: string where
  "rule_line = replicate 60 (CHR ''='')"

definition worker_warning :: "Runtime \<Rightarrow> string list" where
  "worker_warning rt =
     (if rt_pool_tick_workers rt < int (length (rt_pools rt))
      then [show_int (int (length (rt_pools rt))) @ '' pools but POOL_TICK_WORKERS='' @ show_int (rt_pool_tick_workers rt) @
        '': some pools will wait for a free worker''] else [])"

definition minutes_or_disabled :: "int \<Rightarrow> string" where
  "minutes_or_disabled n = (if n \<noteq> 0 then show_int n @ ''m'' else ''disabled'')"

definition banner_lines :: "string \<Rightarrow> Runtime \<Rightarrow> string list" where
  "banner_lines version rt =
     [rule_line, ''GitHub Runner Orchestrator v'' @ version @ ''  '' @ [CHR 0xE2, CHR 0x80, CHR 0x94] @ ''  multi-pool''] @
     concat (map pool_lines (rt_pools rt)) @
     [''Poll interval: '' @ show_int (rt_poll rt) @ ''s  (image prune every '' @ show_int (rt_prune_every rt) @ '' ticks)'',
      ''GitHub API reserve: '' @ show_int (rt_rate_limit_reserve rt) @ '' requests'',
      ''Concurrency: '' @ show_int (rt_pool_tick_workers rt) @ '' pool ticks, '' @ show_int (rt_github_concurrency rt) @
        '' GitHub requests in flight''] @
     worker_warning rt @
     [''Global runner cap: '' @ (if rt_max_total_runners rt \<noteq> 0 then show_int (rt_max_total_runners rt) else ''unlimited''),
      ''Max runner lifetime: '' @ minutes_or_disabled (rt_max_runner_lifetime rt),
      ''Leftover CI container reaper: '' @ minutes_or_disabled (rt_ci_container_max_age rt),
      ''State store: '' @ (if rt_stored rt then ''enabled'' else ''disabled (config.yml only)'')]"

text \<open>The whole banner: the lines, the pools warned of, and the closing rule.\<close>

definition log_banner :: "'w Outside \<Rightarrow> string \<Rightarrow> Runtime \<Rightarrow> ('w Brain, string list \<times> PoolConfig list) eff" where
  "log_banner o' version rt =
     andThen (public_repo_pools o' (rt_pools rt)) (\<lambda>warned. ret (banner_lines version rt @ [rule_line], warned))"

text \<open>The banner says of a token only whether there is one.\<close>

lemma pool_lines_hide_token: "(t = []) = (pool_pat p = []) \<Longrightarrow> pool_lines (p\<lparr>pool_pat := t\<rparr>) = pool_lines p"
  by (simp add: pool_lines_def display_def pool_scope_text_def is_personal_level_def is_org_level_def)

lemma banner_hides_tokens:
  assumes "\<And>p. p \<in> set (rt_pools rt) \<Longrightarrow> (token p = []) = (pool_pat p = [])"
  shows "banner_lines version (rt\<lparr>rt_pools := map (\<lambda>p. p\<lparr>pool_pat := token p\<rparr>) (rt_pools rt)\<rparr>) = banner_lines version rt"
proof -
  have "concat (map (pool_lines \<circ> (\<lambda>p. p\<lparr>pool_pat := token p\<rparr>)) (rt_pools rt)) = concat (map pool_lines (rt_pools rt))"
    using assms pool_lines_hide_token by (intro arg_cong [where f = concat] map_cong) simp_all
  then show ?thesis by (simp add: banner_lines_def worker_warning_def)
qed

end
