(* ===== verification/ForgeFacts.thy ===== *)
theory ForgeFacts
  imports ForgeClient
begin

text \<open>
  What the REST client guarantees: a blocked token sends nothing, the conditional cache is
  bounded, a pool's token reaches only its own forge, the queue count is the filtered list
  of ages, and a run is scanned once.
\<close>

section \<open>Stepping through a request\<close>

lemma outside_apply [simp]: "outside f s = (Inr (fst (f (gh_world s))), s\<lparr>gh_world := snd (f (gh_world s))\<rparr>)"
  by (simp add: outside_def split: prod.splits)

lemma lift_result_apply [simp]: "lift_result r s = (r, s)"
  by (simp add: lift_result_def)

lemma request_blocked:
  assumes "wall_op e (gh_world s) = (now, w)" "now < dict_get (blocked_until s) (digest e pat) 0"
  shows "request e fg pat path meth s =
    (Inl (GitHubRateLimitError (dict_get (blocked_until s) (digest e pat) 0) ''GitHub API cooldown is active''),
     s\<lparr>gh_world := w\<rparr>)"
  using assms by (simp add: request_def Let_def raise_if_blocked_def andThen_def)

section \<open>The conditional cache\<close>

definition gh_ok :: "'w GitHubClient \<Rightarrow> bool" where
  "gh_ok s \<longleftrightarrow> length (conditional_cache s) \<le> MAX_CONDITIONAL_CACHE_ENTRIES \<and>
     distinct (map fst (conditional_cache s))"

lemma gh_ok_other [simp]:
  "gh_ok (s\<lparr>gh_world := w\<rparr>) = gh_ok s" "gh_ok (s\<lparr>blocked_until := a\<rparr>) = gh_ok s"
  "gh_ok (s\<lparr>secondary_failures := b\<rparr>) = gh_ok s" "gh_ok (s\<lparr>shared_scans := c\<rparr>) = gh_ok s"
  "gh_ok (s\<lparr>last_mutation_at := d\<rparr>) = gh_ok s" "gh_ok (s\<lparr>blocked_until_any := t\<rparr>) = gh_ok s"
  "gh_ok (s\<lparr>last_remaining := n\<rparr>) = gh_ok s" "gh_ok (s\<lparr>last_reset_at := r\<rparr>) = gh_ok s"
  by (simp_all add: gh_ok_def)

lemma gh_ok_updates [simp]:
  "gh_ok (block_token tok t s) = gh_ok s" "gh_ok (note_headers h s) = gh_ok s"
  "gh_ok (clear_failures tok s) = gh_ok s" "gh_ok (keep_scan k now data s) = gh_ok s"
  by (simp_all add: block_token_def note_headers_def clear_failures_def keep_scan_def drop_stale_scans_def Let_def
      split: option.splits)

lemma length_dict_del: "distinct (map fst d) \<Longrightarrow> k \<in> fst ` set d \<Longrightarrow> Suc (length (dict_del k d)) = length d"
proof (induction d)
  case (Cons x d)
  then show ?case by (cases "k \<in> fst ` set d") (auto simp: delete_id)
qed simp

lemma move_to_end_ok:
  assumes "distinct (map fst d)"
  shows "distinct (map fst (move_to_end k d)) \<and> length (move_to_end k d) = length d"
proof (cases "map_of d k")
  case None
  then show ?thesis using assms by (simp add: move_to_end_def)
next
  case (Some v)
  then have "k \<in> fst ` set d" by (metis domI dom_map_of_conv_image_fst)
  then show ?thesis using assms Some length_dict_del [OF assms]
    by (auto simp: move_to_end_def distinct_dict_del keys_dict_del image_iff)
qed

lemma gh_ok_move [simp]: "gh_ok s \<Longrightarrow> gh_ok (s\<lparr>conditional_cache := move_to_end k (conditional_cache s)\<rparr>)"
  using move_to_end_ok [of "conditional_cache s" k] by (simp add: gh_ok_def)

lemma gh_ok_cache [simp]:
  assumes "gh_ok s"
  shows "gh_ok (cache_conditional k etag data s)"
proof (cases "etag = None \<or> etag = Some []")
  case True
  have "length (dict_del k (conditional_cache s)) \<le> MAX_CONDITIONAL_CACHE_ENTRIES"
    using assms length_dict_del_le [of k "conditional_cache s"] by (simp add: gh_ok_def)
  moreover have "distinct (map fst (dict_del k (conditional_cache s)))"
    using assms by (intro distinct_dict_del) (simp add: gh_ok_def)
  ultimately show ?thesis using True by (auto simp: cache_conditional_def gh_ok_def)
next
  case False
  let ?d = "dict_set k \<lparr>cr_etag = the etag, cr_data = data\<rparr> (conditional_cache s)"
  have "distinct (map fst ?d)" using assms by (intro distinct_dict_set) (simp add: gh_ok_def)
  from move_to_end_ok [OF this, of k] False show ?thesis
    by (auto simp: cache_conditional_def gh_ok_def Let_def drop_map [symmetric])
qed

lemma preserves_outside [preserves_intros]: "preserves gh_ok (outside f)"
  by (simp add: preserves_def)

lemma preserves_update_rate_limit [preserves_intros]: "preserves gh_ok (update_rate_limit e fg tok h)"
  unfolding update_rate_limit_def by (intro preserves_intros) simp_all

lemma preserves_rate_limit_retry [preserves_intros]: "preserves gh_ok (rate_limit_retry e tok h body)"
  unfolding rate_limit_retry_def secondary_backoff_def by (intro preserves_intros) simp_all

lemma preserves_on_response: "preserves gh_ok (on_response e fg meth k status h body)"
proof -
  have handler: "preserves gh_ok (case err of GitHubRateLimitError _ _ \<Rightarrow> raise_error err | _ \<Rightarrow> ret PNone)" for err
    by (cases err) (auto intro: preserves_intros)
  show ?thesis unfolding on_response_def none_on_error_def
    by (intro preserves_catch handler preserves_intros) simp_all
qed

lemma preserves_on_fault: "preserves gh_ok (on_fault e fg k cached code h text)"
  unfolding on_fault_def by (intro preserves_intros) simp_all

lemma preserves_request [preserves_intros]: "preserves gh_ok (request e fg pat path meth)"
proof -
  have out: "preserves gh_ok (case out of HttpOk status h body \<Rightarrow> on_response e fg meth k status h body
      | HttpFault code h text \<Rightarrow> on_fault e fg k cached code h text | HttpFailed \<Rightarrow> ret PNone)" for out k cached
    by (cases out) (auto intro: preserves_on_response preserves_on_fault preserves_ret)
  show ?thesis unfolding request_def Let_def raise_if_blocked_def pace_mutation_def
    by (intro preserves_intros out) simp_all
qed

lemma preserves_get_shared [preserves_intros]: "preserves gh_ok (get_shared e fg pat path)"
  unfolding get_shared_def get_request_def Let_def by (intro preserves_intros) simp_all

section \<open>Cached and shared answers\<close>

lemma request_not_modified:
  assumes "wall_op e (gh_world s) = (now, w)" "dict_get (blocked_until s) (digest e pat) 0 \<le> now"
    "map_of (conditional_cache s) (digest e pat, rewrite_path fg path) = Some c"
    "http_op e ''GET'' (api_base fg @ rewrite_path fg path) pat (Some (cr_etag c)) w = (HttpFault 304 h text, w')"
    "int_header h ''X-RateLimit-Remaining'' = None"
  shows "\<exists>s'. request e fg pat path ''GET'' s = (Inr (cr_data c), s') \<and>
    map_of (conditional_cache s') (digest e pat, rewrite_path fg path) = Some c"
  using assms
  by (simp add: request_def Let_def raise_if_blocked_def andThen_def pace_mutation_def is_mutation_def on_fault_def
      update_rate_limit_def note_headers_def clear_failures_def move_to_end_def map_add_Some_iff split: option.splits)

lemma get_shared_hit:
  assumes "map_of (shared_scans s) (digest e pat, path) = Some (t, data)"
    "mono_op e (gh_world s) = (now, w)" "now - t < SHARED_SCAN_SECONDS"
  shows "get_shared e fg pat path s = (Inr data, s\<lparr>gh_world := w\<rparr>)"
  using assms by (simp add: get_shared_def Let_def andThen_def)

section \<open>Rate limits\<close>

lemma secondary_delay_bounds: "1 \<le> n \<Longrightarrow> 60 \<le> secondary_delay n \<and> secondary_delay n \<le> 900"
  by (simp add: secondary_delay_def SECONDARY_RATE_LIMIT_BASE_SECONDS_def SECONDARY_RATE_LIMIT_MAX_SECONDS_def)

lemma secondary_delay_mono: "m \<le> n \<Longrightarrow> secondary_delay m \<le> secondary_delay n"
proof -
  assume "m \<le> n"
  then have "nat (m - 1) \<le> nat (n - 1)" by simp
  then have "(2::int) ^ nat (m - 1) \<le> 2 ^ nat (n - 1)" by (intro power_increasing) simp_all
  then show ?thesis
    unfolding secondary_delay_def SECONDARY_RATE_LIMIT_BASE_SECONDS_def SECONDARY_RATE_LIMIT_MAX_SECONDS_def
    by linarith
qed

lemma secondary_backoff_returns:
  "\<exists>t reason s'. secondary_backoff token now s = (Inr (t, reason), s') \<and> blocked_until s' = blocked_until s"
  by (simp add: secondary_backoff_def andThen_def)

lemma rate_limit_retry_returns:
  "\<exists>t reason s'. rate_limit_retry e token h text s = (Inr (t, reason), s') \<and> blocked_until s' = blocked_until s"
proof (cases "int_header h ''Retry-After''")
  case None
  let ?now = "fst (wall_op e (gh_world s))" and ?s = "s\<lparr>gh_world := snd (wall_op e (gh_world s))\<rparr>"
  obtain t reason s' where "secondary_backoff token ?now ?s = (Inr (t, reason), s')" "blocked_until s' = blocked_until s"
    using secondary_backoff_returns [of token ?now ?s] by auto
  then show ?thesis using None
    by (cases "int_header h ''X-RateLimit-Remaining''"; cases "int_header h ''X-RateLimit-Reset''")
      (auto simp: rate_limit_retry_def andThen_def)
qed (simp add: rate_limit_retry_def andThen_def)

text \<open>A limit response blocks its token until the time it names, and no other token.\<close>

lemma on_fault_limited:
  assumes "is_rate_limit_error code h text" "code \<noteq> 304"
  shows "\<exists>t reason s'. on_fault e fg k cached code h text s = (Inl (GitHubRateLimitError t reason), s') \<and>
    t \<le> dict_get (blocked_until s') (fst k) 0 \<and>
    dict_get (blocked_until s) (fst k) 0 \<le> dict_get (blocked_until s') (fst k) 0 \<and>
    (\<forall>k'. k' \<noteq> fst k \<longrightarrow> map_of (blocked_until s') k' = map_of (blocked_until s) k')"
proof -
  obtain t reason s1 where r: "rate_limit_retry e (fst k) h text s = (Inr (t, reason), s1)"
    and same: "blocked_until s1 = blocked_until s"
    using rate_limit_retry_returns by blast
  show ?thesis using assms r same by (simp add: on_fault_def andThen_def block_token_def)
qed

lemma on_fault_retry_after:
  assumes "code = 429" "int_header h ''Retry-After'' = Some n" "wall_op e (gh_world s) = (now, w)"
  shows "\<exists>reason s'. on_fault e fg k cached code h text s = (Inl (GitHubRateLimitError (now + of_int n) reason), s')"
  using assms by (simp add: on_fault_def is_rate_limit_error_def rate_limit_retry_def andThen_def)

section \<open>Mutations are paced\<close>

text \<open>Documented behaviour of the clock: after a sleep of \<open>d\<close> it shows at least \<open>d\<close> more, and it never goes back.\<close>

definition sleeps :: "'w HttpEnv \<Rightarrow> bool" where
  "sleeps e \<longleftrightarrow>
     (\<forall>w d. 0 < d \<longrightarrow> fst (wall_op e w) + d \<le> fst (wall_op e (sleep_op e d (snd (wall_op e w))))) \<and>
     (\<forall>w. fst (wall_op e w) \<le> fst (wall_op e (snd (wall_op e w))))"

lemma pace_mutation_gap:
  assumes "sleeps e" "is_mutation meth"
  shows "\<exists>s'. pace_mutation e meth s = (Inr (), s') \<and> last_mutation_at s + MUTATION_DELAY_SECONDS \<le> last_mutation_at s' "
proof -
  let ?w = "gh_world s"
  let ?delay = "MUTATION_DELAY_SECONDS - (fst (wall_op e ?w) - last_mutation_at s)"
  show ?thesis
  proof (cases "0 < ?delay")
    case True
    then have "fst (wall_op e ?w) + ?delay \<le> fst (wall_op e (sleep_op e ?delay (snd (wall_op e ?w))))"
      using assms(1) unfolding sleeps_def by blast
    then show ?thesis using True assms(2) by (simp add: pace_mutation_def andThen_def Let_def)
  next
    case False
    have "fst (wall_op e ?w) \<le> fst (wall_op e (snd (wall_op e ?w)))" using assms(1) unfolding sleeps_def by blast
    then show ?thesis using False assms(2) by (simp add: pace_mutation_def andThen_def Let_def)
  qed
qed

section \<open>Repository listings\<close>

definition repo_pages_ok :: "PoolConfig \<Rightarrow> string list \<Rightarrow> bool" where
  "repo_pages_ok p names \<longleftrightarrow> (\<forall>n\<in>set names. n \<noteq> [] \<and> \<not> excludes_repo p n)"

lemma select_repo_ok:
  assumes "select_repo p v = Inr (Some n)"
  shows "n \<noteq> [] \<and> \<not> excludes_repo p n \<and>
    (\<not> include_public_repos p \<longrightarrow> truthy (pget (dict_items v) ''private'' (PBool True)))"
  using assms by (auto simp: select_repo_def bind_result_Inr_iff split: if_splits pyval.splits)

lemma select_repos_ok:
  assumes "map_result (select_repo p) vs = Inr names" "n \<in> set (List.map_filter (\<lambda>x. x) names)"
  shows "n \<noteq> [] \<and> \<not> excludes_repo p n"
proof -
  have "list_all (\<lambda>x. x \<noteq> Some [] \<and> (\<forall>n. x = Some n \<longrightarrow> \<not> excludes_repo p n)) names"
    by (rule map_result_list_all [OF assms(1)]) (auto dest: select_repo_ok)
  moreover have "Some n \<in> set names" using assms(2) by (auto simp: List.map_filter_def)
  ultimately show ?thesis by (auto simp: list_all_iff)
qed

lemma yields_lift: "(\<And>x. r = Inr x \<Longrightarrow> P x) \<Longrightarrow> yields P (lift_result r)"
  by (simp add: yields_def)

lemma repo_pages_yield:
  "repo_pages_ok p found \<Longrightarrow>
   yields (\<lambda>r. case r of None \<Rightarrow> True | Some names \<Rightarrow> repo_pages_ok p names) (repo_pages e fg p n page found)"
proof (induction n arbitrary: page found)
  case 0
  then show ?case by (simp add: yields_def)
next
  case (Suc n)
  have more: "repo_pages_ok p (found @ List.map_filter (\<lambda>x. x) names)"
    if "map_result (select_repo p) vs = Inr names" for vs names
    using Suc.prems select_repos_ok [OF that] by (auto simp: repo_pages_ok_def)
  have sel: "yields (\<lambda>names. repo_pages_ok p (found @ List.map_filter (\<lambda>x. x) names))
      (lift_result (map_result (select_repo p) vs))" for vs
    by (rule yields_lift) (rule more)
  show ?case unfolding repo_pages.simps(2) Let_def
    by (intro yields_andThen yields_if yields_ret yields_andThen_dep [OF sel] Suc.IH) simp_all
qed

lemma list_repositories_sound:
  "yields (\<lambda>r. case r of None \<Rightarrow> True | Some names \<Rightarrow> sorted names \<and> distinct names \<and> repo_pages_ok p names)
     (list_repositories e fg p)"
  unfolding list_repositories_def
  by (intro yields_andThen_dep [OF repo_pages_yield] yields_ret)
    (auto simp: repo_pages_ok_def split: option.splits)

text \<open>Enough fuel: the result does not change once the model's page limit is not hit.\<close>

lemma repo_pages_more_fuel:
  assumes "repo_pages e fg p n page found s = r" "fst r \<noteq> Inl (RuntimeError ''page limit of the model'')"
  shows "repo_pages e fg p (n + k) page found s = r"
  using assms
proof (induction n arbitrary: page found s)
  case 0
  then show ?case by auto
next
  case (Suc n)
  obtain q t where get: "get_request e fg (pool_pat p) (repo_page_path fg page) s = (q, t)" by force
  show ?case
  proof (cases q)
    case (Inl err)
    then show ?thesis using Suc.prems get by (simp add: andThen_def)
  next
    case (Inr data)
    then show ?thesis using Suc get
      by (cases "map_result (select_repo p) (list_items data)") (auto simp: andThen_def Let_def)
  qed
qed

section \<open>The queue scan\<close>

definition scan_ok :: "PoolConfig \<Rightarrow> QueueScan \<Rightarrow> bool" where
  "scan_ok p scan \<longleftrightarrow> qs_queued scan = int (length (filter (old_enough p) (qs_ages scan))) \<and> 0 \<le> qs_failed scan"

lemma scan_ok_simps [simp]:
  "scan_ok p empty_scan" "scan_ok p failed_scan" "scan_ok p (scan_of p ages)"
  "scan_ok p a \<Longrightarrow> scan_ok p b \<Longrightarrow> scan_ok p (add_scan a b)"
  by (simp_all add: scan_ok_def empty_scan_def failed_scan_def scan_of_def add_scan_def)

lemma scan_run_ok: "yields (\<lambda>(scan, _). scan_ok p scan) (scan_run e fg p repo run)"
  unfolding scan_run_def by (intro yields_intros) simp_all

lemma scan_runs_ok:
  "scan_ok p (fst acc) \<Longrightarrow> yields (\<lambda>(scan, _). scan_ok p scan) (scan_runs e fg p repo runs acc)"
proof (induction runs arbitrary: acc)
  case Nil
  then show ?case by (cases acc) (simp add: yields_def)
next
  case (Cons run runs)
  obtain scan jobs seen where acc: "acc = (scan, jobs, seen)" by (cases acc)
  have ok: "yields (\<lambda>x. scan_ok p (fst x)) (scan_run e fg p repo run)"
    using scan_run_ok [of p e fg repo run] by (simp add: case_prod_unfold)
  show ?case unfolding acc scan_runs.simps
    using Cons.prems acc by (intro yields_andThen yields_if Cons.IH yields_andThen_dep [OF ok]) (auto intro: Cons.IH)
qed

lemma scan_statuses_ok:
  "scan_ok p (fst acc) \<Longrightarrow> yields (\<lambda>(scan, _). scan_ok p scan) (scan_statuses e fg p repo sts acc)"
proof (induction sts arbitrary: acc)
  case Nil
  then show ?case by (cases acc) (simp add: yields_def)
next
  case (Cons st sts)
  obtain scan jobs seen where acc: "acc = (scan, jobs, seen)" by (cases acc)
  have ok: "yields (\<lambda>x. scan_ok p (fst x)) (scan_runs e fg p repo runs (scan, jobs, seen))" for runs
    using scan_runs_ok [of p "(scan, jobs, seen)" e fg repo runs] Cons.prems acc by (simp add: case_prod_unfold)
  show ?case unfolding acc scan_statuses.simps
    using Cons.prems acc
    by (intro yields_andThen yields_if Cons.IH yields_andThen_dep [OF ok]) auto
qed

lemma scan_repo_ok: "yields (\<lambda>x. scan_ok p (fst x)) (scan_repo e fg p repo)"
  unfolding scan_repo_def
  by (rule yields_andThen_dep [OF scan_statuses_ok [of p "(empty_scan, [], [])"]]) (auto intro: yields_intros)

lemma scan_repositories_ok:
  "scan_ok p (fst acc) \<Longrightarrow> yields (\<lambda>x. scan_ok p (fst x)) (scan_repositories e fg p rs acc)"
proof (induction rs arbitrary: acc)
  case Nil
  then show ?case by (simp add: yields_def)
next
  case (Cons r rs)
  then show ?case
    by (cases acc) (auto intro!: yields_andThen_dep [OF scan_repo_ok] Cons.IH)
qed

lemma scan_queue_ok: "yields (\<lambda>x. scan_ok p (fst x)) (scan_queue e fg p)"
  unfolding scan_queue_def
  by (intro yields_if scan_repo_ok yields_andThen yields_case_option yields_ret scan_repositories_ok) simp_all

section \<open>A run is scanned once\<close>

lemma scan_runs_seen:
  "scan_runs e fg p repo runs (scan, jobs, seen) s = (Inr (scan', jobs', seen'), s') \<Longrightarrow>
   set seen \<subseteq> set seen' \<and> (\<forall>run\<in>set runs. \<exists>i. py_item run ''id'' = Inr i \<and> i \<in> set seen')"
proof (induction runs arbitrary: scan jobs seen s)
  case Nil
  then show ?case by simp
next
  case (Cons run runs)
  then obtain i where i: "py_item run ''id'' = Inr i" by (cases "py_item run ''id''") (auto simp: andThen_def)
  show ?case
  proof (cases "i \<in> set seen")
    case True
    then show ?thesis using Cons i by (force simp: andThen_def)
  next
    case False
    with Cons.prems i obtain more js t where
      "scan_runs e fg p repo runs (add_scan scan more, jobs @ js, i # seen) t = (Inr (scan', jobs', seen'), s')"
      by (auto simp: andThen_def split: prod.splits sum.splits)
    from Cons.IH [OF this] i show ?thesis by auto
  qed
qed

lemma scan_runs_all_seen:
  "\<forall>run\<in>set runs. \<exists>i. py_item run ''id'' = Inr i \<and> i \<in> set seen \<Longrightarrow>
   scan_runs e fg p repo runs (scan, jobs, seen) s = (Inr (scan, jobs, seen), s)"
  by (induction runs) (auto simp: andThen_def)

section \<open>A token stays with its forge\<close>

text \<open>
  \<open>h\<close> behaves like the network of \<open>e\<close> for requests that carry this token to this base, and
  in any way whatever for all others.
\<close>

definition agrees :: "'w HttpEnv \<Rightarrow> (string \<Rightarrow> string \<Rightarrow> string \<Rightarrow> string option \<Rightarrow> 'w \<Rightarrow> http_outcome \<times> 'w) \<Rightarrow>
    string \<Rightarrow> string \<Rightarrow> bool" where
  "agrees e h pat base \<longleftrightarrow>
     (\<forall>m u t c. t = pat \<longrightarrow> starts_with u base \<longrightarrow> h m u t c = http_op e m u t c)"

lemma agrees_url: "agrees e h pat base \<Longrightarrow> h m (base @ u) pat c = http_op e m (base @ u) pat c"
  by (simp add: agrees_def)

lemma with_http [simp]:
  "update_rate_limit (e\<lparr>http_op := h\<rparr>) = update_rate_limit e"
  "rate_limit_retry (e\<lparr>http_op := h\<rparr>) = rate_limit_retry e"
  "pace_mutation (e\<lparr>http_op := h\<rparr>) = pace_mutation e"
  "job_age (e\<lparr>http_op := h\<rparr>) = job_age e"
  by (simp_all add: fun_eq_iff update_rate_limit_def rate_limit_retry_def pace_mutation_def job_age_def
      cong: if_cong option.case_cong)

lemma with_http_handlers [simp]:
  "on_response (e\<lparr>http_op := h\<rparr>) = on_response e" "on_fault (e\<lparr>http_op := h\<rparr>) = on_fault e"
  "scan_job (e\<lparr>http_op := h\<rparr>) = scan_job e"
  by (simp_all add: fun_eq_iff on_response_def on_fault_def scan_job_def cong: if_cong)

lemma request_confined:
  "agrees e h pat (api_base fg) \<Longrightarrow> request (e\<lparr>http_op := h\<rparr>) fg pat path m = request e fg pat path m"
  by (simp add: request_def Let_def agrees_url)

lemma get_shared_confined:
  "agrees e h pat (api_base fg) \<Longrightarrow> get_shared (e\<lparr>http_op := h\<rparr>) fg pat path = get_shared e fg pat path"
  by (simp add: get_shared_def get_request_def Let_def request_confined cong: if_cong)

lemma repo_pages_confined:
  "agrees e h (pool_pat p) (api_base fg) \<Longrightarrow>
   repo_pages (e\<lparr>http_op := h\<rparr>) fg p n page found = repo_pages e fg p n page found"
  by (induction n arbitrary: page found)
    (simp_all add: get_request_def request_confined fun_eq_iff andThen_def Let_def split: prod.splits sum.splits)

lemma scan_run_confined:
  "agrees e h (pool_pat p) (api_base fg) \<Longrightarrow> scan_run (e\<lparr>http_op := h\<rparr>) fg p repo run = scan_run e fg p repo run"
  by (simp add: scan_run_def get_shared_confined cong: if_cong)

lemma scan_runs_confined:
  "agrees e h (pool_pat p) (api_base fg) \<Longrightarrow>
   scan_runs (e\<lparr>http_op := h\<rparr>) fg p repo runs acc = scan_runs e fg p repo runs acc"
proof (induction runs arbitrary: acc)
  case (Cons run runs)
  then show ?case by (cases acc) (simp add: scan_run_confined cong: if_cong)
qed simp

lemma scan_statuses_confined:
  "agrees e h (pool_pat p) (api_base fg) \<Longrightarrow>
   scan_statuses (e\<lparr>http_op := h\<rparr>) fg p repo sts acc = scan_statuses e fg p repo sts acc"
proof (induction sts arbitrary: acc)
  case (Cons st sts)
  then have "scan_statuses (e\<lparr>http_op := h\<rparr>) fg p repo sts = scan_statuses e fg p repo sts" by (simp add: fun_eq_iff)
  then show ?case using Cons by (cases acc) (simp add: scan_runs_confined get_shared_confined cong: if_cong)
qed simp

lemma list_repositories_confined:
  "agrees e h (pool_pat p) (api_base fg) \<Longrightarrow>
   list_repositories (e\<lparr>http_op := h\<rparr>) fg p = list_repositories e fg p"
  by (simp add: list_repositories_def repo_pages_confined)

lemma scan_repo_confined:
  "agrees e h (pool_pat p) (api_base fg) \<Longrightarrow> scan_repo (e\<lparr>http_op := h\<rparr>) fg p repo = scan_repo e fg p repo"
  by (simp add: scan_repo_def scan_statuses_confined)

lemma scan_repositories_confined:
  "agrees e h (pool_pat p) (api_base fg) \<Longrightarrow>
   scan_repositories (e\<lparr>http_op := h\<rparr>) fg p rs acc = scan_repositories e fg p rs acc"
proof (induction rs arbitrary: acc)
  case (Cons r rs)
  then show ?case by (cases acc) (simp add: scan_repo_confined)
qed simp

lemma scan_queue_confined:
  assumes "agrees e h (pool_pat p) (api_base fg)"
  shows "scan_queue (e\<lparr>http_op := h\<rparr>) fg p = scan_queue e fg p"
proof -
  have "pool_repositories (e\<lparr>http_op := h\<rparr>) fg p = pool_repositories e fg p"
    by (simp add: pool_repositories_def list_repositories_confined [OF assms] get_request_def
        request_confined [OF assms] cong: if_cong)
  then show ?thesis
    by (simp add: scan_queue_def scan_repo_confined [OF assms] scan_repositories_confined [OF assms]
        cong: if_cong option.case_cong)
qed

lemma on_forge_cong:
  "f (forge_for (fc_reserve s) p) p = g (forge_for (fc_reserve s) p) p \<Longrightarrow> on_forge f p s = on_forge g p s"
  by (simp add: on_forge_def)

lemma api_base_forge_for [simp]: "api_base (forge_for r p) = api_base (forge_for 0 p)"
  by (simp add: forge_for_def github_forge_def)

lemma forge_api_confined:
  assumes "agrees e h (pool_pat p) (api_base (forge_for 0 p))"
  shows "list_repositories_op (forge_api (e\<lparr>http_op := h\<rparr>)) p s = list_repositories_op (forge_api e) p s"
    "get_queued_count_op (forge_api (e\<lparr>http_op := h\<rparr>)) p s = get_queued_count_op (forge_api e) p s"
    "get_queued_ages_op (forge_api (e\<lparr>http_op := h\<rparr>)) p s = get_queued_ages_op (forge_api e) p s"
    "list_runners_op (forge_api (e\<lparr>http_op := h\<rparr>)) p s = list_runners_op (forge_api e) p s"
    "deregister_runner_op (forge_api (e\<lparr>http_op := h\<rparr>)) p i s = deregister_runner_op (forge_api e) p i s"
    "forge_registration_token (e\<lparr>http_op := h\<rparr>) p s = forge_registration_token e p s"
proof -
  have a: "agrees e h (pool_pat p) (api_base (forge_for r p))" for r using assms by (simp only: api_base_forge_for [of r])
  note confined = list_repositories_confined [OF a] scan_queue_confined [OF a] request_confined [OF a]
  show "list_repositories_op (forge_api (e\<lparr>http_op := h\<rparr>)) p s = list_repositories_op (forge_api e) p s"
    by (simp add: forge_api_def) (rule on_forge_cong, simp only: confined)
  show "get_queued_count_op (forge_api (e\<lparr>http_op := h\<rparr>)) p s = get_queued_count_op (forge_api e) p s"
    by (simp add: forge_api_def) (rule on_forge_cong, simp only: get_queued_count_def confined)
  show "get_queued_ages_op (forge_api (e\<lparr>http_op := h\<rparr>)) p s = get_queued_ages_op (forge_api e) p s"
    by (simp add: forge_api_def) (rule on_forge_cong, simp only: get_queued_ages_def confined)
  show "list_runners_op (forge_api (e\<lparr>http_op := h\<rparr>)) p s = list_runners_op (forge_api e) p s"
    by (simp add: forge_api_def) (rule on_forge_cong, simp only: list_runners_def get_request_def confined)
  show "deregister_runner_op (forge_api (e\<lparr>http_op := h\<rparr>)) p i s = deregister_runner_op (forge_api e) p i s"
    by (simp add: forge_api_def) (rule on_forge_cong, simp only: gh_deregister_runner_def delete_request_def confined)
  show "forge_registration_token (e\<lparr>http_op := h\<rparr>) p s = forge_registration_token e p s"
    unfolding forge_registration_token_def
    by (rule on_forge_cong) (simp only: gitea_registration_token_def confined)
qed

section \<open>Properties\<close>

text \<open>A small network for the examples: one answer for every request, and a clock standing at 100.\<close>

definition demo_http :: "http_outcome \<Rightarrow> unit HttpEnv" where
  "demo_http r =
     \<lparr>http_op = (\<lambda>_ _ _ _ w. (r, w)), wall_op = (\<lambda>w. (100, w)), mono_op = (\<lambda>w. (7, w)), sleep_op = (\<lambda>_ w. w),
      digest = (\<lambda>s. ''#'' @ s), iso_epoch = (\<lambda>_. None), str_text = (\<lambda>_. ''?''),
      page_fuel = 3\<rparr>"

definition limited_http :: "unit HttpEnv" where
  "limited_http = demo_http (HttpFault 429 [(''Retry-After'', ''30'')] ''slow down'')"


definition demo_gitea_pool :: PoolConfig where
  "demo_gitea_pool = (new_pool ''ci'' ''secret'' ''acme'')\<lparr>pool_provider := ''gitea'', base_url := ''https://git.acme.dev/''\<rparr>"

definition leaky_network :: "string \<Rightarrow> string \<Rightarrow> string \<Rightarrow> string option \<Rightarrow> unit \<Rightarrow> http_outcome \<times> unit" where
  "leaky_network m u t c w =
     (if starts_with u ''https://git.acme.dev/api/v1'' \<and> t = ''secret'' then http_op limited_http m u t c w
      else (HttpOk 200 [] ''leaked'', w))"

definition demo_clients :: "unit ForgeClients" where
  "demo_clients = \<lparr>fc_github = new_github_client (), fc_gitea = [], fc_reserve = 100, fc_world = ()\<rparr>"


text \<open>After a rate-limit answer the token is silent: the request raises with the time to
  retry at, and until that time every further request with that token raises too, with only
  the clock read and nothing sent, while the blocks of other tokens are as before.\<close>

lemma rate_limited_token_silent:
  assumes "wall_op e (gh_world s) = (now, w)" "dict_get (blocked_until s) (digest e pat) 0 \<le> now"
    "http_op e ''GET'' (api_base fg @ rewrite_path fg path) pat
       (map_option cr_etag (map_of (conditional_cache s) (digest e pat, rewrite_path fg path))) w = (HttpFault 429 h text, w')"
  shows "\<exists>t reason s'. request e fg pat path ''GET'' s = (Inl (GitHubRateLimitError t reason), s') \<and>
    (\<forall>s2 fg2 path2 m. blocked_until s2 = blocked_until s' \<longrightarrow> fst (wall_op e (gh_world s2)) < t \<longrightarrow>
      (\<exists>t2 reason2. request e fg2 pat path2 m s2 =
         (Inl (GitHubRateLimitError t2 reason2), s2\<lparr>gh_world := snd (wall_op e (gh_world s2))\<rparr>))) \<and>
    (\<forall>k. k \<noteq> digest e pat \<longrightarrow> map_of (blocked_until s') k = map_of (blocked_until s) k)"
proof -
  let ?k = "(digest e pat, rewrite_path fg path)"
  let ?cached = "map_of (conditional_cache s) ?k"
  let ?s1 = "s\<lparr>blocked_until := dict_del (digest e pat) (blocked_until s), gh_world := w'\<rparr>"
  have step: "request e fg pat path ''GET'' s = on_fault e fg ?k ?cached 429 h text ?s1"
    using assms by (simp add: request_def Let_def raise_if_blocked_def pace_mutation_def is_mutation_def andThen_def)
  have "is_rate_limit_error 429 h text" by (simp add: is_rate_limit_error_def)
  from on_fault_limited [OF this, of e fg ?k ?cached ?s1] obtain t reason s' where
    f: "on_fault e fg ?k ?cached 429 h text ?s1 = (Inl (GitHubRateLimitError t reason), s')"
      "t \<le> dict_get (blocked_until s') (digest e pat) 0"
      "\<forall>k'. k' \<noteq> digest e pat \<longrightarrow> map_of (blocked_until s') k' = map_of (blocked_until s) k'"
    by auto
  have "request e fg2 pat path2 m s2 = (Inl (GitHubRateLimitError (dict_get (blocked_until s2) (digest e pat) 0)
      ''GitHub API cooldown is active''), s2\<lparr>gh_world := snd (wall_op e (gh_world s2))\<rparr>)"
    if "blocked_until s2 = blocked_until s'" "fst (wall_op e (gh_world s2)) < t" for s2 fg2 path2 m
    by (rule request_blocked [where now = "fst (wall_op e (gh_world s2))"]) (use that f(2) in auto)
  then show ?thesis using step f(1,3) by auto
qed

lemma rate_limited_token_silent_witness:
  "\<exists>t reason s'. request limited_http (github_forge 100) ''tok'' ''/x'' ''GET'' (new_github_client ()) =
     (Inl (GitHubRateLimitError t reason), s')"
proof -
  have "wall_op limited_http (gh_world (new_github_client ())) = (100, ())"
    "dict_get (blocked_until (new_github_client ())) (digest limited_http ''tok'') 0 \<le> (100::rat)"
    "http_op limited_http ''GET'' (api_base (github_forge 100) @ rewrite_path (github_forge 100) ''/x'') ''tok''
       (map_option cr_etag (map_of (conditional_cache (new_github_client ())) (digest limited_http ''tok'', rewrite_path (github_forge 100) ''/x''))) ()
     = (HttpFault 429 [(''Retry-After'', ''30'')] ''slow down'', ())"
    by (simp_all add: limited_http_def demo_http_def new_github_client_def)
  from rate_limited_token_silent [OF this] show ?thesis by blast
qed

text \<open>The conditional cache holds at most 2048 responses, one per token and path, through
  every request, and a \<open>304\<close> gives exactly the response that was cached and keeps it.\<close>

lemma conditional_cache_sound:
  assumes "gh_ok s"
  shows "gh_ok (snd (request e fg pat path meth s)) \<and>
    (\<forall>c now w h text w'. wall_op e (gh_world s) = (now, w) \<longrightarrow> dict_get (blocked_until s) (digest e pat) 0 \<le> now \<longrightarrow>
       map_of (conditional_cache s) (digest e pat, rewrite_path fg path) = Some c \<longrightarrow>
       http_op e ''GET'' (api_base fg @ rewrite_path fg path) pat (Some (cr_etag c)) w = (HttpFault 304 h text, w') \<longrightarrow>
       int_header h ''X-RateLimit-Remaining'' = None \<longrightarrow>
       (\<exists>s'. request e fg pat path ''GET'' s = (Inr (cr_data c), s') \<and>
          map_of (conditional_cache s') (digest e pat, rewrite_path fg path) = Some c))"
  using preservesD [OF preserves_request assms, of e fg pat path meth]
  by (auto intro!: request_not_modified)

lemma conditional_cache_sound_witness:
  "gh_ok (snd (request (demo_http (HttpOk 200 [(''ETag'', ''v1'')] ''[]'')) (github_forge 100) ''tok'' ''/x'' ''GET'' (new_github_client ()))) \<and>
   length (conditional_cache (snd (request (demo_http (HttpOk 200 [(''ETag'', ''v1'')] ''[]'')) (github_forge 100) ''tok'' ''/x'' ''GET''
     (new_github_client ())))) = 1"
proof -
  have "gh_ok (new_github_client ())" by (simp add: gh_ok_def new_github_client_def)
  from conditional_cache_sound [OF this]
  have ok: "gh_ok (snd (request (demo_http (HttpOk 200 [(''ETag'', ''v1'')] ''[]'')) (github_forge 100) ''tok'' ''/x'' ''GET''
    (new_github_client ())))" by blast
  have "length (conditional_cache (snd (request (demo_http (HttpOk 200 [(''ETag'', ''v1'')] ''[]'')) (github_forge 100) ''tok'' ''/x'' ''GET''
     (new_github_client ())))) = 1" by code_simp
  with ok show ?thesis by blast
qed

text \<open>Scaling alone and scaling in a federation see the same queue: \<open>get_queued_count\<close> is
  the number of the ages \<open>get_queued_ages\<close> returns that reach \<open>queued_min_age\<close>, with the same
  jobs collected and the same state left.\<close>

lemma queue_count_of_ages:
  assumes "get_queued_count e fg p s = (Inr (n, jobs), s')"
  shows "\<exists>ages. get_queued_ages e fg p s = (Inr (ages, jobs), s') \<and>
    n = int (length (filter (\<lambda>a. queued_min_age p = 0 \<or> age_at_least (queued_min_age p) a) ages))"
proof -
  from assms obtain scan where scan: "scan_queue e fg p s = (Inr (scan, jobs), s')" "n = qs_queued scan"
    by (auto simp: get_queued_count_def dest!: andThen_InrD)
  have "scan_ok p scan" using yieldsD [OF scan_queue_ok scan(1)] by simp
  then show ?thesis using scan
    by (auto simp: get_queued_ages_def andThen_def scan_ok_def old_enough_def [abs_def])
qed

lemma queue_count_of_ages_witness:
  "\<exists>ages. get_queued_ages (demo_http HttpFailed) (github_forge 100) demo_gitea_pool (new_github_client ()) =
     (Inr (ages, []), new_github_client ())"
proof -
  have "get_queued_count (demo_http HttpFailed) (github_forge 100) demo_gitea_pool (new_github_client ()) =
    (Inr (0, []), new_github_client ())" by code_simp
  from queue_count_of_ages [OF this] show ?thesis by blast
qed

text \<open>A run's jobs are counted once: scanning runs whose ids were all seen, whichever
  listing they come from, adds nothing to the count and sends no request.\<close>

lemma run_counted_once:
  assumes "scan_runs e fg p repo runs (scan, jobs, seen) s = (Inr (scan', jobs', seen'), s')" "set again \<subseteq> set runs"
  shows "scan_runs e fg p repo again (scan', jobs', seen') s' = (Inr (scan', jobs', seen'), s')"
  by (rule scan_runs_all_seen) (use scan_runs_seen [OF assms(1)] assms(2) in blast)

lemma run_counted_once_witness:
  "\<exists>scan' jobs' seen' s'.
     scan_runs (demo_http HttpFailed) (github_forge 100) demo_gitea_pool ''web'' [PDict [(''id'', PInt 5)]]
       (empty_scan, [], []) (new_github_client ()) = (Inr (scan', jobs', seen'), s') \<and> qs_failed scan' = 1 \<and>
     scan_runs (demo_http HttpFailed) (github_forge 100) demo_gitea_pool ''web'' [PDict [(''id'', PInt 5)]]
       (scan', jobs', seen') s' = (Inr (scan', jobs', seen'), s')"
proof -
  let ?e = "demo_http HttpFailed" and ?fg = "github_forge 100" and ?runs = "[PDict [(''id'', PInt 5)]]"
  have run: "scan_runs ?e ?fg demo_gitea_pool ''web'' ?runs (empty_scan, [], []) (new_github_client ()) =
    (Inr (failed_scan, [], [PInt 5]), new_github_client ())" by code_simp
  have "set ?runs \<subseteq> set ?runs" by simp
  from run_counted_once [OF run this] run show ?thesis by (simp add: failed_scan_def)
qed

text \<open>Repository discovery returns a sorted list without repetitions, and in it no
  repository an exclusion pattern of the pool matches.\<close>

lemma discovery_sound:
  assumes "list_repositories e fg p s = (Inr (Some names), s')"
  shows "sorted names \<and> distinct names \<and> (\<forall>n\<in>set names. n \<noteq> [] \<and> \<not> excludes_repo p n)"
  using yieldsD [OF list_repositories_sound assms] by (simp add: repo_pages_ok_def)

definition demo_page :: pyval where
  "demo_page = PList (map (\<lambda>(n, priv). PDict [(''name'', PStr n), (''private'', PBool priv),
     (''owner'', PDict [(''login'', PStr ''Me'')])]) [(''web'', True), (''old-x'', True), (''api'', True), (''site'', False)])"

definition listing_http :: "unit HttpEnv" where
  "listing_http = demo_http (HttpOk 200 [] (dumps (\<lambda>_. []) demo_page))"

definition me_pool :: PoolConfig where
  "me_pool = (new_pool ''me'' ''t'' ''me'')\<lparr>pool_scope := ''personal'', exclude_repos := ''old-*, tmp''\<rparr>"

lemma discovery_sound_witness:
  "\<exists>s'. list_repositories listing_http (github_forge 100) me_pool (new_github_client ()) = (Inr (Some [''api'', ''web'']), s') \<and>
     \<not> excludes_repo me_pool ''web''"
proof -
  let ?r = "list_repositories listing_http (github_forge 100) me_pool (new_github_client ())"
  have "fst ?r = Inr (Some [''api'', ''web''])" by code_simp
  then have r: "?r = (Inr (Some [''api'', ''web'']), snd ?r)" by (metis prod.collapse)
  from discovery_sound [OF r] have "\<not> excludes_repo me_pool ''web''" by simp
  with r show ?thesis by metis
qed

text \<open>Mutations are paced: two \<open>POST\<close>, \<open>PATCH\<close>, \<open>PUT\<close> or \<open>DELETE\<close> requests are at least one
  second apart, provided the clock shows the time slept.\<close>

lemma mutations_paced:
  assumes "\<forall>w d. 0 < d \<longrightarrow> fst (wall_op e w) + d \<le> fst (wall_op e (sleep_op e d (snd (wall_op e w))))"
    "\<forall>w. fst (wall_op e w) \<le> fst (wall_op e (snd (wall_op e w)))" "is_mutation meth"
  shows "\<exists>s'. pace_mutation e meth s = (Inr (), s') \<and> last_mutation_at s + 1 \<le> last_mutation_at s'"
proof -
  have "sleeps e" using assms(1,2) by (simp add: sleeps_def)
  from pace_mutation_gap [OF this assms(3), of s] show ?thesis by (simp add: MUTATION_DELAY_SECONDS_def)
qed

definition ticking_http :: "rat HttpEnv" where
  "ticking_http = \<lparr>http_op = (\<lambda>_ _ _ _ w. (HttpFailed, w)), wall_op = (\<lambda>w. (w, w)), mono_op = (\<lambda>w. (w, w)),
     sleep_op = (\<lambda>d w. w + d), digest = (\<lambda>s. s), iso_epoch = (\<lambda>_. None),
     str_text = (\<lambda>_. ''?''), page_fuel = 3\<rparr>"

lemma mutations_paced_witness:
  "\<exists>s'. pace_mutation ticking_http ''DELETE'' ((new_github_client 5)\<lparr>last_mutation_at := 9/2\<rparr>) = (Inr (), s') \<and>
     11/2 \<le> last_mutation_at s'"
proof -
  have "\<forall>w d. 0 < d \<longrightarrow> fst (wall_op ticking_http w) + d \<le> fst (wall_op ticking_http (sleep_op ticking_http d (snd (wall_op ticking_http w))))"
    "\<forall>w. fst (wall_op ticking_http w) \<le> fst (wall_op ticking_http (snd (wall_op ticking_http w)))" "is_mutation ''DELETE''"
    by (simp_all add: ticking_http_def is_mutation_def)
  from mutations_paced [OF this, of "(new_github_client 5)\<lparr>last_mutation_at := 9/2\<rparr>"] show ?thesis by simp
qed

end
