(* ===== verification/Repositories.thy ===== *)
theory Repositories
  imports ForgeFacts
begin

text \<open>
  What the scaler relies on when it lists the repositories of a pool: no repository comes twice.
  The contract is stated for any client; the forge clients keep it, and so does every client that
  only passes their answers on.
\<close>

locale repository_source =
  fixes list_op :: "PoolConfig \<Rightarrow> ('s, string list option) eff"
  assumes listed_once: "list_op p s = (Inr (Some names), s') \<Longrightarrow> distinct names"
begin

lemma passed_on:
  assumes "\<And>t r t'. relay t = (r, t') \<Longrightarrow> \<exists>p s s'. list_op p s = (r, s')"
  shows "yields (\<lambda>r. case r of None \<Rightarrow> True | Some names \<Rightarrow> distinct names) relay"
proof (unfold yields_def, intro allI impI)
  fix t x t'
  assume "relay t = (Inr x, t')"
  then obtain p s s' where "list_op p s = (Inr x, s')" using assms by blast
  then show "case x of None \<Rightarrow> True | Some names \<Rightarrow> distinct names" using listed_once by (auto split: option.splits)
qed

end

lemma on_forge_runs: "on_forge f p s = (r, s') \<Longrightarrow> \<exists>c c'. f (forge_for (fc_reserve s) p) p c = (r, c')"
  by (auto simp: on_forge_def split: prod.splits)

interpretation forge_lists: repository_source "list_repositories_op (forge_api e)" for e :: "'w HttpEnv"
proof
  fix p s names s'
  assume "list_repositories_op (forge_api e) p s = (Inr (Some names), s')"
  then have "on_forge (list_repositories e) p s = (Inr (Some names), s')" by (simp add: forge_api_def)
  then obtain c c' where "list_repositories e (forge_for (fc_reserve s) p) p c = (Inr (Some names), c')"
    using on_forge_runs by blast
  from yieldsD [OF list_repositories_sound this] show "distinct names" by simp
qed

end
