(* ===== verification/AllocationFacts.thy ===== *)
theory AllocationFacts
  imports Scaler
begin

text \<open>
  Spawn decisions: the bounds of \<open>_calculate_spawn_count\<close>, and what the round-robin of
  \<open>_tick_personal\<close> gives each repository. After \<open>k\<close> full rounds every repository has
  \<open>min k needed\<close>; the run ends inside or after some round, so the outcome is described by
  that round and the repositories already served in it.
\<close>

section \<open>One pool\<close>

lemma spawn_count_nonneg: "0 \<le> calculate_spawn_count p i"
  by (simp add: calculate_spawn_count_def Let_def)

lemma spawn_count_max: "insp_running i + calculate_spawn_count p i \<le> max (insp_running i) (max_runners p)"
  by (simp add: calculate_spawn_count_def Let_def)

lemma spawn_count_reaches:
  "insp_running i \<le> min (max_runners p) (max (min_idle p) (insp_busy i + insp_queued i)) \<Longrightarrow>
   insp_running i + calculate_spawn_count p i = min (max_runners p) (max (min_idle p) (insp_busy i + insp_queued i))"
  by (simp add: calculate_spawn_count_def Let_def)

section \<open>The allocation as a sum and as levels\<close>

definition allocated :: "PoolInspection list \<Rightarrow> allocations \<Rightarrow> int" where
  "allocated is a = sum_list (map (\<lambda>i. alloc_of a (repo_of i)) is)"

definition at_level :: "PoolInspection list \<Rightarrow> allocations \<Rightarrow> int \<Rightarrow> bool" where
  "at_level is a k \<longleftrightarrow> (\<forall>i\<in>set is. alloc_of a (repo_of i) = min k (needed i))"

lemma needed_nonneg [simp]: "0 \<le> needed i"
  by (simp add: needed_def)

lemma alloc_of_dict_set [simp]: "alloc_of (dict_set r n a) r' = (if r' = r then n else alloc_of a r')"
  by (simp add: alloc_of_def)

lemma allocated_Nil [simp]: "allocated [] a = 0"
  by (simp add: allocated_def)

lemma allocated_Cons [simp]: "allocated (i # is) a = alloc_of a (repo_of i) + allocated is a"
  by (simp add: allocated_def)

lemma at_level_Nil [simp]: "at_level [] a k"
  by (simp add: at_level_def)

lemma at_level_Cons [simp]:
  "at_level (i # is) a k \<longleftrightarrow> alloc_of a (repo_of i) = min k (needed i) \<and> at_level is a k"
  by (simp add: at_level_def)

lemma allocated_other [simp]: "r \<notin> repo_of ` set is \<Longrightarrow> allocated is (dict_set r n a) = allocated is a"
  by (induction "is") auto

lemma at_level_other [simp]: "r \<notin> repo_of ` set is \<Longrightarrow> at_level is (dict_set r n a) k = at_level is a k"
  by (induction "is") auto

lemma allocated_append [simp]: "allocated (us @ vs) a = allocated us a + allocated vs a"
  by (simp add: allocated_def)

text \<open>The outcome: a first part of the order at the next level, the rest at this one.\<close>

definition levels :: "PoolInspection list \<Rightarrow> allocations \<Rightarrow> int \<Rightarrow> int \<Rightarrow> bool" where
  "levels is a k c \<longleftrightarrow>
     (\<exists>us vs. is = us @ vs \<and> at_level us a (k + 1) \<and> at_level vs a k \<and> (vs \<noteq> [] \<longrightarrow> c = 0))"

lemma levels_Cons:
  "levels is a k c \<Longrightarrow> alloc_of a (repo_of i) = min (k + 1) (needed i) \<Longrightarrow> levels (i # is) a k c"
  unfolding levels_def by (metis append_Cons at_level_Cons)

lemma levels_stop: "at_level is a k \<Longrightarrow> levels is a k 0"
  unfolding levels_def by (rule exI [of _ "[]"], rule exI [of _ "is"]) simp

section \<open>One round\<close>

text \<open>What a round changes: only the repositories of its list, and the capacity by as much.\<close>

lemma round_outside:
  "allocation_round is a c b = (a', c', b') \<Longrightarrow> r \<notin> repo_of ` set is \<Longrightarrow> alloc_of a' r = alloc_of a r"
  by (induction "is" a c b rule: allocation_round.induct) (auto simp: Let_def split: if_splits)

lemma round_flag: "allocation_round is a c b = (a', c', b') \<Longrightarrow> b \<Longrightarrow> b'"
  by (induction "is" a c b rule: allocation_round.induct) (auto simp: Let_def split: if_splits)

lemma round_level:
  assumes "allocation_round is a c b = (a', c', b')" "distinct (map repo_of is)" "at_level is a k" "0 < c" "0 \<le> k"
  shows "levels is a' k c' \<and> 0 \<le> c' \<and> c' + allocated is a' = c + allocated is a \<and>
    (b' \<or> (\<forall>i\<in>set is. alloc_of a' (repo_of i) = needed i))"
  using assms
proof (induction "is" a c b rule: allocation_round.induct)
  case (1 a c b)
  then show ?case by (auto simp: levels_def)
next
  case (2 i "is" a c b)
  let ?a = "dict_set (repo_of i) (alloc_of a (repo_of i) + 1) a"
  have out: "repo_of i \<notin> repo_of ` set is" using "2.prems" by auto
  show ?case
  proof (cases "needed i \<le> alloc_of a (repo_of i)")
    case True
    then have round: "allocation_round is a c b = (a', c', b')" using "2.prems" by simp
    have same: "alloc_of a' (repo_of i) = alloc_of a (repo_of i)" by (rule round_outside [OF round out])
    have full: "alloc_of a (repo_of i) = needed i" "min (k + 1) (needed i) = needed i"
      using True "2.prems" by auto
    from "2.IH"(1) [OF True round] "2.prems" same full show ?thesis
      by (auto intro: levels_Cons)
  next
    case False
    then have less: "alloc_of a (repo_of i) + 1 = min (k + 1) (needed i)" using "2.prems" by auto
    show ?thesis
    proof (cases "c = 1")
      case True
      then have eq: "a' = ?a" "c' = 0" "b'" using False "2.prems" by (auto simp: Let_def)
      have "levels (i # is) ?a k 0" using less out "2.prems" by (intro levels_Cons levels_stop) simp_all
      then show ?thesis using eq out True by simp
    next
      case c: False
      then have round: "allocation_round is ?a (c - 1) True = (a', c', b')"
        using False "2.prems" by (simp add: Let_def)
      have same: "alloc_of a' (repo_of i) = alloc_of a (repo_of i) + 1"
        using round_outside [OF round out] by simp
      have ne: "c - 1 \<noteq> 0" using c by simp
      have "levels is a' k c' \<and> 0 \<le> c' \<and> c' + allocated is a' = c - 1 + allocated is ?a \<and>
          (b' \<or> (\<forall>i\<in>set is. alloc_of a' (repo_of i) = needed i))"
        using "2.IH"(2) [OF False refl refl ne round] "2.prems" c out by simp
      moreover have "b'" by (rule round_flag [OF round]) simp
      ultimately show ?thesis using same less out by (auto intro: levels_Cons)
    qed
  qed
qed

section \<open>The whole allocation\<close>

lemma levels_full: "levels is a k c \<Longrightarrow> c \<noteq> 0 \<Longrightarrow> at_level is a (k + 1)"
  unfolding levels_def by auto

lemma allocated_full: "\<forall>i\<in>set is. alloc_of a (repo_of i) = needed i \<Longrightarrow> allocated is a = sum_list (map needed is)"
  by (induction "is") auto

lemma allocated_le: "levels is a k c \<Longrightarrow> allocated is a \<le> sum_list (map needed is)"
proof -
  have *: "at_level xs a m \<Longrightarrow> allocated xs a \<le> sum_list (map needed xs)" for xs m
    by (induction xs) auto
  assume "levels is a k c"
  then obtain us vs where "is = us @ vs" "at_level us a (k + 1)" "at_level vs a k"
    unfolding levels_def by auto
  then show ?thesis using * [of us "k + 1"] * [of vs k] by simp
qed

lemma allocate_done: "c \<le> 0 \<Longrightarrow> allocate is a c = a"
  by (subst allocate.simps) simp

lemma allocate_levels:
  assumes "distinct (map repo_of is)" "at_level is a k" "0 \<le> k" "0 \<le> c"
  shows "\<exists>k' \<ge> 0. levels is (allocate is a c) k' 0 \<and>
    allocated is (allocate is a c) = min (c + allocated is a) (sum_list (map needed is))"
  using assms
proof (induction "is" a c arbitrary: k rule: allocate.induct)
  case (1 "is" a c)
  show ?case
  proof (cases "c \<le> 0")
    case True
    then have "allocate is a c = a" "c = 0" using 1 by (simp_all add: allocate_done)
    moreover have lev: "levels is a k 0" using 1 by (intro levels_stop)
    ultimately show ?thesis using "1.prems" allocated_le [OF lev] by auto
  next
    case False
    obtain a' c' b' where round: "allocation_round is a c False = (a', c', b')" by (metis prod_cases3)
    have step: "levels is a' k c'" "0 \<le> c'" "c' + allocated is a' = c + allocated is a"
      "b' \<or> (\<forall>i\<in>set is. alloc_of a' (repo_of i) = needed i)"
      using round_level [OF round "1.prems"(1,2)] False "1.prems" by auto
    show ?thesis
    proof (cases b')
      case True
      then have eq: "allocate is a c = allocate is a' c'" using False round by (simp add: allocate.simps [of "is" a c])
      show ?thesis
      proof (cases "c' = 0")
        case zero: True
        then have "allocate is a' c' = a'" by (simp add: allocate_done)
        then show ?thesis using eq step zero allocated_le [OF step(1)] "1.prems" by auto
      next
        case nz: False
        have "at_level is a' (k + 1)" by (rule levels_full [OF step(1) nz])
        from "1.IH" [OF False round [symmetric] refl True "1.prems"(1) this] step "1.prems"
        show ?thesis using eq by simp
      qed
    next
      case stop: False
      then have eq: "allocate is a c = a'" using False round by (simp add: allocate.simps [of "is" a c])
      have "\<forall>i\<in>set is. alloc_of a' (repo_of i) = needed i" using step(4) stop by simp
      then have full: "allocated is a' = sum_list (map needed is)" by (rule allocated_full)
      have "levels is a' k 0" using step(1) unfolding levels_def by auto
      then show ?thesis using full eq step(2,3) "1.prems" by auto
    qed
  qed
qed

section \<open>\<open>personal_allocations\<close>\<close>

lemma set_allocation_order [simp]: "set (allocation_order is) = set is"
  by (simp add: allocation_order_def)

lemma distinct_repos_order [simp]: "distinct (map repo_of (allocation_order is)) = distinct (map repo_of is)"
proof -
  have "mset (map repo_of (allocation_order is)) = mset (map repo_of is)" by (simp add: allocation_order_def)
  then show ?thesis by (metis mset_eq_imp_distinct_iff)
qed

lemma sum_needed_order [simp]: "sum_list (map needed (allocation_order is)) = sum_list (map needed is)"
proof -
  have "mset (map needed (allocation_order is)) = mset (map needed is)" by (simp add: allocation_order_def)
  then show ?thesis by (metis sum_mset_sum_list)
qed

lemma initial_allocations_zero: "alloc_of (initial_allocations is) r = 0"
proof -
  have "alloc_of a r = 0 \<Longrightarrow> alloc_of (fold (\<lambda>i a. dict_set (repo_of i) 0 a) is a) r = 0" for a
    by (induction "is" arbitrary: a) simp_all
  then show ?thesis by (simp add: initial_allocations_def alloc_of_def)
qed

lemma allocated_zero: "(\<And>i. alloc_of a (repo_of i) = 0) \<Longrightarrow> allocated is a = 0"
  by (induction "is") simp_all

lemma personal_allocations_sum_allocated:
  "sum_list (map snd (personal_allocations is c)) =
   allocated (allocation_order is) (allocate (allocation_order is) (initial_allocations is) c)"
  by (simp add: personal_allocations_def Let_def allocated_def comp_def)

lemma personal_levels:
  assumes "distinct (map repo_of is)" "0 \<le> c"
  shows "\<exists>k \<ge> 0. levels (allocation_order is) (allocate (allocation_order is) (initial_allocations is) c) k 0 \<and>
    sum_list (map snd (personal_allocations is c)) = min c (sum_list (map needed is))"
proof -
  have "at_level (allocation_order is) (initial_allocations is) 0"
    by (simp add: at_level_def initial_allocations_zero)
  then have "\<exists>k \<ge> 0. levels (allocation_order is) (allocate (allocation_order is) (initial_allocations is) c) k 0 \<and>
     allocated (allocation_order is) (allocate (allocation_order is) (initial_allocations is) c) =
     min (c + allocated (allocation_order is) (initial_allocations is)) (sum_list (map needed (allocation_order is)))"
    using assms by (intro allocate_levels [where k = 0]) simp_all
  then show ?thesis
    by (simp add: personal_allocations_sum_allocated allocated_zero initial_allocations_zero)
qed

text \<open>The same without the model's helper predicates: a round number and a first part of the order.\<close>

lemma personal_rounds:
  assumes "distinct (map repo_of is)" "0 \<le> c"
  shows "\<exists>k us vs. 0 \<le> k \<and> allocation_order is = us @ vs \<and>
    personal_allocations is c =
      map (\<lambda>i. (insp_pool i, min (k + 1) (needed i))) us @ map (\<lambda>i. (insp_pool i, min k (needed i))) vs"
proof -
  let ?a = "allocate (allocation_order is) (initial_allocations is) c"
  from personal_levels [OF assms] obtain k where k: "0 \<le> k" "levels (allocation_order is) ?a k 0"
    by auto
  then obtain us vs where uv: "allocation_order is = us @ vs" "at_level us ?a (k + 1)" "at_level vs ?a k"
    unfolding levels_def by auto
  have "personal_allocations is c = map (\<lambda>i. (insp_pool i, alloc_of ?a (repo_of i))) (us @ vs)"
    by (simp add: personal_allocations_def Let_def uv(1) [symmetric])
  also have "\<dots> = map (\<lambda>i. (insp_pool i, min (k + 1) (needed i))) us @ map (\<lambda>i. (insp_pool i, min k (needed i))) vs"
    using uv(2,3) by (simp add: at_level_def)
  finally show ?thesis using k(1) uv(1) by blast
qed

lemma personal_allocations_nonneg:
  assumes "distinct (map repo_of is)" "0 \<le> c" "(p, n) \<in> set (personal_allocations is c)"
  shows "0 \<le> n"
proof -
  from personal_rounds [OF assms(1,2)] obtain k us vs where "0 \<le> k"
    "personal_allocations is c =
      map (\<lambda>i. (insp_pool i, min (k + 1) (needed i))) us @ map (\<lambda>i. (insp_pool i, min k (needed i))) vs"
    by auto
  then show ?thesis using assms(3) by auto
qed

text \<open>What \<open>_tick_personal\<close> asks the cap for is never more than it can hand out.\<close>

lemma personal_request_needed: "personal_request p is \<le> sum_list (map needed is)"
  by (simp add: personal_request_def)

lemma personal_request_nonneg: "0 \<le> personal_request p is"
  by (auto simp: personal_request_def intro!: sum_list_nonneg_int)

section \<open>Properties\<close>

definition demo_inspection :: "string \<Rightarrow> int \<Rightarrow> int \<Rightarrow> int \<Rightarrow> PoolInspection" where
  "demo_inspection repo running queued busy =
     \<lparr>insp_pool = for_repository (new_pool ''me'' ''t'' ''me'') repo, insp_running = running,
      insp_queued = queued, insp_idle = 0, insp_busy = busy, insp_offline_runners = [],
      insp_duration_seconds = 1\<rparr>"

definition demo_inspections :: "PoolInspection list" where
  "demo_inspections = [demo_inspection ''api'' 0 1 0, demo_inspection ''docs'' 1 0 1, demo_inspection ''web'' 1 4 1]"

text \<open>Provisioning a single pool never goes past \<open>max_runners\<close> and never removes
  anything: the new runners are zero when the pool is at its target, otherwise exactly the
  difference to \<open>min(max_runners, max(min_idle, busy + queued))\<close>.\<close>

lemma spawn_count_target:
  "0 \<le> calculate_spawn_count p i \<and>
   insp_running i + calculate_spawn_count p i \<le> max (insp_running i) (max_runners p) \<and>
   insp_running i + calculate_spawn_count p i =
     max (insp_running i) (min (max_runners p) (max (min_idle p) (insp_busy i + insp_queued i)))"
  unfolding calculate_spawn_count_def Let_def by (intro conjI) linarith+

text \<open>C32. A personal pool's slots are dealt round-robin: there is a round number \<open>k\<close> such
  that the repositories at the front of the order (longest queue first, then by name) get
  their need up to \<open>k + 1\<close> and the others up to \<open>k\<close>; together they get exactly the slots
  granted, or their total need when that is smaller.\<close>

theorem personal_round_robin:
  assumes "distinct (map repo_of is)" "0 \<le> capacity"
  shows "\<exists>k us vs. 0 \<le> k \<and> allocation_order is = us @ vs \<and>
      personal_allocations is capacity =
        map (\<lambda>i. (insp_pool i, min (k + 1) (needed i))) us @ map (\<lambda>i. (insp_pool i, min k (needed i))) vs \<and>
      sum_list (map snd (personal_allocations is capacity)) = min capacity (sum_list (map needed is))"
  using personal_rounds [OF assms] personal_levels [OF assms] by blast

theorem personal_round_robin_witness:
  "sum_list (map snd (personal_allocations demo_inspections 3)) = 3 \<and>
   map snd (personal_allocations demo_inspections 3) = [2, 1, 0]"
proof -
  have "distinct (map repo_of demo_inspections)" by code_simp
  from personal_round_robin [OF this, of 3]
  have "sum_list (map snd (personal_allocations demo_inspections 3)) = min 3 (sum_list (map needed demo_inspections))"
    by auto
  moreover have "min 3 (sum_list (map needed demo_inspections)) = 3" by code_simp
  moreover have "map snd (personal_allocations demo_inspections 3) = [2, 1, 0]" by code_simp
  ultimately show ?thesis by simp
qed

end
