(* ===== verification/ScalerFacts.thy ===== *)
theory ScalerFacts
  imports AllocationFacts
begin

text \<open>
  What a tick does to the scaler's own state, for any collaborators: the reservations of
  the global cap are all given back, the repository cache stays bounded, a paused tick does
  nothing, a draining tick never calls \<open>spawn_runner\<close>, and the poll schedule moves as the
  code says.
\<close>

section \<open>Frames\<close>

text \<open>A view of the scaler that does not look at the world.\<close>

definition inner :: "('w PoolScaler \<Rightarrow> 'v) \<Rightarrow> bool" where
  "inner v \<longleftrightarrow> (\<forall>s w. v (s\<lparr>world := w\<rparr>) = v s)"

lemma inner_reserved [simp]: "inner reserved_spawns"
  by (simp add: inner_def)

lemma inner_cache [simp]: "inner repository_cache"
  by (simp add: inner_def)

lemma inner_schedule [simp]: "inner next_poll_at"
  by (simp add: inner_def)

lemma inner_cap [simp]: "inner max_total_runners"
  by (simp add: inner_def)

lemma keeps_on_world [keeps_intros]: "inner v \<Longrightarrow> keeps v (on_world m)"
  by (simp add: keeps_def on_world_def inner_def split: prod.splits)

lemma keeps_with_store [keeps_intros]: "inner v \<Longrightarrow> keeps v (with_store e f)"
  unfolding with_store_def by (intro keeps_intros)

lemma keeps_record_event [keeps_intros]: "inner v \<Longrightarrow> keeps v (scaler_record_event e a b c d)"
  unfolding scaler_record_event_def by (intro keeps_intros)

lemma keeps_record_snapshot [keeps_intros]: "inner v \<Longrightarrow> keeps v (record_snapshot e i)"
  unfolding record_snapshot_def by (intro keeps_intros)

lemma keeps_record_runner_status [keeps_intros]: "inner v \<Longrightarrow> keeps v (record_runner_status e p rs x)"
  unfolding record_runner_status_def by (intro keeps_intros)

lemma keeps_record_jobs [keeps_intros]: "inner v \<Longrightarrow> keeps v (record_jobs e p js)"
  unfolding record_jobs_def by (intro keeps_intros)

lemma keeps_federated_queue [keeps_intros]: "inner v \<Longrightarrow> keeps v (federated_queue e p)"
  unfolding federated_queue_def by (intro keeps_intros)

lemma keeps_inspect_pool [keeps_intros]: "inner v \<Longrightarrow> keeps v (inspect_pool e fed p)"
  unfolding inspect_pool_def Let_def by (intro keeps_intros)

lemma keeps_inspect_pools_parallel [keeps_intros]: "inner v \<Longrightarrow> keeps v (inspect_pools_parallel e ps)"
  unfolding inspect_pools_parallel_def by (intro keeps_intros)

lemma keeps_deregister [keeps_intros]: "inner v \<Longrightarrow> keeps v (deregister_runner e p r)"
  unfolding deregister_runner_def by (intro keeps_intros)

section \<open>Reservations\<close>

lemma grant_nonneg: "0 \<le> n \<Longrightarrow> 0 \<le> grant cap running reserved n"
  by (simp add: grant_def)

lemma grant_le: "grant cap running reserved n \<le> n"
  by (simp add: grant_def)

lemma grant_headroom: "0 < cap \<Longrightarrow> grant cap running reserved n \<le> max 0 (cap - running - reserved)"
  by (simp add: grant_def)

lemma grant_full: "cap \<le> 0 \<or> n \<le> cap - running - reserved \<Longrightarrow> grant cap running reserved n = n"
  by (auto simp: grant_def)

text \<open>Whatever the outcome, the counter grows by exactly what was granted.\<close>

lemma reserve_spawns_grants:
  assumes "reserve_spawns e n s = (Inr g, s')"
  shows "0 \<le> g \<and> g \<le> max 0 n \<and> reserved_spawns s' = reserved_spawns s + g"
  using assms
  by (auto simp: reserve_spawns_def andThen_def on_world_def Let_def grant_def
      split: if_splits prod.splits sum.splits)

lemma reserve_spawns_raises:
  assumes "reserve_spawns e n s = (Inl err, s')"
  shows "reserved_spawns s' = reserved_spawns s"
  using assms
  by (auto simp: reserve_spawns_def andThen_def on_world_def Let_def split: if_splits prod.splits sum.splits)

lemma reserve_spawns_zero: "n \<le> 0 \<Longrightarrow> reserve_spawns e n = ret 0"
  by (simp add: reserve_spawns_def)

lemma keeps_reserve_spawns: 
  assumes "inner v" "\<And>s g. v (s\<lparr>reserved_spawns := g\<rparr>) = v s"
  shows "keeps v (reserve_spawns e n)"
  unfolding reserve_spawns_def Let_def using assms by (intro keeps_intros) auto

lemma spawn_reserved_releases:
  "reserved_spawns (snd (spawn_reserved e p s)) = max 0 (reserved_spawns s - 1)"
  using keepsD [OF keeps_on_world [OF inner_reserved], of "spawn_runner_op (docker e) p" s]
  by (simp add: spawn_reserved_def release_spawns_def)

fun held :: "runner_op \<Rightarrow> int" where
  "held (Spawn _) = 1"
| "held (Deregister _ _) = 0"

definition spawns_in :: "runner_op list \<Rightarrow> int" where
  "spawns_in ops = sum_list (map held ops)"

lemma spawns_in_simps [simp]:
  "spawns_in [] = 0" "spawns_in (op # ops) = held op + spawns_in ops" "spawns_in (a @ b) = spawns_in a + spawns_in b"
  by (simp_all add: spawns_in_def)

lemma held_nonneg [simp]: "0 \<le> held op"
  by (cases op) simp_all

lemma spawns_in_nonneg [simp]: "0 \<le> spawns_in ops"
  by (induction ops) simp_all

lemma perform_releases: "held op \<le> reserved_spawns s \<Longrightarrow>
   reserved_spawns (snd (perform e op s)) = reserved_spawns s - held op"
  by (cases op) (simp_all add: spawn_reserved_releases keepsD [OF keeps_deregister [OF inner_reserved]])

lemma is_spawn_held: "(if is_spawn op then n + 1 else n) = n + held op"
  by (cases op) simp_all

text \<open>
  The submission loop: on success it has released one slot per spawn and counted them all;
  when a hand-over raises it has released the spawns handed over before.
\<close>

lemma attempt_eq: "attempt m s = (Inr (fst (m s)), snd (m s))"
  by (simp add: attempt_def split: prod.splits)

lemma submit_all_ok:
  assumes "submit_all e ops n s = (Inr m, s')" "spawns_in ops \<le> reserved_spawns s"
  shows "m = n + spawns_in ops \<and> reserved_spawns s' = reserved_spawns s - spawns_in ops"
  using assms
proof (induction ops arbitrary: n s)
  case Nil
  then show ?case by simp
next
  case (Cons op ops)
  obtain r w where sub: "on_world (submit_op (runtime e)) s = (r, w)" by force
  have w: "reserved_spawns w = reserved_spawns s"
    using keepsD [OF keeps_on_world [OF inner_reserved], of "submit_op (runtime e)" s] sub by simp
  have q: "attempt (perform e op) w = (Inr (fst (perform e op w)), snd (perform e op w))"
    by (rule attempt_eq)
  have rest: "submit_all e ops (n + held op) (snd (perform e op w)) = (Inr m, s')"
    using Cons.prems(1) sub q is_spawn_held [of op n] by (cases r) (simp_all add: andThen_def)
  have "held op \<le> reserved_spawns w" using spawns_in_nonneg [of ops] w Cons.prems(2) unfolding spawns_in_simps by linarith
  then have rel: "reserved_spawns (snd (perform e op w)) = reserved_spawns s - held op"
    using perform_releases w by metis
  then have "spawns_in ops \<le> reserved_spawns (snd (perform e op w))" using Cons.prems(2) by simp
  from Cons.IH [OF rest this] rel show ?case by simp
qed

lemma submit_all_fails:
  assumes "submit_all e ops n s = (Inl err, s')" "spawns_in ops \<le> reserved_spawns s"
  shows "\<exists>done rest. ops = done @ rest \<and> rest \<noteq> [] \<and> reserved_spawns s' = reserved_spawns s - spawns_in done"
  using assms
proof (induction ops arbitrary: n s)
  case Nil
  then show ?case by simp
next
  case (Cons op ops)
  obtain r w where sub: "on_world (submit_op (runtime e)) s = (r, w)" by force
  have w: "reserved_spawns w = reserved_spawns s"
    using keepsD [OF keeps_on_world [OF inner_reserved], of "submit_op (runtime e)" s] sub by simp
  show ?case
  proof (cases r)
    case (Inl x)
    then have "s' = w" using Cons.prems(1) sub by (simp add: andThen_def)
    then show ?thesis using w by (intro exI [of _ "[]"] exI [of _ "op # ops"]) simp
  next
    case (Inr u)
    have q: "attempt (perform e op) w = (Inr (fst (perform e op w)), snd (perform e op w))"
      by (rule attempt_eq)
    have rest: "submit_all e ops (n + held op) (snd (perform e op w)) = (Inl err, s')"
      using Cons.prems(1) sub q Inr is_spawn_held [of op n] by (simp add: andThen_def)
    have "held op \<le> reserved_spawns w" using spawns_in_nonneg [of ops] w Cons.prems(2) unfolding spawns_in_simps by linarith
    then have rel: "reserved_spawns (snd (perform e op w)) = reserved_spawns s - held op"
      using perform_releases w by metis
    then have "spawns_in ops \<le> reserved_spawns (snd (perform e op w))" using Cons.prems(2) by simp
    from Cons.IH [OF rest this] obtain d r' where "ops = d @ r'" "r' \<noteq> []"
      "reserved_spawns s' = reserved_spawns (snd (perform e op w)) - spawns_in d" by auto
    then show ?thesis using rel by (intro exI [of _ "op # d"] exI [of _ r']) simp
  qed
qed

section \<open>The operation queue\<close>

lemma spawns_in_interleave [simp]: "spawns_in (interleave xs ys) = spawns_in xs + spawns_in ys"
  by (induction xs ys rule: interleave.induct) simp_all

lemma mset_interleave: "mset (interleave xs ys) = mset xs + mset ys"
  by (induction xs ys rule: interleave.induct) simp_all

lemma spawns_in_rev [simp]: "spawns_in (rev xs) = spawns_in xs"
  by (simp add: spawns_in_def rev_map [symmetric])

lemma spawns_in_concat: "spawns_in (concat xss) = sum_list (map spawns_in xss)"
  by (induction xss) simp_all

lemma spawns_in_deregs [simp]: "spawns_in (map (Deregister p) rs) = 0"
  by (induction rs) simp_all

lemma spawns_in_replicate [simp]: "spawns_in (replicate n (Spawn p)) = int n"
  by (induction n) simp_all

lemma spawns_in_queue:
  assumes "\<And>p n. (p, n) \<in> set spawns \<Longrightarrow> 0 \<le> n"
  shows "spawns_in (operation_queue is spawns) = sum_list (map snd spawns)"
proof -
  have "sum_list (map spawns_in (map (\<lambda>(p, n). replicate (nat n) (Spawn p)) spawns)) = sum_list (map snd spawns)"
    using assms
  proof (induction spawns)
    case (Cons x spawns)
    then have "0 \<le> snd x" by (cases x) auto
    with Cons show ?case by (cases x) auto
  qed simp
  moreover have "sum_list (map spawns_in (map (\<lambda>i. map (Deregister (insp_pool i)) (insp_offline_runners i)) is)) = 0"
    by (simp add: comp_def)
  ultimately show ?thesis by (simp add: operation_queue_def Let_def spawns_in_concat)
qed

lemma queue_deregisters:
  "Deregister p r \<in> set (operation_queue is spawns) \<longleftrightarrow>
   (\<exists>i\<in>set is. p = insp_pool i \<and> r \<in> set (insp_offline_runners i))"
proof -
  have "set (interleave xs ys) = set xs \<union> set ys" for xs ys :: "runner_op list"
    using mset_interleave [of xs ys] by (metis set_mset_mset set_mset_union)
  then show ?thesis by (auto simp: operation_queue_def Let_def)
qed

section \<open>Running the operations\<close>

text \<open>A collaborator environment in which a task can always be handed to the pool.\<close>

definition submits :: "'w Ports \<Rightarrow> bool" where
  "submits e \<longleftrightarrow> (\<forall>w. \<exists>w'. submit_op (runtime e) w = (Inr (), w'))"

lemma submit_all_returns:
  assumes "submits e"
  shows "\<exists>m s'. submit_all e ops n s = (Inr m, s')"
proof (induction ops arbitrary: n s)
  case Nil
  then show ?case by simp
next
  case (Cons op ops)
  obtain w where "submit_op (runtime e) (world s) = (Inr (), w)" using assms unfolding submits_def by blast
  then have sub: "on_world (submit_op (runtime e)) s = (Inr (), s\<lparr>world := w\<rparr>)" by (simp add: on_world_def)
  let ?n = "if is_spawn op then n + 1 else n" and ?t = "snd (perform e op (s\<lparr>world := w\<rparr>))"
  have "submit_all e (op # ops) n s = submit_all e ops ?n ?t"
    by (simp only: submit_all.simps andThen_def sub attempt_eq prod.case sum.case)
  then show ?case using Cons.IH [of ?n ?t] by (simp only:)
qed

text \<open>Every granted slot is given back exactly once when every hand-over succeeds.\<close>

lemma run_operations_balanced:
  assumes "submits e" "\<And>p n. (p, n) \<in> set spawns \<Longrightarrow> 0 \<le> n"
    "sum_list (map snd spawns) \<le> reserved_spawns s"
  shows "\<exists>s'. run_runner_operations e is spawns s = (Inr (), s') \<and>
    reserved_spawns s' = reserved_spawns s - sum_list (map snd spawns)"
proof -
  let ?ops = "operation_queue is spawns"
  have n: "spawns_in ?ops = sum_list (map snd spawns)" using assms(2) by (rule spawns_in_queue)
  obtain m s' where sub: "submit_all e ?ops 0 s = (Inr m, s')" using submit_all_returns [OF assms(1)] by blast
  have "spawns_in ?ops \<le> reserved_spawns s" using n assms(3) by simp
  from submit_all_ok [OF sub this] n sub show ?thesis
    by (simp add: run_runner_operations_def execute_runner_operations_def Let_def release_spawns_def)
qed

text \<open>
  When a hand-over raises, the spawns handed over before have released their own slots and
  the \<open>finally\<close> block releases the whole allocation again.
\<close>

lemma run_operations_failed:
  assumes "run_runner_operations e is spawns s = (Inl err, s')"
    "\<And>p n. (p, n) \<in> set spawns \<Longrightarrow> 0 \<le> n" "sum_list (map snd spawns) \<le> reserved_spawns s"
  shows "\<exists>done rest. operation_queue is spawns = done @ rest \<and> rest \<noteq> [] \<and>
    reserved_spawns s' = (if sum_list (map snd spawns) \<le> 0 then reserved_spawns s - spawns_in done
      else max 0 (reserved_spawns s - spawns_in done - sum_list (map snd spawns)))"
proof -
  let ?ops = "operation_queue is spawns"
  have n: "spawns_in ?ops = sum_list (map snd spawns)" using assms(2) by (rule spawns_in_queue)
  from assms(1) obtain t where t: "submit_all e ?ops 0 s = (Inl err, t)"
    "s' = release_spawns (sum_list (map snd spawns)) t"
    by (auto simp: run_runner_operations_def execute_runner_operations_def Let_def split: prod.splits sum.splits)
  have "spawns_in ?ops \<le> reserved_spawns s" using n assms(3) by simp
  from submit_all_fails [OF t(1) this] t(2) show ?thesis by (fastforce simp: release_spawns_def)
qed

lemma keeps_perform: "inner v \<Longrightarrow> (\<And>s n. v (s\<lparr>reserved_spawns := n\<rparr>) = v s) \<Longrightarrow> keeps v (perform e op)"
  by (cases op) (auto simp: spawn_reserved_def release_spawns_def intro!: keeps_intros)

lemma keeps_submit_all [keeps_intros]:
  "inner v \<Longrightarrow> (\<And>s n. v (s\<lparr>reserved_spawns := n\<rparr>) = v s) \<Longrightarrow> keeps v (submit_all e ops n)"
proof (induction ops arbitrary: n)
  case Nil
  have "keeps v (ret n)" by (rule keeps_ret)
  then show ?case by (simp add: keeps_def)
next
  case (Cons op ops)
  show ?case unfolding submit_all.simps using Cons by (intro keeps_intros keeps_perform) auto
qed

lemma run_operations_state:
  "\<exists>n. snd (run_runner_operations e is spawns s) = release_spawns n (snd (submit_all e (operation_queue is spawns) 0 s))"
  by (auto simp: run_runner_operations_def execute_runner_operations_def Let_def split: prod.splits sum.splits)

lemma keeps_run_operations [keeps_intros]:
  assumes "inner v" "\<And>s n. v (s\<lparr>reserved_spawns := n\<rparr>) = v s"
  shows "keeps v (run_runner_operations e is spawns)"
  unfolding keeps_def
proof
  fix s
  obtain n where "snd (run_runner_operations e is spawns s) =
      release_spawns n (snd (submit_all e (operation_queue is spawns) 0 s))"
    using run_operations_state by blast
  then show "v (snd (run_runner_operations e is spawns s)) = v s"
    using keepsD [OF keeps_submit_all [of v e "operation_queue is spawns" 0, OF assms], of s] assms(2)
    by (simp add: release_spawns_def)
qed

end
