(* ===== verification/TickFacts.thy ===== *)
theory TickFacts
  imports ScalerFacts
begin

text \<open>
  Whole ticks, for any collaborators: reservations are balanced, the repository cache keeps
  its bound, a draining pool never spawns, and the poll schedule.
\<close>

section \<open>The pools of the inspections\<close>

lemma inspect_pool_of: "yields (\<lambda>i. insp_pool i = p) (inspect_pool e fed p)"
  unfolding inspect_pool_def Let_def by (intro yields_intros) simp

lemma list_all2_pools:
  assumes "list_all2 (\<lambda>p r. case r of Inl _ \<Rightarrow> True | Inr i \<Rightarrow> insp_pool i = p) ps rs" "list_all (\<lambda>r. \<not> isl r) rs"
  shows "map insp_pool (map projr rs) = ps"
  using assms by (induction ps rs rule: list_all2_induct) (auto split: sum.splits)

lemma inspect_pools_parallel_pools:
  assumes "inspect_pools_parallel e ps s = (Inr (Some is), s')"
  shows "mset (map insp_pool is) = mset ps"
proof -
  from assms obtain rs t where rs: "collect (\<lambda>p. attempt (inspect_pool e False p)) ps s = (Inr rs, t)"
    "list_all (\<lambda>r. \<not> isl r) rs" "is = sort_key (\<lambda>i. pool_repo (insp_pool i)) (map projr rs)"
    unfolding inspect_pools_parallel_def
    by (auto dest!: andThen_InrD split: option.splits if_splits)
  have "list_all2 (\<lambda>p r. case r of Inl _ \<Rightarrow> True | Inr i \<Rightarrow> insp_pool i = p) ps rs"
    using rs(1) by (rule collect_yields) (intro yields_attempt inspect_pool_of)
  from list_all2_pools [OF this rs(2)] have "map insp_pool (map projr rs) = ps" .
  then show ?thesis using rs(3) by (metis mset_map mset_sort)
qed

lemma inspected_repos_distinct:
  assumes "inspect_pools_parallel e (map (for_repository p) names) s = (Inr (Some is), s')" "distinct names"
  shows "distinct (map repo_of is)"
proof -
  have "mset (map insp_pool is) = mset (map (for_repository p) names)"
    using assms(1) by (rule inspect_pools_parallel_pools)
  then have "mset (map pool_repo (map insp_pool is)) = mset (map pool_repo (map (for_repository p) names))"
    by (metis mset_map)
  moreover have "map pool_repo (map (for_repository p) names) = names"
    by (simp add: comp_def for_repository_def)
  ultimately have "mset (map repo_of is) = mset names" by (simp add: comp_def repo_of_def [abs_def])
  then show ?thesis using assms(2) by (metis mset_eq_imp_distinct_iff)
qed

section \<open>The repository cache\<close>

definition cache_ok :: "'w PoolScaler \<Rightarrow> bool" where
  "cache_ok s \<longleftrightarrow> length (repository_cache s) \<le> MAX_REPOSITORY_CACHE_ENTRIES \<and>
     distinct (map fst (repository_cache s)) \<and> (\<forall>(k, c)\<in>set (repository_cache s). distinct (rc_repositories c))"

text \<open>What the forge client promises of \<open>list_repositories\<close>: no repository twice.\<close>

definition lists_distinct :: "'w Ports \<Rightarrow> bool" where
  "lists_distinct e \<longleftrightarrow> (\<forall>p. yields (\<lambda>r. case r of None \<Rightarrow> True | Some rs \<Rightarrow> distinct rs) (list_repositories_op (api e) p))"

text \<open>The eviction makes room for the new entry and removes nothing else.\<close>

definition evicted :: "repo_cache_key \<Rightarrow> (repo_cache_key, RepositoryCacheEntry) dict \<Rightarrow> (repo_cache_key, RepositoryCacheEntry) dict" where
  "evicted k c =
     (if map_of c k = None \<and> MAX_REPOSITORY_CACHE_ENTRIES \<le> length c
      then (case oldest_key c of None \<Rightarrow> c | Some old \<Rightarrow> dict_del old c) else c)"

lemma store_repositories_evicted:
  "repository_cache (store_repositories k rs t s) =
   dict_set k \<lparr>rc_repositories = rs, rc_expires_at = t\<rparr> (evicted k (repository_cache s))"
  by (simp add: store_repositories_def Let_def evicted_def)

lemma oldest_key_in: "c \<noteq> [] \<Longrightarrow> \<exists>k. oldest_key c = Some k \<and> k \<in> fst ` set c"
proof (cases c)
  case (Cons x xs)
  then show ?thesis using min_by_in [of "\<lambda>kv. rc_expires_at (snd kv)" x xs]
    by (auto simp: oldest_key_def)
qed simp

lemma evicted_subset: "set (evicted k c) \<subseteq> set c"
  by (auto simp: evicted_def AList.delete_eq split: option.splits)

lemma evicted_distinct: "distinct (map fst c) \<Longrightarrow> distinct (map fst (evicted k c))"
  by (auto simp: evicted_def distinct_dict_del split: option.splits)

lemma evicted_room:
  assumes "length c \<le> MAX_REPOSITORY_CACHE_ENTRIES"
  shows "length (evicted k c) \<le> MAX_REPOSITORY_CACHE_ENTRIES \<and>
    (k \<notin> fst ` set (evicted k c) \<longrightarrow> length (evicted k c) < MAX_REPOSITORY_CACHE_ENTRIES)"
proof (cases "map_of c k = None \<and> MAX_REPOSITORY_CACHE_ENTRIES \<le> length c")
  case True
  then have "c \<noteq> []" by (auto simp: MAX_REPOSITORY_CACHE_ENTRIES_def)
  from oldest_key_in [OF this] obtain old where old: "oldest_key c = Some old" "old \<in> fst ` set c" by auto
  then have "evicted k c = dict_del old c" using True by (simp add: evicted_def)
  then show ?thesis using length_dict_del_less [OF old(2)] assms by simp
next
  case False
  then have "evicted k c = c" by (auto simp: evicted_def)
  moreover have "k \<notin> fst ` set c \<Longrightarrow> map_of c k = None" by (simp add: map_of_eq_None_iff)
  ultimately show ?thesis using False assms by auto
qed

lemma store_repositories_ok:
  assumes "cache_ok s" "distinct rs"
  shows "cache_ok (store_repositories k rs t s)"
proof -
  let ?c = "repository_cache s" and ?new = "\<lparr>rc_repositories = rs, rc_expires_at = t\<rparr>"
  have "length ?c \<le> MAX_REPOSITORY_CACHE_ENTRIES" using assms(1) by (simp add: cache_ok_def)
  from evicted_room [OF this, of k]
  have "length (dict_set k ?new (evicted k ?c)) \<le> MAX_REPOSITORY_CACHE_ENTRIES"
    by (auto simp: length_dict_set)
  moreover have "distinct (map fst (dict_set k ?new (evicted k ?c)))"
    using assms(1) by (intro distinct_dict_set evicted_distinct) (simp add: cache_ok_def)
  moreover have "\<forall>(k, c)\<in>set (dict_set k ?new (evicted k ?c)). distinct (rc_repositories c)"
    using assms set_dict_set_subset [of k ?new "evicted k ?c"] evicted_subset [of k ?c]
    by (fastforce simp: cache_ok_def)
  ultimately show ?thesis by (simp add: cache_ok_def store_repositories_evicted)
qed

lemma cache_ok_forget:
  assumes "cache_ok s"
  shows "cache_ok (s\<lparr>repository_cache := dict_del k (repository_cache s)\<rparr>)"
proof -
  have "length (dict_del k (repository_cache s)) \<le> MAX_REPOSITORY_CACHE_ENTRIES"
    using assms length_dict_del_le [of k "repository_cache s"] by (simp add: cache_ok_def)
  moreover have "distinct (map fst (dict_del k (repository_cache s)))"
    using assms by (intro distinct_dict_del) (simp add: cache_ok_def)
  ultimately show ?thesis using assms by (auto simp: cache_ok_def AList.delete_eq)
qed

lemma keeps_cache_preserves: "keeps repository_cache m \<Longrightarrow> preserves cache_ok m"
  unfolding cache_ok_def [abs_def]
  by (rule keeps_preserves [where v = repository_cache and J = "\<lambda>c. length c \<le> MAX_REPOSITORY_CACHE_ENTRIES \<and>
     distinct (map fst c) \<and> (\<forall>(k, c)\<in>set c. distinct (rc_repositories c))"]) simp_all

lemma cache_ok_found:
  "cache_ok s \<Longrightarrow> map_of (repository_cache s) k = Some c \<Longrightarrow> distinct (rc_repositories c)"
  unfolding cache_ok_def by (auto dest!: map_of_SomeD)

lemma yields_on_world: "yields P m \<Longrightarrow> yields P (on_world m)"
  unfolding yields_def on_world_def by (auto split: prod.splits)

lemma preserves_cache_on_world: "preserves cache_ok (on_world m)"
  by (intro keeps_cache_preserves keeps_intros inner_cache)

lemma preserves_cache_discovery:
  assumes "lists_distinct e"
  shows "preserves cache_ok (get_personal_repositories e p now)"
proof -
  have src: "yields (\<lambda>r. case r of None \<Rightarrow> True | Some rs \<Rightarrow> distinct rs) (on_world (list_repositories_op (api e) p))"
    using assms unfolding lists_distinct_def by (intro yields_on_world) blast
  show ?thesis unfolding get_personal_repositories_def Let_def
    by (intro preserves_andThen preserves_if preserves_read preserves_ret
        preserves_andThen_yields [OF preserves_cache_on_world src] preserves_case_option
        preserves_update cache_ok_forget store_repositories_ok) simp_all
qed

lemma discovered_distinct:
  assumes "lists_distinct e" "cache_ok s" "get_personal_repositories e p now s = (Inr rs, s')"
  shows "distinct rs"
proof -
  let ?k = "cache_key e p"
  define cached where "cached = (case map_of (repository_cache s) ?k of None \<Rightarrow> [] | Some c \<Rightarrow> rc_repositories c)"
  have c: "distinct cached" using cache_ok_found [OF assms(2)] by (simp add: cached_def split: option.splits)
  have src: "yields (\<lambda>r. case r of None \<Rightarrow> True | Some rs \<Rightarrow> distinct rs) (on_world (list_repositories_op (api e) p))"
    using assms(1) unfolding lists_distinct_def by (intro yields_on_world) blast
  have "yields distinct (andThen (on_world (list_repositories_op (api e) p)) (\<lambda>found.
           case found of
             None \<Rightarrow> ret cached
           | Some repos \<Rightarrow>
               if repo_discovery_ttl p = 0
               then andThen (update_state (\<lambda>s. s\<lparr>repository_cache := dict_del ?k (repository_cache s)\<rparr>))
                      (\<lambda>_. ret repos)
               else andThen (update_state (store_repositories ?k repos (now + of_int (repo_discovery_ttl p))))
                      (\<lambda>_. ret repos)))"
    using c by (intro yields_andThen_dep [OF src] yields_intros) simp_all
  then show ?thesis
    using assms(3) c unfolding get_personal_repositories_def Let_def cached_def
    by (auto dest: yieldsD split: if_splits)
qed

section \<open>A tick gives back what it reserves\<close>

definition reserves :: "int \<Rightarrow> 'w PoolScaler \<Rightarrow> bool" where
  "reserves n s \<longleftrightarrow> reserved_spawns s = n"

lemma keeps_reserves: "keeps reserved_spawns m \<Longrightarrow> preserves (reserves n) m"
  by (rule keeps_preserves [where v = reserved_spawns and J = "\<lambda>r. r = n"]) (simp_all add: reserves_def)

text \<open>Reserving and then running the operations: the heart of both kinds of tick.\<close>

lemma reserve_and_run:
  fixes e :: "'w Ports"
  assumes "submits e" "0 \<le> r"
    and alloc: "\<And>g. 0 \<le> g \<Longrightarrow> g \<le> max 0 n \<Longrightarrow>
      sum_list (map snd (f g)) = g \<and> (\<forall>(p, m)\<in>set (f g). 0 \<le> m)"
  shows "preserves (reserves r) (andThen (reserve_spawns e n) (\<lambda>g. run_runner_operations e is (f g)))"
proof (rule preservesI)
  fix s :: "'w PoolScaler" assume r: "reserves r s"
  obtain q t where res: "reserve_spawns e n s = (q, t)" by force
  show "reserves r (snd (andThen (reserve_spawns e n) (\<lambda>g. run_runner_operations e is (f g)) s))"
  proof (cases q)
    case (Inl err)
    then show ?thesis using res reserve_spawns_raises [of e n s err t] r by (simp add: reserves_def)
  next
    case (Inr g)
    from reserve_spawns_grants [OF res [unfolded Inr]]
    have g: "0 \<le> g" "g \<le> max 0 n" "reserved_spawns t = r + g" using r by (auto simp: reserves_def)
    from alloc [OF g(1,2)] have f: "sum_list (map snd (f g)) = g" "\<And>p m. (p, m) \<in> set (f g) \<Longrightarrow> 0 \<le> m" by auto
    have "sum_list (map snd (f g)) \<le> reserved_spawns t" using f g assms(2) by simp
    then have "\<exists>s'. run_runner_operations e is (f g) t = (Inr (), s') \<and>
        reserved_spawns s' = reserved_spawns t - sum_list (map snd (f g))"
      by (intro run_operations_balanced assms(1) f(2))
    then obtain s' where "run_runner_operations e is (f g) t = (Inr (), s')" "reserved_spawns s' = r"
      using f(1) g by auto
    then show ?thesis using res Inr by (simp add: reserves_def)
  qed
qed

lemma tick_single_reserves:
  assumes "submits e" "0 \<le> r"
  shows "preserves (reserves r) (tick_single e p draining)"
  unfolding tick_single_def Let_def
  by (intro preserves_andThen reserve_and_run assms preserves_read keeps_reserves keeps_intros inner_reserved) auto

text \<open>
  The tick of a personal pool uses the repositories it discovered, so it needs the
  invariant of the cache beside the count.
\<close>

lemma tick_personal_scaling:
  assumes "submits e" "0 \<le> r" "distinct names"
  shows "preserves (reserves r) (andThen (inspect_pools_parallel e (map (for_repository p) names)) (\<lambda>found.
       case found of
         None \<Rightarrow> ret ()
       | Some inspections \<Rightarrow>
           andThen (each (record_snapshot e) inspections) (\<lambda>_.
           andThen (if draining then ret 0 else reserve_spawns e (personal_request p inspections)) (\<lambda>capacity.
             run_runner_operations e inspections (personal_allocations inspections capacity)))))"
proof -
  have scale: "preserves (reserves r) (andThen (if draining then ret 0 else reserve_spawns e (personal_request p is))
      (\<lambda>capacity. run_runner_operations e is (personal_allocations is capacity)))"
    if d: "distinct (map repo_of is)" for "is"
  proof -
    have alloc: "sum_list (map snd (personal_allocations is g)) = g \<and> (\<forall>(q, m)\<in>set (personal_allocations is g). 0 \<le> m)"
      if "0 \<le> g" "g \<le> max 0 n" "n \<le> sum_list (map needed is)" for g n
    proof -
      have "0 \<le> sum_list (map needed is)" by (rule sum_list_nonneg_int) simp
      then have "min g (sum_list (map needed is)) = g" using that by auto
      then have "sum_list (map snd (personal_allocations is g)) = g" using personal_levels [OF d that(1)] by auto
      then show ?thesis using personal_allocations_nonneg [OF d that(1)] by auto
    qed
    show ?thesis
    proof (cases draining)
      case True
      have "preserves (reserves r) (andThen (reserve_spawns e 0) (\<lambda>g. run_runner_operations e is (personal_allocations is g)))"
        by (rule reserve_and_run [OF assms(1,2)]) (rule alloc [where n = 0], auto intro: sum_list_nonneg_int)
      then show ?thesis using True by (simp add: reserve_spawns_zero)
    next
      case False
      have "preserves (reserves r) (andThen (reserve_spawns e (personal_request p is))
          (\<lambda>g. run_runner_operations e is (personal_allocations is g)))"
        by (rule reserve_and_run [OF assms(1,2)]) (erule alloc, assumption, rule personal_request_needed)
      then show ?thesis using False by simp
    qed
  qed
  have y: "yields (\<lambda>found. case found of None \<Rightarrow> True | Some is \<Rightarrow> distinct (map repo_of is))
      (inspect_pools_parallel e (map (for_repository p) names))"
    unfolding yields_def using inspected_repos_distinct [OF _ assms(3)] by (auto split: option.splits)
  have pr: "preserves (reserves r) (inspect_pools_parallel e (map (for_repository p) names))"
    by (intro keeps_reserves keeps_intros inner_reserved)
  show ?thesis
  proof (rule preserves_andThen_yields [OF pr y])
    fix found assume found: "case found of None \<Rightarrow> True | Some is \<Rightarrow> distinct (map repo_of is)"
    have snaps: "preserves (reserves r) (each (record_snapshot e) is)" for "is"
      by (intro keeps_reserves keeps_intros inner_reserved)
    show "preserves (reserves r) (case found of None \<Rightarrow> ret ()
       | Some inspections \<Rightarrow>
           andThen (each (record_snapshot e) inspections) (\<lambda>_.
           andThen (if draining then ret 0 else reserve_spawns e (personal_request p inspections)) (\<lambda>capacity.
             run_runner_operations e inspections (personal_allocations inspections capacity))))"
      using found by (intro preserves_case_option preserves_andThen [OF snaps] scale preserves_ret) simp_all
  qed
qed

text \<open>The invariant of the scaler between ticks: the reservations of the other ticks, and the cache.\<close>

definition scaler_ok :: "int \<Rightarrow> 'w PoolScaler \<Rightarrow> bool" where
  "scaler_ok r s \<longleftrightarrow> reserves r s \<and> cache_ok s"

lemma scaler_okI: "preserves (reserves r) m \<Longrightarrow> preserves cache_ok m \<Longrightarrow> preserves (scaler_ok r) m"
  by (simp add: preserves_def scaler_ok_def)

lemma cache_ok_reserved [simp]: "cache_ok (s\<lparr>reserved_spawns := n\<rparr>) = cache_ok s"
  by (simp add: cache_ok_def)

lemma keeps_cache_reserve [keeps_intros]: "keeps repository_cache (reserve_spawns e n)"
  by (rule keeps_reserve_spawns) simp_all

lemma keeps_cache_run [keeps_intros]: "keeps repository_cache (run_runner_operations e is spawns)"
  by (rule keeps_run_operations) simp_all

lemma tick_single_cache: "preserves cache_ok (tick_single e p draining)"
  unfolding tick_single_def Let_def by (intro keeps_cache_preserves keeps_intros inner_cache) auto

lemma tick_personal_ok:
  fixes e :: "'w Ports"
  assumes "submits e" "lists_distinct e" "0 \<le> r"
  shows "preserves (scaler_ok r) (tick_personal e p now draining)"
proof -
  let ?scale = "\<lambda>names. andThen (inspect_pools_parallel e (map (for_repository p) names)) (\<lambda>found.
       case found of
         None \<Rightarrow> ret ()
       | Some inspections \<Rightarrow>
           andThen (each (record_snapshot e) inspections) (\<lambda>_.
           andThen (if draining then ret 0 else reserve_spawns e (personal_request p inspections)) (\<lambda>capacity.
             run_runner_operations e inspections (personal_allocations inspections capacity))))"
  have scale: "preserves (scaler_ok r) (?scale names)" if "distinct names" for names
  proof (rule scaler_okI)
    show "preserves (reserves r) (?scale names)" by (rule tick_personal_scaling [OF assms(1,3) that])
    show "preserves cache_ok (?scale names)"
      by (intro keeps_cache_preserves keeps_intros inner_cache)
  qed
  have disc: "preserves (scaler_ok r) (get_personal_repositories e p now)"
    by (rule scaler_okI, unfold get_personal_repositories_def Let_def,
        intro keeps_reserves keeps_intros inner_reserved)
      (auto simp: store_repositories_def Let_def get_personal_repositories_def [symmetric]
        intro: preserves_cache_discovery [OF assms(2), unfolded get_personal_repositories_def Let_def])
  show ?thesis unfolding tick_personal_def
  proof (rule preserves_andThen_dep [OF disc])
    fix s :: "'w PoolScaler" and names s'
    assume s: "scaler_ok r s" "get_personal_repositories e p now s = (Inr names, s')"
    have "distinct names" using s by (auto simp: scaler_ok_def intro: discovered_distinct [OF assms(2)])
    moreover have "scaler_ok r s'" using preservesD [OF disc s(1)] s(2) by simp
    ultimately show "scaler_ok r (snd ((if names = [] then ret () else ?scale names) s'))"
      using preservesD [OF scale] by simp
  qed
qed

lemma tick_single_ok: "submits e \<Longrightarrow> 0 \<le> r \<Longrightarrow> preserves (scaler_ok r) (tick_single e p draining)"
  by (intro scaler_okI tick_single_reserves tick_single_cache)

lemma scaler_ok_schedule [simp]: "scaler_ok r (s\<lparr>next_poll_at := d\<rparr>) = scaler_ok r s"
  by (simp add: scaler_ok_def reserves_def cache_ok_def)

lemma preserves_ok_on_world [preserves_intros]: "preserves (scaler_ok r) (on_world m)"
  by (intro scaler_okI keeps_reserves keeps_cache_preserves keeps_intros inner_reserved inner_cache)

lemma tick_ok:
  assumes "submits e" "lists_distinct e" "0 \<le> r"
  shows "preserves (scaler_ok r) (tick e p state)"
proof -
  have body: "preserves (scaler_ok r) (tick_body e p d now)" for d now
    unfolding tick_body_def
    by (rule preserves_catch)
      (auto intro!: tick_single_ok tick_personal_ok assms preserves_intros simp: backoff_poll_def Let_def split: py_error.splits)
  show ?thesis unfolding tick_def Let_def
    by (intro preserves_if preserves_andThen preserves_read preserves_ret preserves_update preserves_ok_on_world body) simp_all
qed

section \<open>A draining pool never spawns\<close>

text \<open>The same collaborators with another \<open>spawn_runner\<close>.\<close>

definition with_spawn :: "'w Ports \<Rightarrow> (PoolConfig \<Rightarrow> ('w, bool) eff) \<Rightarrow> 'w Ports" where
  "with_spawn e f = e\<lparr>docker := (docker e)\<lparr>spawn_runner_op := f\<rparr>\<rparr>"

lemma with_spawn_fields [simp]:
  "api (with_spawn e f) = api e" "store (with_spawn e f) = store e" "runtime (with_spawn e f) = runtime e"
  "running_containers_op (docker (with_spawn e f)) = running_containers_op (docker e)"
  "cleanup_exited_op (docker (with_spawn e f)) = cleanup_exited_op (docker e)"
  "cleanup_stuck_op (docker (with_spawn e f)) = cleanup_stuck_op (docker e)"
  by (simp_all add: with_spawn_def)

lemma with_spawn_recording [simp]:
  "with_store (with_spawn e f) g = with_store e g"
  "scaler_record_event (with_spawn e f) a b c d = scaler_record_event e a b c d"
  "record_snapshot (with_spawn e f) = record_snapshot e"
  "record_runner_status (with_spawn e f) p rs x = record_runner_status e p rs x"
  "record_jobs (with_spawn e f) p js = record_jobs e p js"
  by (simp_all add: fun_eq_iff with_store_def scaler_record_event_def record_snapshot_def record_runner_status_def record_jobs_def)

lemma with_spawn_inspect [simp]:
  "inspect_pool (with_spawn e f) fed p = inspect_pool e fed p"
  "inspect_pools_parallel (with_spawn e f) ps = inspect_pools_parallel e ps"
  by (simp_all add: inspect_pool_def federated_queue_def inspect_pools_parallel_def)

lemma with_spawn_other [simp]:
  "deregister_runner (with_spawn e f) p r = deregister_runner e p r"
  "reserve_spawns (with_spawn e f) n = reserve_spawns e n"
  "get_personal_repositories (with_spawn e f) p now = get_personal_repositories e p now"
  "pool_key (with_spawn e f) p = pool_key e p"
  by (simp_all add: deregister_runner_def reserve_spawns_def get_personal_repositories_def cache_key_def pool_key_def
      cong: if_cong)

lemma submit_all_without_spawns:
  "\<forall>op\<in>set ops. \<not> is_spawn op \<Longrightarrow> submit_all (with_spawn e f) ops n = submit_all e ops n"
proof (induction ops arbitrary: n)
  case Nil
  then show ?case by (simp add: fun_eq_iff)
next
  case (Cons op ops)
  then have "perform (with_spawn e f) op = perform e op" by (cases op) simp_all
  then show ?case using Cons by simp
qed

lemma queue_without_spawns:
  assumes "\<forall>(p, n)\<in>set spawns. n \<le> 0"
  shows "\<forall>op\<in>set (operation_queue is spawns). \<not> is_spawn op"
proof -
  have "set (interleave xs ys) = set xs \<union> set ys" for xs ys :: "runner_op list"
    using mset_interleave [of xs ys] by (metis set_mset_mset set_mset_union)
  then show ?thesis using assms by (fastforce simp: operation_queue_def Let_def)
qed

lemma run_without_spawns:
  "\<forall>(p, n)\<in>set spawns. n \<le> 0 \<Longrightarrow>
   run_runner_operations (with_spawn e f) is spawns = run_runner_operations e is spawns"
  by (simp add: fun_eq_iff run_runner_operations_def execute_runner_operations_def
      submit_all_without_spawns [OF queue_without_spawns])

lemma personal_allocations_zero: "\<forall>(p, n)\<in>set (personal_allocations is 0). n \<le> 0"
  by (auto simp: personal_allocations_def Let_def allocate_done initial_allocations_zero)

lemma tick_draining_ignores_spawn:
  assumes "st_draining state"
  shows "tick (with_spawn e f) p state = tick e p state"
proof -
  have run: "run_runner_operations (with_spawn e f) is [(p, 0)] = run_runner_operations e is [(p, 0)]" for "is"
    by (rule run_without_spawns) simp
  have single: "tick_single (with_spawn e f) p True = tick_single e p True"
    by (simp add: tick_single_def reserve_spawns_zero run cong: option.case_cong)
  have personal: "tick_personal (with_spawn e f) p now True = tick_personal e p now True" for now
    by (simp add: tick_personal_def run_without_spawns [OF personal_allocations_zero] cong: if_cong option.case_cong)
  show ?thesis using assms
    by (simp add: tick_def Let_def tick_body_def single personal cong: if_cong py_error.case_cong)
qed

section \<open>The poll schedule\<close>

lemma tick_paused: "st_paused state \<Longrightarrow> tick e p state s = (Inr (), s)"
  by (simp add: tick_def)

lemma on_world_Inr: "m (world s) = (Inr x, w) \<Longrightarrow> on_world m s = (Inr x, s\<lparr>world := w\<rparr>)"
  by (simp add: on_world_def)

lemma on_world_Inl: "m (world s) = (Inl x, w) \<Longrightarrow> on_world m s = (Inl x, s\<lparr>world := w\<rparr>)"
  by (simp add: on_world_def)

lemma tick_deferred:
  assumes "\<not> st_paused state" "monotonic_op (runtime e) (world s) = (Inr now, w)"
    "now < dict_get (next_poll_at s) (pool_key e p) 0"
  shows "tick e p state s = (Inr (), s\<lparr>world := w\<rparr>)"
  using assms by (simp add: tick_def on_world_Inr Let_def)

lemma keeps_schedule_single: "keeps next_poll_at (tick_single e p d)"
  unfolding tick_single_def Let_def
  by (intro keeps_intros keeps_reserve_spawns inner_schedule) simp_all

lemma keeps_schedule_discovery: "keeps next_poll_at (get_personal_repositories e p now)"
  unfolding get_personal_repositories_def Let_def
  by (intro keeps_intros inner_schedule) (simp_all add: store_repositories_def Let_def)

lemma keeps_schedule_personal: "keeps next_poll_at (tick_personal e p now d)"
  unfolding tick_personal_def
  by (intro keeps_intros keeps_schedule_discovery keeps_reserve_spawns inner_schedule) simp_all

definition scaling :: "'w Ports \<Rightarrow> PoolConfig \<Rightarrow> bool \<Rightarrow> rat \<Rightarrow> ('w PoolScaler, unit) eff" where
  "scaling e p d now = (if is_personal_level p then tick_personal e p now d else tick_single e p d)"

lemma keeps_schedule_scaling: "keeps next_poll_at (scaling e p d now)"
  unfolding scaling_def by (intro keeps_if keeps_schedule_single keeps_schedule_personal)

text \<open>
  A rate limit anywhere in the scan ends the tick normally and moves the pool's next poll
  past the limit; the schedule of the other pools stays.
\<close>

lemma tick_body_rate_limited:
  assumes "scaling e p d now s = (Inl (GitHubRateLimitError retry_at reason), s')"
    "wall_clock_op (runtime e) (world s') = (Inr wall, w)"
  shows "tick_body e p d now s = (Inr (), backoff_poll (pool_key e p) now retry_at wall (s'\<lparr>world := w\<rparr>))"
  using assms by (simp add: tick_body_def scaling_def [symmetric] catch_def on_world_Inr)

lemma backoff_poll_schedule:
  "map_of (next_poll_at (backoff_poll k now retry_at wall s)) k' =
   (if k' = k then Some (max (dict_get (next_poll_at s) k 0) (now + max 1 (retry_at - wall)))
    else map_of (next_poll_at s) k')"
  by (simp add: backoff_poll_def Let_def)

section \<open>Properties\<close>

text \<open>
  A small world for the examples: its state is the number of containers \<open>docker ps\<close> lists.
\<close>

definition demo_docker :: "nat ContainerManager" where
  "demo_docker = \<lparr>running_containers_op = (\<lambda>_ n. (Inr (replicate n ''x''), n)),
     cleanup_exited_op = (\<lambda>_. ret ()), cleanup_stuck_op = (\<lambda>_ _ _. ret ()),
     spawn_runner_op = (\<lambda>_ n. (Inr True, Suc n))\<rparr>"

definition demo_api :: "nat RunnerAPIClient" where
  "demo_api = \<lparr>list_repositories_op = (\<lambda>_. ret (Some [''api'', ''web''])),
     get_queued_count_op = (\<lambda>_. ret (2, [])), get_queued_ages_op = (\<lambda>_. ret ([], [])),
     list_runners_op = (\<lambda>_. ret (Some [])), deregister_runner_op = (\<lambda>_ _. ret True)\<rparr>"

definition demo_runtime :: "(nat, unit) eff \<Rightarrow> nat RuntimeEnv" where
  "demo_runtime sub = \<lparr>monotonic_op = ret 10, wall_clock_op = ret 100, submit_op = sub, sha256_op = (\<lambda>s. s)\<rparr>"

definition demo_ports :: "nat Ports" where
  "demo_ports = \<lparr>api = demo_api, docker = demo_docker, store = None, runtime = demo_runtime (ret ())\<rparr>"

definition demo_personal :: PoolConfig where
  "demo_personal = (new_pool ''me'' ''t'' ''me'')\<lparr>pool_scope := ''personal''\<rparr>"

lemma demo_ports_laws: "submits demo_ports" "lists_distinct demo_ports"
  by (simp_all add: submits_def lists_distinct_def yields_def demo_ports_def demo_runtime_def demo_api_def)



text \<open>C34. A draining pool never provisions: its tick does not depend on \<open>spawn_runner\<close> at
  all, so replacing that operation by any other changes nothing.\<close>

theorem draining_never_spawns:
  assumes "st_draining state"
  shows "tick (e\<lparr>docker := (docker e)\<lparr>spawn_runner_op := f\<rparr>\<rparr>) p state = tick e p state"
  using tick_draining_ignores_spawn [OF assms, of e f p] by (simp add: with_spawn_def)

theorem draining_never_spawns_witness:
  "world (snd (tick demo_ports demo_personal \<lparr>st_paused = False, st_draining = True\<rparr> (new_scaler 5 1))) = 1"
proof -
  have "tick (demo_ports\<lparr>docker := (docker demo_ports)\<lparr>spawn_runner_op := \<lambda>_. ret False\<rparr>\<rparr>) demo_personal
      \<lparr>st_paused = False, st_draining = True\<rparr> = tick demo_ports demo_personal \<lparr>st_paused = False, st_draining = True\<rparr>"
    by (rule draining_never_spawns) simp
  then have eq: "tick demo_ports demo_personal \<lparr>st_paused = False, st_draining = True\<rparr> =
    tick (demo_ports\<lparr>docker := (docker demo_ports)\<lparr>spawn_runner_op := \<lambda>_. ret False\<rparr>\<rparr>) demo_personal
      \<lparr>st_paused = False, st_draining = True\<rparr>" by (rule sym)
  show ?thesis by (subst eq) code_simp
qed

text \<open>A paused pool is left alone, and a pool whose next poll is not due only reads the
  clock: in both cases the tick returns normally with the scaler unchanged.\<close>

lemma tick_skipped:
  assumes "st_paused state \<or>
    (monotonic_op (runtime e) (world s) = (Inr now, world s) \<and> now < dict_get (next_poll_at s) (pool_key e p) 0)"
  shows "tick e p state s = (Inr (), s)"
proof (cases "st_paused state")
  case True
  then show ?thesis by (rule tick_paused)
next
  case False
  with assms tick_deferred [OF False, of e s now "world s" p] show ?thesis by simp
qed

lemma tick_skipped_witness:
  "tick demo_ports demo_personal \<lparr>st_paused = True, st_draining = False\<rparr> (new_scaler 5 1) = (Inr (), new_scaler 5 1)"
  by (rule tick_skipped) simp

text \<open>C35. A rate limit ends the tick normally and backs the pool off: its next poll is no
  earlier than one second from now and no earlier than the time GitHub named, while the
  schedule of every other pool stays as it was.\<close>

theorem rate_limit_backs_off:
  assumes "scaling e p d now s = (Inl (GitHubRateLimitError retry_at reason), s')"
    "wall_clock_op (runtime e) (world s') = (Inr wall, w)"
  shows "\<exists>s''. tick_body e p d now s = (Inr (), s'') \<and>
    now + 1 \<le> dict_get (next_poll_at s'') (pool_key e p) 0 \<and>
    now + (retry_at - wall) \<le> dict_get (next_poll_at s'') (pool_key e p) 0 \<and>
    (\<forall>k. k \<noteq> pool_key e p \<longrightarrow> map_of (next_poll_at s'') k = map_of (next_poll_at s) k)"
proof -
  have "next_poll_at s' = next_poll_at s" using keepsD [OF keeps_schedule_scaling, of e p d now s] assms(1) by simp
  then show ?thesis using tick_body_rate_limited [OF assms] by (simp add: backoff_poll_schedule max_def)
qed

definition limited_ports :: "nat Ports" where
  "limited_ports = demo_ports\<lparr>api := demo_api\<lparr>list_runners_op := (\<lambda>_. raise_error (GitHubRateLimitError 160 ''limit''))\<rparr>\<rparr>"

theorem rate_limit_backs_off_witness:
  "\<exists>s''. tick_body limited_ports (new_pool ''ci'' ''t'' ''acme'') False 10 (new_scaler 0 0) = (Inr (), s'') \<and>
     70 \<le> dict_get (next_poll_at s'') (pool_key limited_ports (new_pool ''ci'' ''t'' ''acme'')) 0"
proof -
  let ?p = "new_pool ''ci'' ''t'' ''acme''"
  have "scaling limited_ports ?p False 10 (new_scaler 0 0) = (Inl (GitHubRateLimitError 160 ''limit''), new_scaler 0 0)"
    by code_simp
  moreover have "wall_clock_op (runtime limited_ports) (world (new_scaler 0 (0::nat))) = (Inr 100, 0)" by code_simp
  ultimately show ?thesis using rate_limit_backs_off [of limited_ports ?p False 10 "new_scaler 0 0"] by fastforce
qed

definition flaky_submit :: "(nat, unit) eff" where
  "flaky_submit n = (if n < 2 then Inr () else Inl (RuntimeError ''can't start new thread''), n)"

definition flaky_ports :: "nat Ports" where
  "flaky_ports = \<lparr>api = demo_api, docker = demo_docker, store = None, runtime = demo_runtime flaky_submit\<rparr>"

text \<open>The documented balance of reservations fails when handing a task to the thread
  pool raises after a spawn was handed over: that spawn has released its slot and the
  \<open>finally\<close> block releases the whole allocation again, so slots other pools hold are freed.
  Here another pool holds two slots and one of the two spawns runs; one slot is left.\<close>

lemma failed_submit_releases_twice:
  "let s = (new_scaler 9 1)\<lparr>reserved_spawns := 4\<rparr>; p = new_pool ''ci'' ''t'' ''acme'';
       (r, s') = run_runner_operations flaky_ports [] [(p, 2)] s
   in r = Inl (RuntimeError ''can't start new thread'') \<and> world s' = 2 \<and> reserved_spawns s' = 1"
  by code_simp

end
