(* ===== verification/PyJsonFacts.thy ===== *)
theory PyJsonFacts
  imports PyJson
begin

text \<open>
  \<open>loads_dumps\<close>: what is written is read back; \<open>loads_any_fuel\<close>: the reader's answer does not
  depend on the fuel \<open>loads\<close> gives it.
\<close>

section \<open>Strings\<close>

lemma hex_value_digit: "d < 16 \<Longrightarrow> hex_value (hex_digit d) = Some d"
  by (auto simp: hex_value_def hex_digit_def char_code_def Let_def)

lemma hex4_escape: "hex4 (CHR ''0'') (CHR ''0'') (hex_digit (char_code c div 16)) (hex_digit (char_code c mod 16)) = Some c"
proof -
  have "hex_value (CHR ''0'') = Some 0" by code_simp
  moreover have "char_code c div 16 < 16" by (simp add: char_code_def less_mult_imp_div_less)
  ultimately show ?thesis
    by (simp add: hex4_def hex_value_digit) (simp add: char_code_def)
qed

lemma quote_not_u: "quote_char \<noteq> CHR ''u''" "backslash \<noteq> CHR ''u''" "quote_char \<noteq> backslash"
  by (simp_all add: quote_char_def backslash_def)

lemma json_chars_escape: "json_chars (json_escape c @ r) = map_option (apfst (Cons c)) (json_chars r)"
  unfolding json_escape_def
  by (subst json_chars.simps) (auto simp: quote_not_u unescape_def hex4_escape quote_char_def backslash_def split: option.splits)

lemma json_chars_string: "json_chars (concat (map json_escape s) @ quote_char # r) = Some (s, r)"
  by (induction s) (simp_all add: json_chars_escape, subst json_chars.simps, simp)

text \<open>What may follow a number without being read as part of it.\<close>

definition number_end :: "string \<Rightarrow> bool" where
  "number_end r = (case r of [] \<Rightarrow> True | c # _ \<Rightarrow> \<not> is_digit c \<and> c \<noteq> CHR ''.'' \<and> c \<noteq> CHR ''e'' \<and> c \<noteq> CHR ''E'')"

lemma json_digits_all:
  "list_all is_digit s \<Longrightarrow> number_end r \<Longrightarrow> json_digits (s @ r) = (s, r)"
  by (induction s) (auto simp: json_digits_def number_end_def split: list.splits)

lemma is_digit_0: "is_digit (CHR ''0'')"
  by code_simp

lemma show_nat_first: "10 \<le> n \<Longrightarrow> hd (show_nat n) \<noteq> CHR ''0''"
proof (induction n rule: show_nat.induct)
  case (1 n)
  show ?case
  proof (cases "n div 10 < 10")
    case True
    have "digit_char (n div 10) \<noteq> CHR ''0''"
    proof
      assume "digit_char (n div 10) = CHR ''0''"
      then have "char_code (digit_char (n div 10)) = char_code (CHR ''0'')" by simp
      moreover have "char_code (CHR ''0'') = 48" by code_simp
      ultimately show False using 1 True by (simp add: digit_char_code)
    qed
    with 1 True show ?thesis by (subst show_nat.simps, subst show_nat.simps) simp
  next
    case False
    with 1 show ?thesis by (subst show_nat.simps) simp
  qed
qed

lemma json_int_part_nat: "number_end r \<Longrightarrow> json_int_part (show_nat n @ r) = Some (show_nat n, r)"
proof (cases "n < 10")
  case True
  then have s: "show_nat n = [digit_char n]" by (subst show_nat.simps) simp
  assume r: "number_end r"
  have "json_digits ([digit_char n] @ r) = ([digit_char n], r)"
    by (rule json_digits_all) (use True r in \<open>simp_all add: digit_char_is_digit\<close>)
  then show ?thesis using True by (simp add: s json_int_part_def digit_char_is_digit)
next
  case False
  assume r: "number_end r"
  obtain c t where s: "show_nat n = c # t" using show_nat_not_Nil by (metis neq_Nil_conv)
  have "c \<noteq> CHR ''0''" using show_nat_first [of n] False s by simp
  moreover have "list_all is_digit (show_nat n)" using show_nat_all_digits [of n] by (simp add: all_digits_def)
  ultimately show ?thesis using json_digits_all [of "show_nat n" r] r s by (simp add: json_int_part_def)
qed

lemma number_end_parts: "number_end r \<Longrightarrow> json_fraction r = ([], r) \<and> json_exponent r = (None, r)"
  by (auto simp: number_end_def json_fraction_def json_exponent_def split: list.splits)

lemma not_digit_minus: "\<not> is_digit (CHR ''-'')"
  by code_simp

lemma json_number_int: "number_end r \<Longrightarrow> json_number (show_int n @ r) = Some (PInt n, r)"
proof (cases "n < 0")
  case True
  assume r: "number_end r"
  then show ?thesis using True number_end_parts [OF r]
    by (simp add: json_number_def show_int_def json_int_part_nat digits_value_show_nat)
next
  case False
  assume r: "number_end r"
  obtain c t where s: "show_nat (nat n) = c # t" using show_nat_not_Nil by (metis neq_Nil_conv)
  have "is_digit c" using show_nat_digits [of c "nat n"] s by simp
  then have "c \<noteq> CHR ''-''" using not_digit_minus by metis
  then show ?thesis using False number_end_parts [OF r] json_int_part_nat [OF r, of "nat n"] digits_value_show_nat [of "nat n"]
    by (simp add: json_number_def show_int_def s)
qed

lemma json_word_int: "number_end r \<Longrightarrow> json_word (show_int n @ r) = Some (PInt n, r)"
proof -
  assume r: "number_end r"
  obtain c t where s: "show_nat (nat \<bar>n\<bar>) = c # t" using show_nat_not_Nil by (metis neq_Nil_conv)
  have d: "is_digit c" using show_nat_digits [of c "nat \<bar>n\<bar>"] s by simp
  have nd: "\<not> is_digit (CHR ''n'')" "\<not> is_digit (CHR ''t'')" "\<not> is_digit (CHR ''f'')" "\<not> is_digit (CHR ''N'')" "\<not> is_digit (CHR ''I'')"
    by code_simp+
  have "show_int n = (if n < 0 then CHR ''-'' # c # t else c # t)" using s by (auto simp: show_int_def)
  then show ?thesis using json_number_int [OF r, of n] d nd not_digit_minus
    by (auto simp: json_word_def)
qed

lemma json_int_head: "\<exists>c t. show_int n = c # t \<and> c \<noteq> quote_char \<and> c \<noteq> CHR ''['' \<and> c \<noteq> CHR ''{'' \<and> \<not> json_space c \<and> c \<noteq> CHR '']'' \<and> c \<noteq> CHR ''}''"
proof -
  obtain c t where s: "show_nat (nat \<bar>n\<bar>) = c # t" using show_nat_not_Nil by (metis neq_Nil_conv)
  have "is_digit c" using show_nat_digits [of c "nat \<bar>n\<bar>"] s by simp
  then have "c \<noteq> quote_char \<and> c \<noteq> CHR ''['' \<and> c \<noteq> CHR ''{'' \<and> \<not> json_space c \<and> c \<noteq> CHR '']'' \<and> c \<noteq> CHR ''}''"
    by (auto simp: quote_char_def json_space_def is_digit_def in_range_def char_code_def)
  moreover have "show_int n = (if n < 0 then CHR ''-'' # c # t else c # t)" using s by (auto simp: show_int_def)
  ultimately show ?thesis by (cases "n < 0") (auto simp: quote_char_def json_space_def)
qed

text \<open>The text of a float is read back as that float.\<close>

definition float_text :: "(rat \<Rightarrow> string) \<Rightarrow> rat \<Rightarrow> bool" where
  "float_text rf r \<longleftrightarrow> (\<exists>c t. rf r = c # t \<and> (is_digit c \<or> c = CHR ''-'')) \<and>
     (\<forall>rest. number_end rest \<longrightarrow> json_word (rf r @ rest) = Some (PFloat (Fin r), rest))"

text \<open>What JSON can carry unchanged: keys without repetition and floats whose text reads back.\<close>

fun json_plain :: "(rat \<Rightarrow> string) \<Rightarrow> pyval \<Rightarrow> bool" where
  "json_plain rf (PFloat (Fin r)) = float_text rf r"
| "json_plain rf (PList vs) = list_all (json_plain rf) vs"
| "json_plain rf (PDict d) = (distinct (map fst d) \<and> list_all (\<lambda>(k, v). json_plain rf v) d)"
| "json_plain rf v = True"

definition value_head :: "string \<Rightarrow> bool" where
  "value_head s \<longleftrightarrow> (\<exists>c t. s = c # t \<and> \<not> json_space c \<and> c \<noteq> CHR '']'' \<and> c \<noteq> CHR ''}'')"

lemma digit_head: "is_digit c \<or> c = CHR ''-'' \<Longrightarrow>
  \<not> json_space c \<and> c \<noteq> CHR '']'' \<and> c \<noteq> CHR ''}'' \<and> c \<noteq> quote_char \<and> c \<noteq> CHR ''['' \<and> c \<noteq> CHR ''{''"
  by (auto simp: quote_char_def json_space_def is_digit_def in_range_def char_code_def)

lemma dumps_head: "json_plain rf v \<Longrightarrow> value_head (dumps rf v)"
proof (cases v)
  case (PInt n)
  then show ?thesis using json_int_head [of n] by (auto simp: value_head_def)
next
  case (PFloat f)
  assume "json_plain rf v"
  then show ?thesis using PFloat digit_head
    by (cases f) (auto simp: value_head_def float_text_def json_space_def)
qed (auto simp: value_head_def json_string_def json_space_def quote_char_def)

lemma ws_value: "value_head s \<Longrightarrow> ws (s @ r) = s @ r"
  by (auto simp: value_head_def ws_def)

lemma ws_comma: "ws (CHR '' '' # s) = ws s" "ws (c # s) = (if json_space c then ws s else c # s)"
  by (simp_all add: ws_def json_space_def)

lemma number_end_after [simp]: "number_end (CHR '']'' # r)" "number_end (CHR ''}'' # r)" "number_end (CHR '','' # r)" "number_end []"
  by (simp_all add: number_end_def is_digit_def in_range_def char_code_def)

definition reads_back :: "(rat \<Rightarrow> string) \<Rightarrow> pyval \<Rightarrow> bool" where
  "reads_back rf v \<longleftrightarrow> (\<forall>n r. 2 * length (dumps rf v) \<le> n \<longrightarrow> number_end r \<longrightarrow>
     json_value n (dumps rf v @ r) = Some (v, r))"

lemma json_items_dumps:
  "vs \<noteq> [] \<Longrightarrow> (\<And>v. v \<in> set vs \<Longrightarrow> reads_back rf v \<and> json_plain rf v) \<Longrightarrow>
   2 * length (join '', '' (map (dumps rf) vs)) + 1 \<le> n \<Longrightarrow>
   json_items n (join '', '' (map (dumps rf) vs) @ CHR '']'' # r) = Some (vs, r)"
proof (induction vs arbitrary: n)
  case Nil
  then show ?case by simp
next
  case (Cons v vs)
  obtain m where n: "n = Suc m" using Cons.prems(3) by (cases n) auto
  show ?case
  proof (cases vs)
    case Nil
    have "json_value m (dumps rf v @ CHR '']'' # r) = Some (v, CHR '']'' # r)"
      using Cons.prems Nil n by (auto simp: reads_back_def)
    then show ?thesis using Nil n by (simp add: ws_comma json_space_def)
  next
    case more: (Cons u us)
    let ?rest = "join '', '' (map (dumps rf) vs) @ CHR '']'' # r"
    have joined: "join '', '' (map (dumps rf) (v # vs)) = dumps rf v @ CHR '','' # CHR '' '' # join '', '' (map (dumps rf) vs)"
      using more by simp
    have fuel: "2 * length (dumps rf v) \<le> m" "2 * length (join '', '' (map (dumps rf) vs)) + 1 \<le> m"
      using Cons.prems(3) n unfolding joined by simp_all
    have "json_value m (dumps rf v @ CHR '','' # CHR '' '' # ?rest) = Some (v, CHR '','' # CHR '' '' # ?rest)"
      using Cons.prems(2) [of v] fuel(1) by (simp add: reads_back_def)
    moreover have "value_head (join '', '' (map (dumps rf) vs))"
    proof -
      have "value_head (dumps rf u)" using Cons.prems(2) [of u] more dumps_head by simp
      then show ?thesis using more by (cases us) (auto simp: value_head_def)
    qed
    then have "ws (CHR '' '' # ?rest) = ?rest" using ws_value by (simp add: ws_comma(1))
    moreover have "json_items m ?rest = Some (vs, r)"
      using Cons.IH [of m] Cons.prems(2) fuel(2) more by simp
    ultimately show ?thesis using n unfolding joined by (simp add: ws_comma(2) json_space_def)
  qed
qed

abbreviation member_text :: "(rat \<Rightarrow> string) \<Rightarrow> string \<times> pyval \<Rightarrow> string" where
  "member_text rf \<equiv> (\<lambda>(k, v). json_string k @ '': '' @ dumps rf v)"

lemma read_member:
  assumes "reads_back rf v" "json_plain rf v" "2 * length (member_text rf (k, v)) \<le> Suc m" "number_end r"
  shows "json_members (Suc m) (member_text rf (k, v) @ r) =
    (case ws r of [] \<Rightarrow> None | d # w \<Rightarrow>
       if d = CHR ''}'' then Some ([(k, v)], w)
       else if d = CHR '','' then map_option (apfst (Cons (k, v))) (json_members m (ws w)) else None)"
proof -
  have colon: "ws (CHR '':'' # s) = CHR '':'' # s" for s by (simp add: ws_comma(2) json_space_def)
  have key: "json_chars (concat (map json_escape k) @ quote_char # CHR '':'' # CHR '' '' # dumps rf v @ r) =
      Some (k, CHR '':'' # CHR '' '' # dumps rf v @ r)" by (rule json_chars_string)
  have "ws (CHR '' '' # dumps rf v @ r) = dumps rf v @ r"
    using ws_value [OF dumps_head [OF assms(2)]] by (simp add: ws_comma(1))
  moreover have "json_value m (dumps rf v @ r) = Some (v, r)"
    using assms(1,3,4) by (simp add: reads_back_def json_string_def)
  ultimately show ?thesis by (simp add: json_string_def key colon)
qed

lemma json_members_dumps:
  "d \<noteq> [] \<Longrightarrow> (\<And>k v. (k, v) \<in> set d \<Longrightarrow> reads_back rf v \<and> json_plain rf v) \<Longrightarrow>
   2 * length (join '', '' (map (member_text rf) d)) \<le> n \<Longrightarrow>
   json_members n (join '', '' (map (member_text rf) d) @ CHR ''}'' # r) = Some (d, r)"
proof (induction d arbitrary: n)
  case Nil
  then show ?case by simp
next
  case (Cons kv d)
  obtain k v where kv: "kv = (k, v)" by force
  have good: "reads_back rf v" "json_plain rf v" using Cons.prems(2) kv by auto
  have nonempty: "0 < length (member_text rf (k, v))" by (simp add: json_string_def)
  show ?case
  proof (cases d)
    case Nil
    then obtain m where n: "n = Suc m" using Cons.prems(3) nonempty kv by (cases n) (auto simp: json_string_def)
    have "2 * length (member_text rf (k, v)) \<le> Suc m" using Cons.prems(3) Nil kv n by simp
    from read_member [OF good this number_end_after(2)] show ?thesis
      using Nil kv n by (simp add: ws_comma(2) json_space_def)
  next
    case more: (Cons l e)
    let ?rest = "join '', '' (map (member_text rf) d) @ CHR ''}'' # r"
    have joined: "join '', '' (map (member_text rf) (kv # d)) = member_text rf (k, v) @ CHR '','' # CHR '' '' # join '', '' (map (member_text rf) d)"
      using more kv by simp
    obtain m where n: "n = Suc m" using Cons.prems(3) unfolding joined by (cases n) auto
    have fuel: "2 * length (member_text rf (k, v)) \<le> Suc m" "2 * length (join '', '' (map (member_text rf) d)) \<le> m"
      using Cons.prems(3) n unfolding joined by simp_all
    have "value_head (join '', '' (map (member_text rf) d))"
      using more by (cases e; cases l) (simp_all add: value_head_def json_string_def json_space_def quote_char_def)
    then have "ws (CHR '' '' # ?rest) = ?rest" using ws_value by (simp add: ws_comma(1))
    moreover have "json_members m ?rest = Some (d, r)"
      by (rule Cons.IH) (use Cons.prems(2) fuel(2) more in auto)
    ultimately show ?thesis
      using read_member [OF good fuel(1) number_end_after(3), of "CHR '' '' # ?rest"] kv n unfolding joined
      by (simp add: ws_comma(2) json_space_def)
  qed
qed

lemma dict_set_new: "k \<notin> fst ` set d \<Longrightarrow> dict_set k v d = d @ [(k, v)]"
  by (induction d) auto

lemma fold_dict_set_distinct:
  "distinct (map fst (acc @ d)) \<Longrightarrow> fold (\<lambda>(k, v). dict_set k v) d acc = acc @ d"
proof (induction d arbitrary: acc)
  case Nil
  then show ?case by simp
next
  case (Cons kv d)
  obtain k v where kv: "kv = (k, v)" by force
  have "k \<notin> fst ` set acc" using Cons.prems kv by auto
  then have "dict_set k v acc = acc @ [(k, v)]" by (rule dict_set_new)
  then show ?case using Cons kv by simp
qed

lemma fuel_Suc: "2 * length s \<le> n \<Longrightarrow> s \<noteq> [] \<Longrightarrow> \<exists>m. n = Suc m"
  by (cases n) auto

lemma reads_back_word:
  assumes "\<And>r. number_end r \<Longrightarrow> json_word (dumps rf v @ r) = Some (v, r)" "value_head (dumps rf v)"
    "hd (dumps rf v) \<noteq> quote_char" "hd (dumps rf v) \<noteq> CHR ''[''" "hd (dumps rf v) \<noteq> CHR ''{''"
  shows "reads_back rf v"
  unfolding reads_back_def
proof (intro allI impI)
  fix n r
  assume n: "2 * length (dumps rf v) \<le> n" and r: "number_end r"
  from assms(2) obtain c t where s: "dumps rf v = c # t" by (auto simp: value_head_def)
  with fuel_Suc [OF n] obtain m where "n = Suc m" by auto
  then show "json_value n (dumps rf v @ r) = Some (v, r)"
    using assms(1) [OF r] assms(3-5) s by simp
qed

lemma plain_reads_back: "json_plain rf v \<Longrightarrow> reads_back rf v"
proof (induction v)
  case PNone
  show ?case by (rule reads_back_word) (simp_all add: json_word_def value_head_def json_space_def quote_char_def)
next
  case (PBool b)
  show ?case by (rule reads_back_word) (auto simp: json_word_def value_head_def json_space_def quote_char_def)
next
  case (PInt n)
  then have "value_head (dumps rf (PInt n))" by (rule dumps_head)
  then show ?case using json_int_head [of n] by (intro reads_back_word) (auto simp: json_word_int)
next
  case (PFloat f)
  then have head: "value_head (dumps rf (PFloat f))" by (rule dumps_head)
  show ?case
  proof (cases f)
    case (Fin q)
    then have ft: "float_text rf q" using PFloat by simp
    then obtain c t where c: "rf q = c # t" "is_digit c \<or> c = CHR ''-''" by (auto simp: float_text_def)
    have "json_word (rf q @ r) = Some (PFloat (Fin q), r)" if "number_end r" for r
      using ft that by (simp add: float_text_def)
    then show ?thesis using head c digit_head [OF c(2)] Fin by (intro reads_back_word) simp_all
  qed (rule reads_back_word; simp add: json_word_def quote_char_def value_head_def json_space_def)+
next
  case (PStr s)
  show ?case unfolding reads_back_def
  proof (intro allI impI)
    fix n r
    assume "2 * length (dumps rf (PStr s)) \<le> n" "number_end r"
    then obtain m where "n = Suc m" using fuel_Suc by (cases n) (auto simp: json_string_def)
    then show "json_value n (dumps rf (PStr s) @ r) = Some (PStr s, r)"
      by (simp add: json_string_def json_chars_string)
  qed
next
  case (PList vs)
  show ?case unfolding reads_back_def
  proof (intro allI impI)
    fix n r
    assume n: "2 * length (dumps rf (PList vs)) \<le> n" and r: "number_end r"
    then obtain m where m: "n = Suc m" by (cases n) auto
    show "json_value n (dumps rf (PList vs) @ r) = Some (PList vs, r)"
    proof (cases vs)
      case Nil
      then show ?thesis using m by (simp add: quote_char_def ws_comma(2) json_space_def)
    next
      case (Cons u us)
      let ?t = "join '', '' (map (dumps rf) vs)"
      have all: "reads_back rf v \<and> json_plain rf v" if "v \<in> set vs" for v
        using PList that by (auto simp: list_all_iff)
      have "value_head ?t" using all [of u] Cons dumps_head [of rf u] by (cases us) (auto simp: value_head_def)
      then have ws: "ws (?t @ CHR '']'' # r) = ?t @ CHR '']'' # r" and no: "\<not> starts_with (?t @ CHR '']'' # r) '']''"
        by (auto simp: ws_value value_head_def)
      have "json_items m (?t @ CHR '']'' # r) = Some (vs, r)"
        by (rule json_items_dumps) (use all n m Cons in auto)
      then show ?thesis using m ws no by (simp add: quote_char_def)
    qed
  qed
next
  case (PDict d)
  show ?case unfolding reads_back_def
  proof (intro allI impI)
    fix n r
    assume n: "2 * length (dumps rf (PDict d)) \<le> n" and r: "number_end r"
    then obtain m where m: "n = Suc m" by (cases n) auto
    show "json_value n (dumps rf (PDict d) @ r) = Some (PDict d, r)"
    proof (cases d)
      case Nil
      then show ?thesis using m by (simp add: quote_char_def ws_comma(2) json_space_def)
    next
      case (Cons l e)
      let ?t = "join '', '' (map (member_text rf) d)"
      have all: "reads_back rf v \<and> json_plain rf v" if "(k, v) \<in> set d" for k v
        using PDict.IH [of "(k, v)" v] PDict.prems that by (auto simp: list_all_iff)
      have "value_head ?t" using Cons by (cases e; cases l) (simp_all add: value_head_def json_string_def json_space_def quote_char_def)
      then have ws: "ws (?t @ CHR ''}'' # r) = ?t @ CHR ''}'' # r" and no: "\<not> starts_with (?t @ CHR ''}'' # r) ''}''"
        by (auto simp: ws_value value_head_def)
      have "json_members m (?t @ CHR ''}'' # r) = Some (d, r)"
        by (rule json_members_dumps) (use all n m Cons in auto)
      moreover have "fold (\<lambda>(k, v). dict_set k v) d [] = d"
        using fold_dict_set_distinct [of "[]" d] PDict.prems by simp
      ultimately show ?thesis using m ws no by (simp add: quote_char_def)
    qed
  qed
qed

lemma loads_dumps: "json_plain rf v \<Longrightarrow> loads (dumps rf v) = Inr v"
proof -
  assume v: "json_plain rf v"
  have "json_value (2 * length (dumps rf v) + 2) (dumps rf v @ []) = Some (v, [])"
    using plain_reads_back [OF v] unfolding reads_back_def by (metis le_add1 number_end_after(4))
  moreover have "ws (dumps rf v) = dumps rf v" using ws_value [OF dumps_head [OF v], of "[]"] by simp
  ultimately show ?thesis by (simp add: loads_def ws_def)
qed

section \<open>Enough fuel\<close>

lemma ws_le: "length (ws s) \<le> length s"
  by (simp add: ws_def length_dropWhile_le)

lemma json_chars_shorter: "json_chars s = Some (x, r) \<Longrightarrow> length r < length s"
proof (induction s arbitrary: x rule: length_induct)
  case (1 s)
  have IH: "length r < length t" if "length t < length s" "json_chars t = Some (y, r)" for t y
    using 1(1) that by blast
  have unfolded: "(case s of [] \<Rightarrow> None | c # t \<Rightarrow>
      if c = quote_char then Some ([], t)
      else if c = backslash
      then (case t of [] \<Rightarrow> None | e # u \<Rightarrow>
             if e = CHR ''u''
             then (case u of h1 # h2 # h3 # h4 # q \<Rightarrow>
                     (case hex4 h1 h2 h3 h4 of None \<Rightarrow> None | Some x \<Rightarrow> map_option (apfst (Cons x)) (json_chars q))
                   | _ \<Rightarrow> None)
             else (case unescape e of None \<Rightarrow> None | Some x \<Rightarrow> map_option (apfst (Cons x)) (json_chars u)))
      else if char_code c < 32 then None
      else map_option (apfst (Cons c)) (json_chars t)) = Some (x, r)"
    using 1(2) by (subst (asm) json_chars.simps)
  obtain c t where s: "s = c # t" using unfolded by (cases s) auto
  consider "r = t" | (plain) y where "json_chars t = Some (y, r)"
    | (esc) e u y where "t = e # u" "json_chars u = Some (y, r)"
    | (hex) h1 h2 h3 h4 e q y where "t = e # h1 # h2 # h3 # h4 # q" "json_chars q = Some (y, r)"
    using unfolded unfolding s by (fastforce split: if_splits list.splits option.splits)
  then show ?case
  proof cases
    case plain
    then show ?thesis using IH [of t y] s by simp
  next
    case esc
    then show ?thesis using IH [of u y] s by simp
  next
    case hex
    then show ?thesis using IH [of q y] s by simp
  qed (simp add: s)
qed

lemma json_digits_le: "length (snd (json_digits s)) \<le> length s"
  by (simp add: json_digits_def length_dropWhile_le)

lemma json_int_part_shorter: "json_int_part s = Some (a, r) \<Longrightarrow> length r < length s"
  by (auto simp: json_int_part_def json_digits_def le_imp_less_Suc length_dropWhile_le split: list.splits if_splits)

lemma json_fraction_le: "length (snd (json_fraction s)) \<le> length s"
  using json_digits_le by (auto simp: json_fraction_def split: list.splits if_splits) (metis le_SucI length_Cons)

lemma json_exponent_le: "length (snd (json_exponent s)) \<le> length s"
proof (cases s)
  case (Cons c t)
  then show ?thesis
    by (cases t) (auto simp: json_exponent_def json_digits_def Let_def le_SucI length_dropWhile_le split: if_splits prod.splits)
qed (simp add: json_exponent_def)

lemma json_number_shorter: "json_number s = Some (v, r) \<Longrightarrow> length r < length s"
proof -
  assume n: "json_number s = Some (v, r)"
  let ?t = "snd (case s of c # u \<Rightarrow> if c = CHR ''-'' then (-1 :: int, u) else (1, s) | [] \<Rightarrow> (1, s))"
  have t: "length ?t \<le> length s" by (cases s) auto
  from n obtain a q where part: "json_int_part ?t = Some (a, q)"
    by (auto simp: json_number_def Let_def split: option.splits prod.splits)
  with n have "r = snd (json_exponent (snd (json_fraction q)))"
    by (auto simp: json_number_def Let_def split: option.splits prod.splits if_splits)
  then have "length r \<le> length q"
    using order_trans [OF json_exponent_le json_fraction_le] by blast
  with json_int_part_shorter [OF part] t show ?thesis by linarith
qed

lemma json_word_shorter: "json_word s = Some (v, r) \<Longrightarrow> length r < length s"
  by (auto simp: json_word_def prefix_def json_number_shorter split: if_splits)

text \<open>
  A reader that succeeds with some fuel consumes text and succeeds, with the same result,
  with twice as much fuel as the characters it consumes, and with any more.
\<close>

definition fuel_free :: "(nat \<Rightarrow> string \<Rightarrow> ('a \<times> string) option) \<Rightarrow> string \<Rightarrow> 'a \<times> string \<Rightarrow> bool" where
  "fuel_free f s vr \<longleftrightarrow> length (snd vr) < length s \<and>
     (\<forall>m. 2 * (length s - length (snd vr)) \<le> m \<longrightarrow> f m s = Some vr)"

lemma fuel_freeI:
  assumes "length r < length s" "\<And>m. 2 * (length s - length r) \<le> Suc m \<Longrightarrow> f (Suc m) s = Some (v, r)"
  shows "fuel_free f s (v, r)"
  unfolding fuel_free_def
proof (intro conjI allI impI)
  fix m assume m: "2 * (length s - length (snd (v, r))) \<le> m"
  then obtain k where "m = Suc k" using assms(1) by (cases m) auto
  with assms(2) m show "f m s = Some (v, r)" by simp
qed (use assms(1) in simp)

lemma fuel_freeD:
  "fuel_free f s (v, r) \<Longrightarrow> length r < length s" "fuel_free f s (v, r) \<Longrightarrow> 2 * (length s - length r) \<le> m \<Longrightarrow> f m s = Some (v, r)"
  by (simp_all add: fuel_free_def)

lemma json_enough_fuel:
  "json_value n s = Some a \<Longrightarrow> fuel_free json_value s a"
  "json_items n s = Some b \<Longrightarrow> fuel_free json_items s b"
  "json_members n s = Some d \<Longrightarrow> fuel_free json_members s d"
proof (induction n s and n s and n s arbitrary: a and b and d rule: json_value_json_items_json_members.induct)
  case (2 n s)
  obtain v r where a: "a = (v, r)" by force
  obtain c t where s: "s = c # t" using 2(3) by (cases s) auto
  note wst = ws_le [of t]
  show ?case
  proof (cases "c = quote_char \<or> \<not> (c = CHR ''['' \<or> c = CHR ''{'')")
    case True
    have "length r < length s"
      using 2(3) True a s json_chars_shorter json_word_shorter by (auto split: if_splits) fastforce+
    then show ?thesis unfolding a by (rule fuel_freeI) (use 2(3) True a s in \<open>auto split: if_splits\<close>)
  next
    case False
    then consider (list) "c = CHR ''[''" "c \<noteq> quote_char" | (dict) "c = CHR ''{''" "c \<noteq> quote_char" by blast
    then show ?thesis
    proof cases
      case list
      show ?thesis
      proof (cases "starts_with (ws t) '']''")
        case True
        then have "r = tl (ws t)" "v = PList []" "length r < length s" using 2(3) list a s wst by auto
        then show ?thesis unfolding a by (intro fuel_freeI) (use True list s in auto)
      next
        case False
        then obtain vs where vs: "json_items n (ws t) = Some (vs, r)" "v = PList vs" using 2(3) list a s by auto
        have "fuel_free json_items (ws t) (vs, r)" using 2(1) [of c t] s list False vs(1) by simp
        note ff = fuel_freeD [OF this]
        show ?thesis unfolding a
        proof (rule fuel_freeI)
          show "length r < length s" using ff(1) wst s by simp
          fix m assume "2 * (length s - length r) \<le> Suc m"
          then have "json_items m (ws t) = Some (vs, r)" using ff wst s by (intro ff(2)) simp
          then show "json_value (Suc m) s = Some (v, r)" using list False s vs(2) by simp
        qed
      qed
    next
      case dict
      show ?thesis
      proof (cases "starts_with (ws t) ''}''")
        case True
        then have "r = tl (ws t)" "v = PDict []" "length r < length s" using 2(3) dict a s wst by auto
        then show ?thesis unfolding a by (intro fuel_freeI) (use True dict s in auto)
      next
        case False
        then obtain d where d: "json_members n (ws t) = Some (d, r)" "v = PDict (fold (\<lambda>(k, v). dict_set k v) d [])"
          using 2(3) dict a s by auto
        have "fuel_free json_members (ws t) (d, r)" using 2(2) [of c t] s dict False d(1) by simp
        note ff = fuel_freeD [OF this]
        show ?thesis unfolding a
        proof (rule fuel_freeI)
          show "length r < length s" using ff(1) wst s by simp
          fix m assume "2 * (length s - length r) \<le> Suc m"
          then have "json_members m (ws t) = Some (d, r)" using ff wst s by (intro ff(2)) simp
          then show "json_value (Suc m) s = Some (v, r)" using dict False s d(2) by simp
        qed
      qed
    qed
  qed
next
  case (4 n s)
  obtain v r c u where v: "json_value n s = Some (v, r)" "ws r = c # u"
    using 4(3) by (auto split: option.splits list.splits)
  have "fuel_free json_value s (v, r)" using 4(1) v(1) by simp
  note fv = fuel_freeD [OF this]
  have u: "length u < length r" using ws_le [of r] v(2) by simp
  show ?case
  proof (cases "c = CHR '']''")
    case True
    then have b: "b = ([v], u)" using 4(3) v by simp
    show ?thesis unfolding b
      by (rule fuel_freeI) (use fv u True v(2) in auto)
  next
    case False
    then obtain vs q where rest: "c = CHR '',''" "json_items n (ws u) = Some (vs, q)" "b = (v # vs, q)"
      using 4(3) v by (auto split: if_splits)
    have "fuel_free json_items (ws u) (vs, q)" using 4(2) [OF v(1)] v(2) rest by simp
    note ff = fuel_freeD [OF this]
    show ?thesis unfolding rest(3)
    proof (rule fuel_freeI)
      show "length q < length s" using ff(1) fv(1) u ws_le [of u] by simp
      fix m assume m: "2 * (length s - length q) \<le> Suc m"
      have "json_value m s = Some (v, r)" by (rule fv(2)) (use m ff(1) u ws_le [of u] fv(1) in linarith)
      moreover have "json_items m (ws u) = Some (vs, q)" by (rule ff(2)) (use m ff(1) u ws_le [of u] fv(1) in linarith)
      ultimately show "json_items (Suc m) s = Some (v # vs, q)" using v(2) rest(1) by simp
    qed
  qed
next
  case (6 n s)
  from 6(3) obtain t k p u0 v r e w where parts: "s = quote_char # t" "json_chars t = Some (k, p)" "ws p = CHR '':'' # u0"
      "json_value n (ws u0) = Some (v, r)" "ws r = e # w"
    by (auto split: option.splits list.splits if_splits)
  have p: "length p < length t" using json_chars_shorter parts(2) by blast
  have u0: "length (ws u0) < length p" using ws_le [of p] ws_le [of u0] parts(3) by simp
  have "fuel_free json_value (ws u0) (v, r)" using 6(1) parts by simp
  note fv = fuel_freeD [OF this]
  have w: "length w < length r" using ws_le [of r] parts(5) by simp
  show ?case
  proof (cases "e = CHR ''}''")
    case True
    then have d: "d = ([(k, v)], w)" using 6(3) parts by simp
    show ?thesis unfolding d
    proof (rule fuel_freeI)
      show "length w < length s" using fv(1) w u0 p parts(1) by simp
      fix m assume m: "2 * (length s - length w) \<le> Suc m"
      have "json_value m (ws u0) = Some (v, r)" by (rule fv(2)) (use m fv(1) w u0 p parts(1) in simp)
      then show "json_members (Suc m) s = Some ([(k, v)], w)" using parts True by simp
    qed
  next
    case False
    then obtain ds q where rest: "e = CHR '',''" "json_members n (ws w) = Some (ds, q)" "d = ((k, v) # ds, q)"
      using 6(3) parts by (auto split: if_splits)
    have "fuel_free json_members (ws w) (ds, q)" using 6(2) parts rest by simp
    note ff = fuel_freeD [OF this]
    show ?thesis unfolding rest(3)
    proof (rule fuel_freeI)
      show "length q < length s" using ff(1) fv(1) w u0 p parts(1) ws_le [of w] by simp
      fix m assume m: "2 * (length s - length q) \<le> Suc m"
      have "json_value m (ws u0) = Some (v, r)" by (rule fv(2)) (use m ff(1) fv(1) w u0 p parts(1) ws_le [of w] in simp)
      moreover have "json_members m (ws w) = Some (ds, q)" by (rule ff(2)) (use m ff(1) fv(1) w u0 p parts(1) ws_le [of w] in simp)
      ultimately show "json_members (Suc m) s = Some ((k, v) # ds, q)" using parts rest(1) by simp
    qed
  qed
qed simp_all

lemma loads_any_fuel:
  "json_value n (ws s) = Some (v, r) \<Longrightarrow> loads s = (if ws r = [] then Inr v else Inl (ValueError ''Extra data''))"
proof -
  assume "json_value n (ws s) = Some (v, r)"
  note ff = fuel_freeD [OF json_enough_fuel(1) [OF this]]
  have "json_value (2 * length s + 2) (ws s) = Some (v, r)" by (rule ff(2)) (use ws_le [of s] in simp)
  then show ?thesis by (simp add: loads_def)
qed

end
