(* ===== verification/StoreFacts.thy ===== *)
theory StoreFacts
  imports Store PyJsonFacts
begin

text \<open>
  Facts about the store: the invariant of its tables through every operation, whatever the
  engine does; what each operation does on an engine that runs every statement; and what a
  lost connection or a statement that fails half-way leaves.
\<close>

section \<open>Well-formed tables\<close>

definition numbered_ok :: "'r Numbered \<Rightarrow> bool" where
  "numbered_ok t \<longleftrightarrow> sorted_wrt (<) (map fst (rows t)) \<and> (\<forall>i\<in>set (map fst (rows t)). i \<le> last_id t)"

definition keyed_ok :: "('k, 'v) dict \<Rightarrow> bool" where
  "keyed_ok d \<longleftrightarrow> distinct (map fst d)"

definition tables_ok :: "Tables \<Rightarrow> bool" where
  "tables_ok t \<longleftrightarrow> numbered_ok (tick_snapshots t) \<and> numbered_ok (runner_events t) \<and> numbered_ok (audit_log t) \<and>
     keyed_ok (t_pool_overrides t) \<and> keyed_ok (t_global_overrides t) \<and> keyed_ok (t_pool_state t) \<and>
     keyed_ok (protected t) \<and> keyed_ok (t_runner_status t) \<and> keyed_ok (runner_jobs t) \<and> keyed_ok (idempotency t)"

definition store_ok :: "'w Store \<Rightarrow> bool" where
  "store_ok s \<longleftrightarrow> tables_ok (live s) \<and> tables_ok (durable s)"

named_theorems table_intros "operations on tables keep them well-formed"

lemma insert_row_ok [table_intros]: "numbered_ok t \<Longrightarrow> numbered_ok (insert_row r t)"
  by (auto simp: numbered_ok_def insert_row_def sorted_wrt_append less_Suc_eq_le)

lemma delete_rows_ok [table_intros]: "numbered_ok t \<Longrightarrow> numbered_ok (delete_rows P t)"
  by (auto simp: numbered_ok_def delete_rows_def sorted_wrt_map sorted_wrt_filter)

lemma dict_set_ok [table_intros]: "keyed_ok d \<Longrightarrow> keyed_ok (dict_set k v d)"
  by (simp add: keyed_ok_def distinct_dict_set)

lemma dict_del_ok [table_intros]: "keyed_ok d \<Longrightarrow> keyed_ok (dict_del k d)"
  by (simp add: keyed_ok_def distinct_dict_del)

lemma filter_ok [table_intros]: "keyed_ok d \<Longrightarrow> keyed_ok (filter P d)"
  by (simp add: keyed_ok_def distinct_map_filter)

lemma empty_tables_ok: "tables_ok empty_tables"
  by (simp add: tables_ok_def empty_tables_def numbered_ok_def keyed_ok_def no_rows_def)

section \<open>The invariant through statements\<close>

text \<open>\<open>safe_change f\<close>: the statement keeps well-formed tables well-formed.\<close>

definition safe_change :: "(Tables \<Rightarrow> 'a \<times> Tables) \<Rightarrow> bool" where
  "safe_change f \<longleftrightarrow> (\<forall>t. tables_ok t \<longrightarrow> tables_ok (snd (f t)))"

lemma safe_changeI: "(\<And>t. tables_ok t \<Longrightarrow> tables_ok (f t)) \<Longrightarrow> safe_change (change f)"
  by (simp add: safe_change_def change_def)

lemma safe_read: "safe_change (\<lambda>t. (q t, t))"
  by (simp add: safe_change_def)

named_theorems store_intros "store operations keep the store well-formed"

lemma ok_on_db [store_intros]: "preserves store_ok (on_db m)"
  by (auto simp: preserves_def on_db_def store_ok_def split: prod.splits)

lemma ok_connect: "preserves store_ok (connect e)"
  unfolding connect_def by (intro preserves_intros ok_on_db) (simp add: store_ok_def)

lemma ok_apply: "safe_change f \<Longrightarrow> preserves store_ok (apply_statement f :: ('w, 'a) db)"
proof (rule preservesI)
  fix s :: "'w Store"
  assume f: "safe_change f" and s: "store_ok s"
  obtain x t where "f (live s) = (x, t)" by force
  with f s show "store_ok (snd (apply_statement f s))"
    by (auto simp: apply_statement_def store_ok_def safe_change_def)
qed

lemma ok_run: "safe_change f \<Longrightarrow> preserves store_ok (run_statement e f)"
  unfolding run_statement_def by (intro preserves_andThen ok_on_db ok_apply)

lemma ok_execute [store_intros]: "safe_change f \<Longrightarrow> preserves store_ok (execute e f)"
  unfolding execute_def by (intro preserves_intros ok_run ok_connect)

lemma ok_commit [store_intros]: "preserves store_ok (commit e)"
  unfolding commit_def by (intro preserves_intros ok_on_db) (simp add: store_ok_def)

lemma ok_write [store_intros]: "(\<And>t. tables_ok t \<Longrightarrow> tables_ok (f t)) \<Longrightarrow> preserves store_ok (store_write e f)"
  unfolding store_write_def by (intro preserves_intros store_intros safe_changeI)

lemma ok_read [store_intros]: "preserves store_ok (store_read e q)"
  unfolding store_read_def by (intro store_intros safe_read)

lemma ok_now [store_intros]: "preserves store_ok (store_now e)"
  unfolding store_now_def by (rule ok_on_db)

lemma preserves_collect: "(\<And>x. preserves I (f x)) \<Longrightarrow> preserves I (collect f xs)"
proof (induction xs)
  case Nil
  then show ?case by (simp add: preserves_def)
next
  case (Cons x xs)
  have "preserves I (andThen (f x) (\<lambda>y. andThen (collect f xs) (\<lambda>ys. ret (y # ys))))"
    using Cons by (intro preserves_intros) simp_all
  then show ?case by (simp add: preserves_def)
qed

lemma upsert_job_ok: "tables_ok t \<Longrightarrow> tables_ok (upsert_job pool now j t)"
  by (auto simp: upsert_job_def tables_ok_def intro: table_intros)

lemma close_job_ok: "tables_ok t \<Longrightarrow> tables_ok (close_job now i t)"
  by (auto simp: close_job_def tables_ok_def intro: table_intros split: option.splits)

lemma deleting_ok:
  "(\<And>t. tables_ok t \<Longrightarrow> tables_ok (put (delete_rows P (get t)) t)) \<Longrightarrow> safe_change (deleting get put P)"
  by (simp add: safe_change_def deleting_def Let_def)

lemma ok_ticks: "preserves store_ok (store_record_tick e tick)"
  unfolding store_record_tick_def by (intro preserves_intros store_intros) (auto simp: tables_ok_def intro: table_intros)

lemma ok_events: "preserves store_ok (store_record_event e ev c p r)"
  unfolding store_record_event_def by (intro preserves_intros store_intros) (auto simp: tables_ok_def intro: table_intros)

lemma ok_prune: "preserves store_ok (store_prune e days)"
  unfolding store_prune_def Let_def
  by (intro preserves_intros store_intros deleting_ok) (auto simp: tables_ok_def intro: table_intros)

lemma ok_overrides:
  "preserves store_ok (set_pool_override e pool data origin dis)" "preserves store_ok (delete_pool_override e pool)"
  "preserves store_ok (set_global e k v)" "preserves store_ok (delete_global e k)"
  unfolding set_pool_override_def delete_pool_override_def set_global_def delete_global_def
  by (intro preserves_intros store_intros; auto simp: tables_ok_def intro: table_intros)+

lemma ok_control:
  "preserves store_ok (set_pool_state e pool a b)" "preserves store_ok (set_protected e c on)"
  unfolding set_pool_state_def set_protected_def
  by (intro preserves_intros store_intros; auto simp: tables_ok_def intro: table_intros)+

lemma ok_status: "preserves store_ok (replace_runner_status e pool rs)"
  unfolding replace_runner_status_def
  by (intro preserves_intros store_intros safe_changeI)
    (auto simp: drop_status_def put_status_def tables_ok_def intro: table_intros)

lemma ok_jobs: "preserves store_ok (sync_jobs e pool jobs)"
  unfolding sync_jobs_def close_out_def
  by (intro preserves_intros store_intros preserves_collect safe_changeI upsert_job_ok close_job_ok)

lemma ok_idempotency:
  "preserves store_ok (remember_response e k r)" "preserves store_ok (prune_idempotency e h)"
  unfolding remember_response_def prune_idempotency_def
  by (intro preserves_intros store_intros; auto simp: tables_ok_def intro: table_intros)+

lemma ok_audit: "preserves store_ok (store_audit e a b c d)"
  unfolding store_audit_def by (intro preserves_intros store_intros) (auto simp: tables_ok_def intro: table_intros)

section \<open>Any sequence of calls\<close>

datatype store_call =
    CallTick TickSnapshot
  | CallEvent string string string string
  | CallPrune int
  | CallOverride string pyval string bool
  | CallDropOverride string
  | CallGlobal string string
  | CallDropGlobal string
  | CallPoolState string bool bool
  | CallProtect string bool
  | CallStatus string "(string \<times> string \<times> bool) list"
  | CallJobs string "JobInfo list"
  | CallRemember string string
  | CallForget rat
  | CallAudit string string string string

fun store_perform :: "'w StoreEnv \<Rightarrow> store_call \<Rightarrow> ('w, unit) db" where
  "store_perform e (CallTick t) = store_record_tick e t"
| "store_perform e (CallEvent a b c d) = store_record_event e a b c d"
| "store_perform e (CallPrune n) = andThen (store_prune e n) (\<lambda>_. ret ())"
| "store_perform e (CallOverride p v r b) = set_pool_override e p v r b"
| "store_perform e (CallDropOverride p) = delete_pool_override e p"
| "store_perform e (CallGlobal k v) = set_global e k v"
| "store_perform e (CallDropGlobal k) = delete_global e k"
| "store_perform e (CallPoolState p a b) = set_pool_state e p a b"
| "store_perform e (CallProtect c b) = set_protected e c b"
| "store_perform e (CallStatus p rs) = replace_runner_status e p rs"
| "store_perform e (CallJobs p js) = andThen (sync_jobs e p js) (\<lambda>_. ret ())"
| "store_perform e (CallRemember k r) = remember_response e k r"
| "store_perform e (CallForget h) = prune_idempotency e h"
| "store_perform e (CallAudit a b c d) = store_audit e a b c d"

lemma perform_ok: "preserves store_ok (store_perform e c)"
  by (cases c) (auto intro: ok_ticks ok_events ok_prune ok_overrides ok_control ok_status ok_jobs ok_idempotency ok_audit
      preserves_andThen preserves_ret)

text \<open>A store after opening and any calls, each of which may have failed anywhere.\<close>

inductive store_reach :: "'w StoreEnv \<Rightarrow> 'w Store \<Rightarrow> bool" for e where
  opened: "new_store e url w = (Inr s, w') \<Longrightarrow> store_reach e s"
| called: "store_reach e s \<Longrightarrow> store_reach e (snd (store_perform e c s))"

inductive_cases store_reachE: "store_reach e s"

lemma preserves_setup: "preserves store_ok (andThen (connect e) (\<lambda>_. andThen (each (\<lambda>_. execute e (change (\<lambda>t. t))) xs) (\<lambda>_. commit e)))"
  by (intro preserves_intros ok_connect store_intros safe_changeI)

lemma new_store_ok:
  assumes "\<And>d w. tables_ok (contents e d w)" "new_store e url w = (Inr s, w')"
  shows "store_ok s"
proof -
  from assms(2) obtain d where d: "parse_dsn url = Inr d" by (auto simp: new_store_def split: sum.splits)
  let ?m = "andThen (connect e) (\<lambda>_. andThen (each (\<lambda>_. execute e (change (\<lambda>t. t))) (schema d)) (\<lambda>_. commit e))"
  let ?s = "\<lparr>st_dsn = d, live = contents e d w, durable = contents e d w, st_world = w\<rparr>"
  have "store_ok ?s" using assms(1) by (simp add: store_ok_def)
  then have "store_ok (snd (?m ?s))" by (rule preservesD [OF preserves_setup])
  moreover have "s = snd (?m ?s)" using assms(2) d by (auto simp: new_store_def split: sum.splits prod.splits)
  ultimately show ?thesis by simp
qed

lemma store_reach_ok:
  assumes "\<And>d w. tables_ok (contents e d w)" "store_reach e s"
  shows "store_ok s"
  using assms(2)
proof (induction rule: store_reach.induct)
  case (opened url w s w')
  then show ?case using new_store_ok [OF assms(1)] by blast
next
  case (called s c)
  then show ?case using preservesD [OF perform_ok] by blast
qed

section \<open>A job that ended stays ended\<close>

definition ended :: "int \<Rightarrow> rat \<Rightarrow> Tables \<Rightarrow> bool" where
  "ended i t T \<longleftrightarrow> keyed_ok (runner_jobs T) \<and> (\<exists>r. map_of (runner_jobs T) i = Some r \<and> jr_ended_ts r = Some t)"

definition ended_both :: "int \<Rightarrow> rat \<Rightarrow> 'w Store \<Rightarrow> bool" where
  "ended_both i t s \<longleftrightarrow> ended i t (live s) \<and> ended i t (durable s)"

definition keeps_end :: "int \<Rightarrow> rat \<Rightarrow> (Tables \<Rightarrow> 'a \<times> Tables) \<Rightarrow> bool" where
  "keeps_end i t f \<longleftrightarrow> (\<forall>T. ended i t T \<longrightarrow> ended i t (snd (f T)))"

lemma keeps_endI: "(\<And>T. ended i t T \<Longrightarrow> ended i t (f T)) \<Longrightarrow> keeps_end i t (change f)"
  by (simp add: keeps_end_def change_def)

lemma keeps_end_other: "(\<And>T. runner_jobs (f T) = runner_jobs T) \<Longrightarrow> keeps_end i t (change f)"
  by (rule keeps_endI) (simp add: ended_def)

lemma keeps_end_read: "keeps_end i t (\<lambda>T. (q T, T))"
  by (simp add: keeps_end_def)

lemma end_on_db: "preserves (ended_both i t) (on_db m)"
  by (auto simp: preserves_def on_db_def ended_both_def split: prod.splits)

lemma end_apply: "keeps_end i t f \<Longrightarrow> preserves (ended_both i t) (apply_statement f :: ('w, 'a) db)"
proof (rule preservesI)
  fix s :: "'w Store"
  assume f: "keeps_end i t f" and s: "ended_both i t s"
  obtain x T where "f (live s) = (x, T)" by force
  with f s show "ended_both i t (snd (apply_statement f s))"
    by (auto simp: apply_statement_def ended_both_def keeps_end_def)
qed

lemma end_connect: "preserves (ended_both i t) (connect e)"
  unfolding connect_def by (intro preserves_intros end_on_db) (simp add: ended_both_def)

lemma end_execute: "keeps_end i t f \<Longrightarrow> preserves (ended_both i t) (execute e f)"
  unfolding execute_def run_statement_def by (intro preserves_intros end_on_db end_apply end_connect)

lemma end_commit: "preserves (ended_both i t) (commit e)"
  unfolding commit_def by (intro preserves_intros end_on_db) (simp add: ended_both_def)

lemma end_write: "(\<And>T. runner_jobs (f T) = runner_jobs T) \<Longrightarrow> preserves (ended_both i t) (store_write e f)"
  unfolding store_write_def by (intro preserves_intros end_execute keeps_end_other end_commit)

lemma end_now: "preserves (ended_both i t) (store_now e)"
  unfolding store_now_def by (rule end_on_db)

lemmas end_intros = preserves_intros end_execute end_commit end_write end_now end_on_db

lemma upsert_keeps_end: "keeps_end i t (change (upsert_job pool now j))"
proof (rule keeps_endI)
  fix T assume T: "ended i t T"
  then obtain r where r: "map_of (runner_jobs T) i = Some r" "jr_ended_ts r = Some t" by (auto simp: ended_def)
  have "keyed_ok (runner_jobs (upsert_job pool now j T))"
    using T by (auto simp: ended_def upsert_job_def intro: dict_set_ok)
  moreover have "\<exists>r. map_of (runner_jobs (upsert_job pool now j T)) i = Some r \<and> jr_ended_ts r = Some t"
    using r by (cases "job_id j = i") (auto simp: upsert_job_def merge_job_def)
  ultimately show "ended i t (upsert_job pool now j T)" by (simp add: ended_def)
qed

lemma close_keeps_end: "k \<noteq> i \<Longrightarrow> keeps_end i t (change (close_job now k))"
  by (rule keeps_endI) (auto simp: close_job_def ended_def intro: dict_set_ok split: option.splits)

lemma known_ended:
  assumes "ended i t T" "(i, x) \<in> set (known_jobs pool T)"
  shows "x = Some t"
proof -
  from assms(2) obtain r where "(i, r) \<in> set (runner_jobs T)" "x = jr_ended_ts r" by (auto simp: known_jobs_def)
  moreover have "map_of (runner_jobs T) i = Some r"
    using assms(1) calculation(1) by (simp add: ended_def keyed_ok_def)
  ultimately show ?thesis using assms(1) by (auto simp: ended_def)
qed

text \<open>What a query reads is what it says of the tables of a connection that kept the job's end.\<close>

lemma execute_read_from:
  assumes "ended_both i t s" "store_read e q s = (Inr x, s')"
  shows "\<exists>T. ended i t T \<and> x = q T"
proof -
  have run: "\<exists>T. ended i t T \<and> x = q T" if "ended_both i t u" "run_statement e (\<lambda>T. (q T, T)) u = (Inr x, s')" for u
  proof -
    from that(2) obtain v where v: "on_db (statement_op e) u = (Inr (), v)" "x = q (live v)"
      unfolding run_statement_def by (auto dest!: andThen_InrD simp: apply_statement_def)
    have "ended_both i t v" using preservesD [OF end_on_db that(1), of "statement_op e"] v(1) by simp
    then show ?thesis using v(2) by (auto simp: ended_both_def)
  qed
  show ?thesis
  proof (cases "run_statement e (\<lambda>T. (q T, T)) s")
    case (Pair r u)
    show ?thesis
    proof (cases r)
      case (Inr y)
      then have "run_statement e (\<lambda>T. (q T, T)) s = (Inr x, s')"
        using assms(2) Pair by (simp add: store_read_def execute_def catch_def)
      from run [OF assms(1) this] show ?thesis .
    next
      case (Inl err)
      have "preserves (ended_both i t) (run_statement e (\<lambda>T. (q T, T)))"
        unfolding run_statement_def by (intro preserves_intros end_on_db end_apply keeps_end_read)
      from preservesD [OF this assms(1)] have u: "ended_both i t u" using Pair by simp
      from assms(2) Pair Inl obtain v where v: "connect e u = (Inr (), v)" "run_statement e (\<lambda>T. (q T, T)) v = (Inr x, s')"
        by (auto simp: store_read_def execute_def catch_def split: if_splits dest!: andThen_InrD)
      have "ended_both i t v" using preservesD [OF end_connect u, of e] v(1) by simp
      from run [OF this v(2)] show ?thesis .
    qed
  qed
qed

lemma preserves_collect_in: "(\<And>x. x \<in> set xs \<Longrightarrow> preserves I (f x)) \<Longrightarrow> preserves I (collect f xs)"
proof (induction xs)
  case Nil
  then show ?case by (simp add: preserves_def)
next
  case (Cons x xs)
  have "preserves I (andThen (f x) (\<lambda>y. andThen (collect f xs) (\<lambda>ys. ret (y # ys))))"
    using Cons by (intro preserves_intros) simp_all
  then show ?case by (simp add: preserves_def)
qed

lemma end_close_out: "k \<noteq> i \<Longrightarrow> preserves (ended_both i t) (close_out e now k)"
  unfolding close_out_def store_read_def by (intro end_intros close_keeps_end keeps_end_read)

lemma end_sync_jobs: "preserves (ended_both i t) (sync_jobs e pool jobs)"
  unfolding sync_jobs_def
proof (rule preserves_andThen [OF end_now], rule preserves_andThen_dep)
  show "preserves (ended_both i t) (store_read e (known_jobs pool))"
    unfolding store_read_def by (intro end_execute keeps_end_read)
  fix now and s s' :: "'a Store" and known
  assume s: "ended_both i t s" "store_read e (known_jobs pool) s = (Inr known, s')"
  from execute_read_from [OF this] obtain T where T: "ended i t T" "known = known_jobs pool T" by blast
  have others: "k \<noteq> i" if "k \<in> set (left_behind known jobs)" for k
    using that T(2) known_ended [OF T(1), of None pool] by (auto simp: left_behind_def)
  have "preserves (ended_both i t) (store_read e (known_jobs pool))"
    unfolding store_read_def by (intro end_execute keeps_end_read)
  from preservesD [OF this s(1)] have s': "ended_both i t s'" using s(2) by simp
  have "preserves (ended_both i t)
     (andThen (each (\<lambda>j. execute e (change (upsert_job pool now j))) jobs) (\<lambda>_.
      andThen (collect (close_out e now) (left_behind known jobs)) (\<lambda>closed.
      andThen (commit e) (\<lambda>_.
        ret (started_jobs known jobs, finished_jobs known jobs @ List.map_filter (\<lambda>x. x) closed)))))"
    by (intro end_intros upsert_keeps_end preserves_collect_in end_close_out others)
  from preservesD [OF this s']
  show "ended_both i t (snd ((andThen (each (\<lambda>j. execute e (change (upsert_job pool now j))) jobs) (\<lambda>_.
      andThen (collect (close_out e now) (left_behind known jobs)) (\<lambda>closed.
      andThen (commit e) (\<lambda>_.
        ret (started_jobs known jobs, finished_jobs known jobs @ List.map_filter (\<lambda>x. x) closed))))) s'))" .
qed

lemma end_perform: "preserves (ended_both i t) (store_perform e c)"
  by (cases c) (auto simp: store_record_tick_def store_record_event_def store_prune_def deleting_def change_def
      set_pool_override_def delete_pool_override_def set_global_def delete_global_def set_pool_state_def set_protected_def
      replace_runner_status_def drop_status_def put_status_def remember_response_def prune_idempotency_def store_audit_def
      keeps_end_def ended_def Let_def ret_def preserves_def [where m = "Pair _"] intro!: end_intros end_sync_jobs)

section \<open>An engine that runs every statement\<close>

definition healthy :: "'w StoreEnv \<Rightarrow> bool" where
  "healthy e \<longleftrightarrow> (\<forall>w. fst (statement_op e w) = Inr () \<and> fst (commit_op e w) = Inr () \<and> (\<exists>now. fst (time_op e w) = Inr now))"

text \<open>\<open>gives m s x l d\<close>: from \<open>s\<close>, \<open>m\<close> returns \<open>x\<close> with the connection seeing \<open>l\<close> and \<open>d\<close> committed.\<close>

definition gives :: "('w, 'a) db \<Rightarrow> 'w Store \<Rightarrow> 'a \<Rightarrow> Tables \<Rightarrow> Tables \<Rightarrow> bool" where
  "gives m s x l d \<longleftrightarrow> fst (m s) = Inr x \<and> live (snd (m s)) = l \<and> durable (snd (m s)) = d"

lemma givesD: "gives m s x l d \<Longrightarrow> \<exists>s'. m s = (Inr x, s') \<and> live s' = l \<and> durable s' = d"
  by (cases "m s") (simp add: gives_def)

lemma gives_ret: "live s = l \<Longrightarrow> durable s = d \<Longrightarrow> gives (ret x) s x l d"
  by (simp add: gives_def)

lemma gives_andThen:
  "gives m s x l d \<Longrightarrow> (\<And>s'. live s' = l \<Longrightarrow> durable s' = d \<Longrightarrow> gives (f x) s' y l' d') \<Longrightarrow> gives (andThen m f) s y l' d'"
  by (auto simp: gives_def dest!: givesD [unfolded gives_def])

lemma gives_statement:
  assumes "healthy e"
  shows "gives (run_statement e f) s (fst (f (live s))) (snd (f (live s))) (durable s)"
proof -
  obtain r w where st: "statement_op e (st_world s) = (r, w)" by force
  then have "r = Inr ()" using assms by (metis healthy_def fst_conv)
  with st show ?thesis
    by (cases "f (live s)") (simp add: gives_def run_statement_def andThen_def on_db_def apply_statement_def)
qed

lemma gives_execute:
  assumes "healthy e"
  shows "gives (execute e f) s (fst (f (live s))) (snd (f (live s))) (durable s)"
  using givesD [OF gives_statement [OF assms, of f s]] by (auto simp: gives_def execute_def catch_def)

lemma gives_commit: "healthy e \<Longrightarrow> gives (commit e) s () (live s) (live s)"
proof -
  assume h: "healthy e"
  obtain r w where st: "commit_op e (st_world s) = (r, w)" by force
  then have "r = Inr ()" using h by (metis healthy_def fst_conv)
  with st show ?thesis by (simp add: gives_def commit_def andThen_def on_db_def)
qed

lemma gives_commit': "healthy e \<Longrightarrow> live s = l \<Longrightarrow> gives (commit e) s () l l"
  using gives_commit by blast

lemma gives_write: "healthy e \<Longrightarrow> gives (store_write e f) s () (f (live s)) (f (live s))"
  unfolding store_write_def
  by (rule gives_andThen [OF gives_execute]) (simp_all add: change_def gives_commit')

lemma gives_write': "healthy e \<Longrightarrow> live s = l \<Longrightarrow> gives (store_write e f) s () (f l) (f l)"
  using gives_write by blast

lemma gives_read: "healthy e \<Longrightarrow> gives (store_read e q) s (q (live s)) (live s) (durable s)"
  using gives_execute [of e "\<lambda>t. (q t, t)" s] by (simp add: store_read_def)

lemma gives_now: "healthy e \<Longrightarrow> \<exists>now. gives (store_now e) s now (live s) (durable s)"
proof -
  assume "healthy e"
  then obtain now where now: "fst (time_op e (st_world s)) = Inr now" by (auto simp: healthy_def)
  obtain r w where "time_op e (st_world s) = (r, w)" by force
  with now have "gives (store_now e) s now (live s) (durable s)" by (simp add: gives_def store_now_def on_db_def)
  then show ?thesis ..
qed

section \<open>Overrides\<close>

lemma map_of_fold_dict_set: "map_of (fold (\<lambda>(k, v). dict_set k v) xs d) = map_of d ++ map_of (rev xs)"
  by (induction xs arbitrary: d) (auto simp: map_add_def fun_eq_iff split: option.splits prod.splits)

definition view_override :: "(string, OverrideRow) dict \<Rightarrow> string \<Rightarrow> PoolOverride option" where
  "view_override rs k = (case map_of rs k of None \<Rightarrow> None | Some r \<Rightarrow> map_option snd (read_override (k, r)))"

lemma read_override_key: "read_override (k, r) = Some kv \<Longrightarrow> fst kv = k"
  by (auto simp: read_override_def split: sum.splits)

lemma map_of_read_overrides:
  "keyed_ok rs \<Longrightarrow> map_of (rev (List.map_filter read_override rs)) k = view_override rs k"
proof (induction rs)
  case Nil
  then show ?case by (simp add: view_override_def List.map_filter_def)
next
  case (Cons kr rs)
  obtain k' r where kr: "kr = (k', r)" by force
  have IH: "map_of (rev (List.map_filter read_override rs)) k = view_override rs k"
    by (rule Cons.IH) (use Cons.prems in \<open>simp add: keyed_ok_def\<close>)
  have "k' \<notin> fst ` set rs" using Cons.prems kr by (simp add: keyed_ok_def)
  then have new: "map_of rs k' = None" by (simp add: map_of_eq_None_iff)
  show ?case
  proof (cases "read_override (k', r)")
    case None
    then show ?thesis using IH kr new
      by (auto simp: List.map_filter_def view_override_def split: option.splits)
  next
    case (Some kv)
    then obtain v where kv: "kv = (k', v)" using read_override_key by (metis prod.collapse)
    have "view_override rs k' = None" using new by (simp add: view_override_def)
    then show ?thesis using IH kr Some kv
      by (auto simp: List.map_filter_def view_override_def map_add_def split: option.splits)
  qed
qed

lemma gives_overrides:
  assumes "healthy e" "keyed_ok (t_pool_overrides (live s))"
  shows "\<exists>d. gives (pool_overrides e) s d (live s) (durable s) \<and> map_of d = view_override (t_pool_overrides (live s))"
proof -
  let ?d = "fold (\<lambda>(k, v). dict_set k v) (List.map_filter read_override (t_pool_overrides (live s))) []"
  have "gives (pool_overrides e) s ?d (live s) (durable s)"
    unfolding pool_overrides_def by (rule gives_andThen [OF gives_read [OF assms(1)]]) (simp add: gives_ret)
  moreover have "map_of ?d = view_override (t_pool_overrides (live s))"
    using map_of_read_overrides [OF assms(2)] by (simp add: map_of_fold_dict_set fun_eq_iff)
  ultimately show ?thesis by blast
qed

lemma gives_set_override:
  assumes "healthy e"
  shows "\<exists>now. gives (set_pool_override e pool data origin dis) s ()
     ((live s)\<lparr>t_pool_overrides := dict_set pool \<lparr>ov_data = dumps (float_repr e) data, ov_origin = origin,
        ov_disabled = bool_int dis, ov_updated_at = now\<rparr> (t_pool_overrides (live s))\<rparr>)
     ((live s)\<lparr>t_pool_overrides := dict_set pool \<lparr>ov_data = dumps (float_repr e) data, ov_origin = origin,
        ov_disabled = bool_int dis, ov_updated_at = now\<rparr> (t_pool_overrides (live s))\<rparr>)"
proof -
  obtain now where now: "gives (store_now e) s now (live s) (durable s)" using gives_now [OF assms] by blast
  show ?thesis unfolding set_pool_override_def
    by (rule exI [of _ now], rule gives_andThen [OF now]) (rule gives_write' [OF assms])
qed

lemma view_set:
  "json_plain (float_repr e) data \<Longrightarrow>
   view_override (dict_set pool \<lparr>ov_data = dumps (float_repr e) data, ov_origin = origin, ov_disabled = bool_int dis, ov_updated_at = now\<rparr> rs) =
   (view_override rs)(pool \<mapsto> \<lparr>po_data = data, po_origin = origin, po_disabled = dis\<rparr>)"
  by (auto simp: view_override_def fun_eq_iff read_override_def loads_dumps bool_int_def)

text \<open>C25. An override comes back as it was saved: after saving the override of a pool, reading
  the overrides gives that pool exactly the data, origin and flag saved, every other pool what
  it had before, and the change is committed. The data may be any JSON value whose floats
  Python prints as they read.\<close>

theorem override_round_trip:
  assumes "healthy e" "store_ok s" "json_plain (float_repr e) data"
  shows "\<exists>before after s'. fst (pool_overrides e s) = Inr before \<and>
    set_pool_override e pool data origin dis s = (Inr (), s') \<and> durable s' = live s' \<and>
    fst (pool_overrides e s') = Inr after \<and>
    map_of after = (map_of before)(pool \<mapsto> \<lparr>po_data = data, po_origin = origin, po_disabled = dis\<rparr>)"
proof -
  have ok: "keyed_ok (t_pool_overrides (live s))" using assms(2) by (simp add: store_ok_def tables_ok_def)
  from gives_overrides [OF assms(1) ok] obtain before where b:
    "fst (pool_overrides e s) = Inr before" "map_of before = view_override (t_pool_overrides (live s))"
    by (auto simp: gives_def)
  from gives_set_override [OF assms(1), of pool data origin dis s] obtain now s' where
    s': "set_pool_override e pool data origin dis s = (Inr (), s')" "durable s' = live s'"
      "t_pool_overrides (live s') = dict_set pool \<lparr>ov_data = dumps (float_repr e) data, ov_origin = origin,
        ov_disabled = bool_int dis, ov_updated_at = now\<rparr> (t_pool_overrides (live s))"
    by (auto dest!: givesD)
  have "keyed_ok (t_pool_overrides (live s'))" unfolding s'(3) by (rule dict_set_ok [OF ok])
  from gives_overrides [OF assms(1) this] obtain after where a:
    "fst (pool_overrides e s') = Inr after" "map_of after = view_override (t_pool_overrides (live s'))"
    by (auto simp: gives_def)
  show ?thesis using b a s' view_set [OF assms(3)] by (metis (no_types, lifting))
qed

definition demo_store_env :: "nat StoreEnv" where
  "demo_store_env =
     \<lparr>time_op = (\<lambda>w. (Inr (of_nat w), Suc w)), store_mono_op = (\<lambda>w. (Inr (of_nat w), Suc w)),
      store_sleep_op = (\<lambda>d w. (Inr (), Suc (Suc w))), statement_op = ret (), commit_op = ret (),
      connect_op = (\<lambda>_. ret ()), parent_dir_op = (\<lambda>_. ret ()), contents = (\<lambda>_ _. empty_tables),
      float_repr = (\<lambda>_. ''0.0''), open_fuel = 40\<rparr>"

definition demo_store :: "nat Store" where
  "demo_store = \<lparr>st_dsn = sqlite_dsn ''/data/rorch.db'', live = empty_tables, durable = empty_tables, st_world = 100\<rparr>"

lemma demo_healthy: "healthy demo_store_env"
  by (simp add: healthy_def demo_store_env_def)

lemma demo_store_ok: "store_ok demo_store"
  by (simp add: store_ok_def demo_store_def empty_tables_ok)

definition demo_override :: pyval where
  "demo_override = PDict [(''max_runners'', PInt 4), (''labels'', PStr [CHR 0xE9, CHR 0x0A]), (''repos'', PList [PStr ''a'', PNone])]"

theorem override_round_trip_witness:
  "\<exists>before after s'. fst (pool_overrides demo_store_env demo_store) = Inr before \<and>
    set_pool_override demo_store_env ''ci'' demo_override ''yaml'' False demo_store = (Inr (), s') \<and> durable s' = live s' \<and>
    fst (pool_overrides demo_store_env s') = Inr after \<and>
    map_of after = (map_of before)(''ci'' \<mapsto> \<lparr>po_data = demo_override, po_origin = ''yaml'', po_disabled = False\<rparr>)"
  by (rule override_round_trip [OF demo_healthy demo_store_ok]) (simp add: demo_override_def)

text \<open>C23. The end of a job is final: once a job is recorded and committed as ended at some time,
  no call on the store, for any pool, failing at any point or reconnecting, changes that time
  or removes the job.\<close>

theorem job_end_is_final:
  assumes "store_ok s" "map_of (runner_jobs (live s)) i = Some r" "map_of (runner_jobs (durable s)) i = Some r'"
    "jr_ended_ts r = Some t" "jr_ended_ts r' = Some t"
  shows "\<exists>q. map_of (runner_jobs (durable (snd (store_perform e c s)))) i = Some q \<and> jr_ended_ts q = Some t"
proof -
  have "ended_both i t s" using assms by (auto simp: ended_both_def ended_def store_ok_def tables_ok_def)
  from preservesD [OF end_perform this, of e c] show ?thesis by (auto simp: ended_both_def ended_def)
qed

definition done_job :: JobInfo where
  "done_job = \<lparr>job_id = 7, job_repo = ''web'', job_workflow = ''CI'', job_name = ''test'', job_runner = ''r1'',
     job_status = ''completed'', job_conclusion = ''success'', job_url = [], job_started_at = [], job_completed_at = []\<rparr>"

definition ended_store :: "nat Store" where
  "ended_store = (let t = empty_tables\<lparr>runner_jobs := [(7, new_job_row ''ci'' 50 done_job)]\<rparr>
     in demo_store\<lparr>live := t, durable := t\<rparr>)"

theorem job_end_is_final_witness:
  "\<exists>q. map_of (runner_jobs (durable (snd (store_perform demo_store_env (CallJobs ''ci'' [done_job\<lparr>job_status := ''in_progress''\<rparr>]) ended_store)))) 7 = Some q \<and>
     jr_ended_ts q = Some 50"
proof (rule job_end_is_final [where r = "new_job_row ''ci'' 50 done_job" and r' = "new_job_row ''ci'' 50 done_job"])
  show "store_ok ended_store"
    using empty_tables_ok by (simp add: store_ok_def ended_store_def Let_def tables_ok_def keyed_ok_def)
qed (simp_all add: ended_store_def Let_def new_job_row_def ended_at_def completed_def done_job_def)

section \<open>One report per job\<close>

lemma gives_each:
  assumes "healthy e"
  shows "gives (each (\<lambda>x. execute e (change (f x))) xs) s () (fold f xs (live s)) (durable s)"
proof (induction xs arbitrary: s)
  case Nil
  show ?case by (simp add: gives_def)
next
  case (Cons x xs)
  have "gives (andThen (execute e (change (f x))) (\<lambda>_. each (\<lambda>x. execute e (change (f x))) xs)) s ()
      (fold f xs (f x (live s))) (durable s)"
    by (rule gives_andThen [OF gives_execute [OF assms]]) (use Cons.IH in \<open>metis change_def snd_conv\<close>)
  then show ?case by (simp add: gives_def)
qed

lemma gives_close_out:
  assumes "healthy e"
  shows "gives (close_out e now i) s (map_option (row_report i) (map_of (runner_jobs (close_job now i (live s))) i))
    (close_job now i (live s)) (durable s)"
  unfolding close_out_def
  by (rule gives_andThen [OF gives_execute [OF assms]]) (use gives_read [OF assms] in \<open>metis change_def snd_conv\<close>)

definition closed_reports :: "rat \<Rightarrow> int list \<Rightarrow> Tables \<Rightarrow> JobReport option list" where
  "closed_reports now is T = map (\<lambda>i. map_option (row_report i) (map_of (runner_jobs (close_job now i T)) i)) is"

lemma close_job_other: "k \<noteq> i \<Longrightarrow> map_of (runner_jobs (close_job now i T)) k = map_of (runner_jobs T) k"
  by (simp add: close_job_def split: option.splits)

lemma close_job_row:
  "map_of (runner_jobs (close_job now i T)) k = map_option (\<lambda>r. if k = i then
     r\<lparr>jr_status := ''completed'', jr_conclusion := (if jr_conclusion r = [] then ''unobserved'' else jr_conclusion r),
       jr_ended_ts := Some now\<rparr> else r) (map_of (runner_jobs T) k)"
  by (cases "map_of (runner_jobs T) k"; cases "k = i") (auto simp: close_job_def split: option.splits)

lemma closed_reports_step:
  "i \<notin> set is \<Longrightarrow> closed_reports now is (close_job now i T) = closed_reports now is T"
  by (auto simp: closed_reports_def close_job_row option.map_comp comp_def intro!: option.map_cong)

lemma gives_collect_close:
  assumes "healthy e"
  shows "distinct is \<Longrightarrow> gives (collect (close_out e now) is) s (closed_reports now is (live s)) (fold (close_job now) is (live s)) (durable s)"
proof (induction "is" arbitrary: s)
  case Nil
  show ?case by (simp add: gives_def closed_reports_def)
next
  case (Cons i "is")
  have "gives (andThen (close_out e now i) (\<lambda>y. andThen (collect (close_out e now) is) (\<lambda>ys. ret (y # ys)))) s
      (closed_reports now (i # is) (live s)) (fold (close_job now) is (close_job now i (live s))) (durable s)"
  proof (rule gives_andThen [OF gives_close_out [OF assms]])
    fix s' :: "'a Store"
    assume s': "live s' = close_job now i (live s)" "durable s' = durable s"
    have rest: "gives (collect (close_out e now) is) s' (closed_reports now is (live s))
        (fold (close_job now) is (close_job now i (live s))) (durable s)"
      using Cons.IH [of s'] Cons.prems s' closed_reports_step [of i "is" now "live s"] by simp
    show "gives (andThen (collect (close_out e now) is)
          (\<lambda>ys. ret (map_option (row_report i) (map_of (runner_jobs (close_job now i (live s))) i) # ys))) s'
        (closed_reports now (i # is) (live s)) (fold (close_job now) is (close_job now i (live s))) (durable s)"
      by (rule gives_andThen [OF rest]) (simp add: gives_ret closed_reports_def)
  qed
  then show ?case by (simp add: gives_def)
qed

text \<open>The tables after a scan of \<open>pool\<close> at time \<open>now\<close>.\<close>

definition scanned :: "string \<Rightarrow> rat \<Rightarrow> JobInfo list \<Rightarrow> Tables \<Rightarrow> Tables" where
  "scanned pool now jobs T =
     fold (close_job now) (left_behind (known_jobs pool T) jobs) (fold (upsert_job pool now) jobs T)"

lemma left_behind_distinct: "keyed_ok (runner_jobs T) \<Longrightarrow> distinct (left_behind (known_jobs pool T) jobs)"
  unfolding left_behind_def known_jobs_def keyed_ok_def
  by (intro distinct_map_filter) (simp add: comp_def case_prod_unfold distinct_map_filter)

lemma gives_sync:
  assumes "healthy e" "keyed_ok (runner_jobs (live s))"
  shows "\<exists>now. gives (sync_jobs e pool jobs) s
     (started_jobs (known_jobs pool (live s)) jobs, finished_jobs (known_jobs pool (live s)) jobs @
        List.map_filter (\<lambda>x. x) (closed_reports now (left_behind (known_jobs pool (live s)) jobs) (fold (upsert_job pool now) jobs (live s))))
     (scanned pool now jobs (live s)) (scanned pool now jobs (live s))"
proof -
  obtain now where now: "gives (store_now e) s now (live s) (durable s)" using gives_now [OF assms(1)] by blast
  note h = assms(1) and dist = left_behind_distinct [OF assms(2)]
  show ?thesis unfolding sync_jobs_def
  proof (rule exI [of _ now], rule gives_andThen [OF now])
    fix sa :: "'a Store" assume sa: "live sa = live s" "durable sa = durable s"
    show "gives (andThen (store_read e (known_jobs pool)) (\<lambda>known.
        andThen (each (\<lambda>j. execute e (change (upsert_job pool now j))) jobs) (\<lambda>_.
        andThen (collect (close_out e now) (left_behind known jobs)) (\<lambda>closed.
        andThen (commit e) (\<lambda>_. ret (started_jobs known jobs, finished_jobs known jobs @ List.map_filter (\<lambda>x. x) closed)))))) sa
       (started_jobs (known_jobs pool (live s)) jobs, finished_jobs (known_jobs pool (live s)) jobs @
        List.map_filter (\<lambda>x. x) (closed_reports now (left_behind (known_jobs pool (live s)) jobs) (fold (upsert_job pool now) jobs (live s))))
       (scanned pool now jobs (live s)) (scanned pool now jobs (live s))"
    proof (rule gives_andThen [OF gives_read [OF h]], rule gives_andThen [OF gives_each [OF h]],
        rule gives_andThen [OF gives_collect_close [OF h]], goal_cases)
      case (1 sb sc)
      then show ?case using dist sa by simp
    next
      case (2 sb sc sd)
      then show ?case using sa
        by (intro gives_andThen [OF gives_commit' [OF h]]) (simp_all add: scanned_def gives_def ret_def)
    qed
  qed
qed

lemma upsert_row:
  "map_of (runner_jobs (upsert_job pool now j T)) k =
     (if k = job_id j then Some (case map_of (runner_jobs T) k of None \<Rightarrow> new_job_row pool now j | Some r \<Rightarrow> merge_job now j r)
      else map_of (runner_jobs T) k)"
  by (simp add: upsert_job_def)

text \<open>\<open>advances r r'\<close>: the row is still the pool's, and if it had ended it still has.\<close>

definition advances :: "JobRow \<Rightarrow> JobRow \<Rightarrow> bool" where
  "advances r r' \<longleftrightarrow> jr_pool r' = jr_pool r \<and> (jr_ended_ts r \<noteq> None \<longrightarrow> jr_ended_ts r' \<noteq> None)"

lemma advances_trans: "advances a b \<Longrightarrow> advances b c \<Longrightarrow> advances a c"
  by (auto simp: advances_def)

lemma upserts_advance:
  "map_of (runner_jobs T) k = Some r \<Longrightarrow> \<exists>r'. map_of (runner_jobs (fold (upsert_job pool now) jobs T)) k = Some r' \<and> advances r r'"
proof (induction jobs arbitrary: T r)
  case Nil
  then show ?case by (simp add: advances_def)
next
  case (Cons j jobs)
  have "\<exists>q. map_of (runner_jobs (upsert_job pool now j T)) k = Some q \<and> advances r q"
    using Cons.prems by (auto simp: upsert_row advances_def merge_job_def split: option.splits)
  then obtain q where q: "map_of (runner_jobs (upsert_job pool now j T)) k = Some q" "advances r q" by blast
  from Cons.IH [OF q(1)] advances_trans [OF q(2)] show ?case by auto
qed

lemma upserts_seen:
  assumes "j \<in> set jobs"
  shows "\<exists>r'. map_of (runner_jobs (fold (upsert_job pool now) jobs T)) (job_id j) = Some r' \<and>
    (map_of (runner_jobs T) (job_id j) = None \<longrightarrow> jr_pool r' = pool) \<and> (completed j \<longrightarrow> jr_ended_ts r' \<noteq> None)"
  using assms
proof (induction jobs arbitrary: T)
  case Nil
  then show ?case by simp
next
  case (Cons k jobs)
  let ?T = "upsert_job pool now k T"
  show ?case
  proof (cases "job_id k = job_id j \<and> (k = j \<or> j \<notin> set jobs)")
    case True
    then have "k = j" using Cons.prems by auto
    then obtain q where q: "map_of (runner_jobs ?T) (job_id j) = Some q"
      "map_of (runner_jobs T) (job_id j) = None \<longrightarrow> jr_pool q = pool" "completed j \<longrightarrow> jr_ended_ts q \<noteq> None"
      by (auto simp: upsert_row merge_job_def new_job_row_def ended_at_def split: option.splits)
    from upserts_advance [OF q(1)] obtain r' where
      r': "map_of (runner_jobs (fold (upsert_job pool now) jobs ?T)) (job_id j) = Some r'" "advances q r'" by blast
    have "jr_pool r' = jr_pool q" "jr_ended_ts q \<noteq> None \<longrightarrow> jr_ended_ts r' \<noteq> None" using r'(2) by (simp_all add: advances_def)
    note adv = this
    show ?thesis
    proof (intro exI conjI)
      show "map_of (runner_jobs (fold (upsert_job pool now) (k # jobs) T)) (job_id j) = Some r'" using r'(1) by simp
      show "map_of (runner_jobs T) (job_id j) = None \<longrightarrow> jr_pool r' = pool" using adv(1) q(2) by simp
      show "completed j \<longrightarrow> jr_ended_ts r' \<noteq> None" using adv(2) q(3) by blast
    qed
  next
    case False
    then have j: "j \<in> set jobs" using Cons.prems by auto
    from Cons.IH [OF j, of ?T] obtain r' where r': "map_of (runner_jobs (fold (upsert_job pool now) jobs ?T)) (job_id j) = Some r'"
      "map_of (runner_jobs ?T) (job_id j) = None \<longrightarrow> jr_pool r' = pool" "completed j \<longrightarrow> jr_ended_ts r' \<noteq> None" by (elim exE conjE)
    have "jr_pool r' = pool" if "map_of (runner_jobs T) (job_id j) = None"
    proof (cases "job_id k = job_id j")
      case True
      with that have "map_of (runner_jobs ?T) (job_id j) = Some (new_job_row pool now k)" by (simp add: upsert_row)
      from upserts_advance [OF this, of pool now jobs] r'(1) show ?thesis by (auto simp: advances_def new_job_row_def)
    next
      case False
      then show ?thesis using r'(2) that by (simp add: upsert_row)
    qed
    with r' show ?thesis by simp
  qed
qed

lemma closes_advance:
  "map_of (runner_jobs T) k = Some r \<Longrightarrow> \<exists>r'. map_of (runner_jobs (fold (close_job now) is T)) k = Some r' \<and> advances r r' \<and>
     (k \<in> set is \<longrightarrow> jr_ended_ts r' \<noteq> None)"
proof (induction "is" arbitrary: T r)
  case Nil
  then show ?case by (simp add: advances_def)
next
  case (Cons i "is")
  have "\<exists>q. map_of (runner_jobs (close_job now i T)) k = Some q \<and> advances r q \<and> (k = i \<longrightarrow> jr_ended_ts q \<noteq> None)"
    using Cons.prems by (auto simp: close_job_row advances_def)
  then obtain q where q: "map_of (runner_jobs (close_job now i T)) k = Some q" "advances r q" "k = i \<longrightarrow> jr_ended_ts q \<noteq> None" by blast
  from Cons.IH [OF q(1)] obtain r' where "map_of (runner_jobs (fold (close_job now) is (close_job now i T))) k = Some r'"
    "advances q r'" "k \<in> set is \<longrightarrow> jr_ended_ts r' \<noteq> None" by blast
  with q(2,3) show ?case by (auto simp: advances_def)
qed

lemma map_of_known:
  "keyed_ok (runner_jobs T) \<Longrightarrow> map_of (known_jobs pool T) k =
     (case map_of (runner_jobs T) k of None \<Rightarrow> None | Some r \<Rightarrow> if jr_pool r = pool then Some (jr_ended_ts r) else None)"
  unfolding known_jobs_def keyed_ok_def
proof (induction "runner_jobs T" arbitrary: T)
  case Nil
  then show ?case by simp
next
  case (Cons ir js)
  obtain i r where ir: "ir = (i, r)" by force
  let ?T = "T\<lparr>runner_jobs := js\<rparr>"
  have "map_of (map (\<lambda>(i, r). (i, jr_ended_ts r)) (filter (\<lambda>(_, r). jr_pool r = pool) js)) k =
      (case map_of js k of None \<Rightarrow> None | Some r \<Rightarrow> if jr_pool r = pool then Some (jr_ended_ts r) else None)"
    using Cons.hyps(1) [of ?T] Cons.prems Cons.hyps(2) [symmetric] by simp
  moreover have "map_of js i = None" using Cons.prems Cons.hyps(2) [symmetric] ir by (simp add: map_of_eq_None_iff)
  ultimately show ?case using Cons.hyps(2) [symmetric] ir by (auto split: option.splits)
qed

lemma scanned_row:
  assumes "map_of (runner_jobs T) k = Some r"
  shows "\<exists>r'. map_of (runner_jobs (scanned pool now jobs T)) k = Some r' \<and> advances r r'"
proof -
  obtain q where q: "map_of (runner_jobs (fold (upsert_job pool now) jobs T)) k = Some q" "advances r q"
    using upserts_advance [OF assms] by blast
  from closes_advance [OF q(1)] obtain r' where
    "map_of (runner_jobs (fold (close_job now) (left_behind (known_jobs pool T) jobs) (fold (upsert_job pool now) jobs T))) k = Some r'"
    "advances q r'" by blast
  with advances_trans [OF q(2)] show ?thesis by (auto simp: scanned_def)
qed

lemma scanned_seen:
  assumes "j \<in> set jobs"
  shows "\<exists>r'. map_of (runner_jobs (scanned pool now jobs T)) (job_id j) = Some r' \<and>
    (map_of (runner_jobs T) (job_id j) = None \<longrightarrow> jr_pool r' = pool) \<and> (completed j \<longrightarrow> jr_ended_ts r' \<noteq> None)"
proof -
  obtain q where q: "map_of (runner_jobs (fold (upsert_job pool now) jobs T)) (job_id j) = Some q"
    "map_of (runner_jobs T) (job_id j) = None \<longrightarrow> jr_pool q = pool" "completed j \<longrightarrow> jr_ended_ts q \<noteq> None"
    using upserts_seen [OF assms, of pool now T] by (elim exE conjE)
  from closes_advance [OF q(1), of now "left_behind (known_jobs pool T) jobs"] obtain r' where
    r': "map_of (runner_jobs (fold (close_job now) (left_behind (known_jobs pool T) jobs) (fold (upsert_job pool now) jobs T))) (job_id j) = Some r'"
    "advances q r'" by blast
  have "jr_pool r' = jr_pool q" "jr_ended_ts q \<noteq> None \<longrightarrow> jr_ended_ts r' \<noteq> None" using r'(2) by (simp_all add: advances_def)
  then show ?thesis
    by (intro exI [of _ r'] conjI) (use r'(1) q(2,3) in \<open>auto simp: scanned_def\<close>)
qed

lemma scanned_closed:
  assumes "keyed_ok (runner_jobs T)" "i \<in> set (left_behind (known_jobs pool T) jobs)"
  shows "\<exists>r'. map_of (runner_jobs (scanned pool now jobs T)) i = Some r' \<and> jr_ended_ts r' \<noteq> None"
proof -
  from assms(2) obtain r where "(i, r) \<in> set (runner_jobs T)" by (auto simp: left_behind_def known_jobs_def)
  then have "map_of (runner_jobs T) i = Some r" using assms(1) by (simp add: keyed_ok_def)
  from upserts_advance [OF this, of pool now jobs] obtain q where "map_of (runner_jobs (fold (upsert_job pool now) jobs T)) i = Some q" by blast
  from closes_advance [OF this, of now "left_behind (known_jobs pool T) jobs"] show ?thesis using assms(2) by (auto simp: scanned_def)
qed

text \<open>What a scan reports as finished is ended in the tables it leaves.\<close>

lemma finished_is_ended:
  assumes "keyed_ok (runner_jobs T)"
    "rep \<in> set (finished_jobs (known_jobs pool T) jobs @
       List.map_filter (\<lambda>x. x) (closed_reports now (left_behind (known_jobs pool T) jobs) (fold (upsert_job pool now) jobs T)))"
  shows "\<exists>r'. map_of (runner_jobs (scanned pool now jobs T)) (rep_id rep) = Some r' \<and> jr_ended_ts r' \<noteq> None"
proof -
  from assms(2) consider (seen) j where "j \<in> set jobs" "completed j" "rep = report_of j"
    | (closed) i where "i \<in> set (left_behind (known_jobs pool T) jobs)" "rep_id rep = i"
    by (auto simp: finished_jobs_def List.map_filter_def closed_reports_def row_report_def)
  then show ?thesis
  proof cases
    case seen
    then show ?thesis using scanned_seen [of j jobs pool now T] by (auto simp: report_of_def)
  next
    case closed
    then show ?thesis using scanned_closed [OF assms(1)] by blast
  qed
qed

lemma finished_was_open:
  assumes "keyed_ok (runner_jobs T)"
    "rep \<in> set (finished_jobs (known_jobs pool T) jobs @
       List.map_filter (\<lambda>x. x) (closed_reports now (left_behind (known_jobs pool T) jobs) X))"
  shows "\<exists>r. map_of (runner_jobs T) (rep_id rep) = Some r \<and> jr_ended_ts r = None"
proof -
  from assms(2) consider (seen) j where "map_of (known_jobs pool T) (job_id j) = Some None" "rep = report_of j"
    | (closed) i where "(i, None) \<in> set (known_jobs pool T)" "rep_id rep = i"
    by (auto simp: finished_jobs_def List.map_filter_def closed_reports_def row_report_def left_behind_def)
  then show ?thesis
  proof cases
    case seen
    then show ?thesis using map_of_known [OF assms(1), of pool "job_id j"]
      by (auto simp: report_of_def split: option.splits if_splits)
  next
    case closed
    then obtain r where "(i, r) \<in> set (runner_jobs T)" "jr_ended_ts r = None" by (auto simp: known_jobs_def)
    then show ?thesis using assms(1) closed(2) by (auto simp: keyed_ok_def)
  qed
qed


definition running_job :: JobInfo where
  "running_job = done_job\<lparr>job_status := ''in_progress'', job_conclusion := []\<rparr>"


text \<open>A job recorded for one pool is reported as started by every scan of another pool that
  sees it, over and over: such a scan leaves the row with the first pool.\<close>

lemma other_pool_starts_again:
  assumes "healthy e" "store_ok s" "map_of (runner_jobs (live s)) (job_id j) = Some r" "jr_pool r \<noteq> pool" "j \<in> set jobs"
  shows "\<exists>started finished s' r'. sync_jobs e pool jobs s = (Inr (started, finished), s') \<and> report_of j \<in> set started \<and>
    store_ok s' \<and> map_of (runner_jobs (live s')) (job_id j) = Some r' \<and> jr_pool r' \<noteq> pool"
proof -
  have ok: "keyed_ok (runner_jobs (live s))" using assms(2) by (simp add: store_ok_def tables_ok_def)
  from gives_sync [OF assms(1) ok, of pool jobs] obtain now started finished s' where
    run: "sync_jobs e pool jobs s = (Inr (started, finished), s')" "started = started_jobs (known_jobs pool (live s)) jobs"
      "live s' = scanned pool now jobs (live s)" by (auto dest!: givesD)
  have "map_of (known_jobs pool (live s)) (job_id j) = None" using map_of_known [OF ok] assms(3,4) by simp
  then have "report_of j \<in> set started" using assms(5) run(2) by (auto simp: started_jobs_def)
  moreover have "store_ok s'" using preservesD [OF ok_jobs assms(2), of e pool jobs] run(1) by simp
  moreover obtain r' where "map_of (runner_jobs (live s')) (job_id j) = Some r'" "jr_pool r' \<noteq> pool"
    using scanned_row [OF assms(3), of pool now jobs] run(3) assms(4) by (auto simp: advances_def)
  ultimately show ?thesis using run(1) by blast
qed

lemma other_pool_starts_again_witness:
  "\<exists>started finished s' r'. sync_jobs demo_store_env ''gpu'' [done_job] ended_store = (Inr (started, finished), s') \<and>
    report_of done_job \<in> set started \<and> store_ok s' \<and> map_of (runner_jobs (live s')) (job_id done_job) = Some r' \<and> jr_pool r' \<noteq> ''gpu''"
proof (rule other_pool_starts_again [OF demo_healthy, where r = "new_job_row ''ci'' 50 done_job"])
  show "store_ok ended_store"
    using empty_tables_ok by (simp add: store_ok_def ended_store_def Let_def tables_ok_def keyed_ok_def)
qed (simp_all add: ended_store_def Let_def new_job_row_def done_job_def)

section \<open>A lost connection\<close>

text \<open>The server has gone away for the next statement, then everything runs.\<close>

definition drops_once :: "'w StoreEnv \<Rightarrow> 'w Store \<Rightarrow> bool" where
  "drops_once e s \<longleftrightarrow> is_mariadb (st_dsn s) \<and>
     (\<exists>c m w w1 w2 w3. statement_op e (st_world s) = (Inl (DatabaseError c m), w) \<and> c \<in> set DISCONNECT_CODES \<and>
        connect_op e (st_dsn s) w = (Inr (), w1) \<and> statement_op e w1 = (Inr (), w2) \<and> commit_op e w2 = (Inr (), w3))"

text \<open>C26. A connection MariaDB dropped while idle costs nothing: with no transaction open, a
  write that meets the dropped connection reconnects and is done and committed, exactly once.\<close>

theorem idle_disconnect_is_repaired:
  assumes "drops_once e s" "live s = durable s"
  shows "\<exists>s'. store_write e f s = (Inr (), s') \<and> live s' = f (durable s) \<and> durable s' = f (durable s)"
proof -
  from assms(1) obtain c m w w1 w2 w3 where d: "is_mariadb (st_dsn s)"
    "statement_op e (st_world s) = (Inl (DatabaseError c m), w)" "c \<in> set DISCONNECT_CODES"
    "connect_op e (st_dsn s) w = (Inr (), w1)" "statement_op e w1 = (Inr (), w2)" "commit_op e w2 = (Inr (), w3)"
    unfolding drops_once_def by blast
  have gone: "is_disconnect (DatabaseError c m)" using d(3) by (simp add: is_disconnect_def)
  show ?thesis using d gone
    by (simp add: store_write_def execute_def run_statement_def catch_def andThen_def on_db_def connect_def commit_def
        apply_statement_def change_def)
qed

text \<open>A server that closed the connection: world 0 is before, 1 the failure, then all is well.\<close>

definition dropping_env :: "nat StoreEnv" where
  "dropping_env = demo_store_env\<lparr>statement_op := (\<lambda>w. if w = 0 then (Inl (DatabaseError 2006 ''MySQL server has gone away''), 1) else (Inr (), w))\<rparr>"

definition maria_store :: "nat Store" where
  "maria_store = \<lparr>st_dsn = (sqlite_dsn [])\<lparr>driver := ''mariadb''\<rparr>, live = empty_tables, durable = empty_tables, st_world = 0\<rparr>"

theorem idle_disconnect_is_repaired_witness:
  "\<exists>s'. store_write dropping_env (\<lambda>t. t\<lparr>t_pool_state := dict_set ''ci'' (1, 0) (t_pool_state t)\<rparr>) maria_store = (Inr (), s') \<and>
     t_pool_state (durable s') = [(''ci'', (1, 0))]"
proof -
  let ?f = "\<lambda>t. t\<lparr>t_pool_state := dict_set ''ci'' (1, 0) (t_pool_state t)\<rparr>"
  have "drops_once dropping_env maria_store"
    by (simp add: drops_once_def maria_store_def dropping_env_def demo_store_env_def is_mariadb_def DISCONNECT_CODES_def)
  moreover have "live maria_store = durable maria_store" by (simp add: maria_store_def)
  ultimately obtain s' where "store_write dropping_env ?f maria_store = (Inr (), s')" "durable s' = ?f (durable maria_store)"
    using idle_disconnect_is_repaired [of dropping_env maria_store ?f] by blast
  then show ?thesis by (auto simp: maria_store_def empty_tables_def)
qed

section \<open>A swap that fails half-way\<close>

text \<open>Replacing a pool's runner status is not all or nothing: when a row cannot be written
  after the old rows were deleted, the call raises with the deletion still in the open
  transaction, and the next write of anything commits it.\<close>

lemma half_swap_is_committed:
  assumes "\<not> is_mariadb (st_dsn s)" "time_op e (st_world s) = (Inr now, wa)" "statement_op e wa = (Inr (), wb)"
    "statement_op e wb = (Inl err, wc)" "statement_op e wc = (Inr (), wd)" "commit_op e wd = (Inr (), we)"
  shows "\<exists>s' s''. replace_runner_status e pool (r # rs) s = (Inl err, s') \<and> durable s' = durable s \<and>
    store_write e f s' = (Inr (), s'') \<and> durable s'' = f (drop_status pool (live s))"
  using assms
  by (simp add: replace_runner_status_def store_now_def store_write_def execute_def run_statement_def catch_def andThen_def
      on_db_def apply_statement_def change_def commit_def)

text \<open>World 1 is before the failing statement; every statement moves on by one.\<close>

definition failing_env :: "nat StoreEnv" where
  "failing_env = demo_store_env\<lparr>time_op := ret 9,
     statement_op := (\<lambda>w. (if w = 1 then Inl (OSError ''disk I/O error'') else Inr (), Suc w))\<rparr>"

definition status_store :: "nat Store" where
  "status_store = (let t = empty_tables\<lparr>t_runner_status := [(''r1'', status_row ''ci'' 1 (''online'', True))]\<rparr>
     in demo_store\<lparr>live := t, durable := t, st_world := 0\<rparr>)"

lemma half_swap_is_committed_witness:
  "\<exists>s' s''. replace_runner_status failing_env ''ci'' [(''r1'', ''online'', False)] status_store = (Inl (OSError ''disk I/O error''), s') \<and>
    durable s' = durable status_store \<and> store_write failing_env (\<lambda>t. t) s' = (Inr (), s'') \<and> t_runner_status (durable s'') = []"
proof -
  have "\<not> is_mariadb (st_dsn status_store)" by code_simp
  then obtain s' s'' where
    "replace_runner_status failing_env ''ci'' [(''r1'', ''online'', False)] status_store = (Inl (OSError ''disk I/O error''), s')"
    "durable s' = durable status_store" "store_write failing_env (\<lambda>t. t) s' = (Inr (), s'')"
    "durable s'' = drop_status ''ci'' (live status_store)"
    using half_swap_is_committed [of status_store failing_env 9 0 1 "OSError ''disk I/O error''" 2 3 3 "''ci''" "(''r1'', ''online'', False)" "[]" "\<lambda>t. t"]
    by (auto simp: failing_env_def demo_store_env_def status_store_def Let_def)
  then show ?thesis by (auto simp: drop_status_def status_store_def Let_def status_row_def)
qed

section \<open>Opening the store\<close>

text \<open>Between two failed attempts the clock shows at least the two seconds slept.\<close>

definition clock_advances :: "'w StoreEnv \<Rightarrow> string \<Rightarrow> bool" where
  "clock_advances e url \<longleftrightarrow>
     (\<forall>w now w1 err w2 now' w3. store_mono_op e w = (Inr now, w1) \<longrightarrow> new_store e url w1 = (Inl err, w2) \<longrightarrow>
        store_mono_op e w2 = (Inr now', w3) \<longrightarrow> now \<le> now') \<and>
     (\<forall>w now w1 w2 err w3 now' w4. store_mono_op e w = (Inr now, w1) \<longrightarrow> store_sleep_op e 2 w1 = (Inr (), w2) \<longrightarrow>
        new_store e url w2 = (Inl err, w3) \<longrightarrow> store_mono_op e w3 = (Inr now', w4) \<longrightarrow> now + 2 \<le> now')"

lemma open_loop_more_fuel:
  assumes "clock_advances e url"
    "\<And>err w1 now w2. new_store e url w = (Inl err, w1) \<Longrightarrow> store_mono_op e w1 = (Inr now, w2) \<Longrightarrow> t \<le> now"
    "deadline - t \<le> 2 * (of_nat n - 1)" "0 < n"
  shows "open_loop e url deadline (n + k) w = open_loop e url deadline n w"
  using assms(2-)
proof (induction n arbitrary: w t)
  case 0
  then show ?case by simp
next
  case (Suc n)
  obtain q w1 where attempt: "new_store e url w = (q, w1)" by force
  show ?case
  proof (cases q)
    case (Inr s)
    with attempt show ?thesis by (simp add: catch_def)
  next
    case (Inl err)
    obtain z w2 where clk: "store_mono_op e w1 = (z, w2)" by force
    show ?thesis
    proof (cases "\<exists>now. z = Inr now \<and> now < deadline")
      case False
      with attempt Inl clk show ?thesis by (cases z) (auto simp: catch_def andThen_def)
    next
      case True
      then obtain now where now: "z = Inr now" "now < deadline" by blast
      have t: "t \<le> now" using Suc.prems(1) attempt Inl clk now(1) by blast
      obtain y w3 where slept: "store_sleep_op e 2 w2 = (y, w3)" by force
      show ?thesis
      proof (cases y)
        case (Inl x)
        with attempt \<open>q = Inl err\<close> clk now slept show ?thesis by (simp add: catch_def andThen_def)
      next
        case (Inr u)
        have "(0 :: rat) < of_nat n" using Suc.prems(2) t now(2) by simp
        then have n: "0 < n" by simp
        have "open_loop e url deadline (n + k) w3 = open_loop e url deadline n w3"
        proof (rule Suc.IH [where t = "now + 2"])
          show "now + 2 \<le> later" if "new_store e url w3 = (Inl err', v)" "store_mono_op e v = (Inr later, v')" for err' v later v'
            using assms(1) clk now(1) slept Inr that unfolding clock_advances_def by (metis (full_types) old.unit.exhaust)
          show "deadline - (now + 2) \<le> 2 * (of_nat n - 1)" using Suc.prems(2) t by simp
        qed (rule n)
        with attempt \<open>q = Inl err\<close> clk now slept Inr show ?thesis by (simp add: catch_def andThen_def)
      qed
    qed
  qed
qed

lemma fuel_frame_parts:
  "connect (e\<lparr>open_fuel := m\<rparr>) = connect e" "run_statement (e\<lparr>open_fuel := m\<rparr>) = run_statement e"
  "commit (e\<lparr>open_fuel := m\<rparr>) = commit e" "contents (e\<lparr>open_fuel := m\<rparr>) = contents e"
  "store_mono_op (e\<lparr>open_fuel := m\<rparr>) = store_mono_op e" "store_sleep_op (e\<lparr>open_fuel := m\<rparr>) = store_sleep_op e"
  by (simp_all add: connect_def run_statement_def [abs_def] commit_def)

lemma fuel_frame: "new_store (e\<lparr>open_fuel := m\<rparr>) = new_store e"
  unfolding new_store_def [abs_def] execute_def [abs_def] fuel_frame_parts ..

text \<open>C27. Opening the store ends and never raises: however the engine behaves, the result is a
  store or none, and as long as the clock advances by the time slept the number of attempts is
  bounded by half the waiting time plus two, so the answer does not depend on the model's bound.\<close>

theorem open_store_ends:
  assumes "clock_advances e url" "0 \<le> wait" "wait / 2 + 1 \<le> of_nat (open_fuel e)"
  shows "(\<exists>r. fst (open_store e url wait w) = Inr r) \<and>
    open_store (e\<lparr>open_fuel := open_fuel e + k\<rparr>) url wait w = open_store e url wait w"
proof -
  have frame: "open_loop (e\<lparr>open_fuel := m\<rparr>) url dl n = open_loop e url dl n" for m dl n
  proof (induction n)
    case 0
    show ?case by simp
  next
    case (Suc n)
    show ?case unfolding open_loop.simps(2) Suc fuel_frame fuel_frame_parts ..
  qed
  have fuel: "0 < open_fuel e" using assms(2,3) by (cases "open_fuel e") auto
  have loop: "open_loop e url (now + lim) (open_fuel e + k) v = open_loop e url (now + lim) (open_fuel e) v"
    if "store_mono_op e u = (Inr now, v)" "lim \<le> wait" for now lim u v
  proof (rule open_loop_more_fuel [OF assms(1), where t = now])
    show "now \<le> later" if "new_store e url v = (Inl err, v1)" "store_mono_op e v1 = (Inr later, v2)" for err v1 later v2
      using assms(1) \<open>store_mono_op e u = (Inr now, v)\<close> that unfolding clock_advances_def by blast
    show "now + lim - now \<le> 2 * (of_nat (open_fuel e) - 1)" using assms(3) that(2) by simp
  qed (rule fuel)
  have "try_open (e\<lparr>open_fuel := open_fuel e + k\<rparr>) url wait w = try_open e url wait w"
    using loop loop [where lim = 0] assms(2) unfolding try_open_def by (auto simp: frame andThen_def split: sum.splits prod.splits)
  then show ?thesis
    by (auto simp: open_store_def catch_def andThen_def split: prod.splits sum.splits)
qed

text \<open>A MariaDB server that never answers.\<close>

definition refusing_env :: "nat StoreEnv" where
  "refusing_env = demo_store_env\<lparr>connect_op := (\<lambda>_. raise_error (DatabaseError 2003 ''Connection refused''))\<rparr>"

theorem open_store_ends_witness:
  "fst (open_store (refusing_env\<lparr>open_fuel := 45\<rparr>) ''mysql://rorch:pw@db/rorch'' 60 0) = Inr None \<and>
   open_store (refusing_env\<lparr>open_fuel := 45\<rparr>) ''mysql://rorch:pw@db/rorch'' 60 0 = open_store refusing_env ''mysql://rorch:pw@db/rorch'' 60 0"
proof -
  let ?url = "''mysql://rorch:pw@db/rorch''"
  have "\<not> isl (parse_dsn ?url)" by code_simp
  then have ok: "\<exists>d. parse_dsn ?url = Inr d" by (cases "parse_dsn ?url") auto
  have fails: "new_store refusing_env ?url w = (Inl (DatabaseError 2003 ''Connection refused''), w)" for w
    using ok by (auto simp: new_store_def connect_def andThen_def on_db_def refusing_env_def)
  have "clock_advances refusing_env ?url"
    unfolding clock_advances_def fails by (auto simp: refusing_env_def demo_store_env_def)
  then have "open_store (refusing_env\<lparr>open_fuel := open_fuel refusing_env + 5\<rparr>) ?url 60 0 = open_store refusing_env ?url 60 0"
    by (rule conjunct2 [OF open_store_ends]) (simp_all add: refusing_env_def demo_store_env_def)
  moreover have "open_fuel refusing_env + 5 = 45" by (simp add: refusing_env_def demo_store_env_def)
  moreover have "fst (open_store refusing_env ?url 60 0) = Inr None" by code_simp
  ultimately show ?thesis by simp
qed

end
