(* ===== verification/DaemonFacts.thy ===== *)
theory DaemonFacts
  imports Startup Repositories TickFacts StoreFacts
begin

text \<open>
  Facts about the whole process: what holds in every state it reaches, that a turn of the main
  loop ends whatever the network and Docker do, and what a paused or a started daemon does.
\<close>

section \<open>The wired ports\<close>

lemma wired_repositories: "lists_distinct (ports o' stored)"
proof -
  have "\<exists>p s s'. list_repositories_op (forge_api (o_http o')) p s = (r, s')"
    if "on_daemon (on_clients (list_repositories_op (forge_api (o_http o')) q)) t = (r, t')" for q t r t'
    using that by (auto simp: on_daemon_def on_clients_def split: prod.splits)
  then have "yields (\<lambda>r. case r of None \<Rightarrow> True | Some names \<Rightarrow> distinct names)
      (on_daemon (on_clients (list_repositories_op (forge_api (o_http o')) q)))" for q
    by (rule forge_lists.passed_on)
  then show ?thesis by (simp add: lists_distinct_def ports_def api_port_def Let_def)
qed

text \<open>Threads can be started.\<close>

definition threads_start :: "'w Outside \<Rightarrow> bool" where
  "threads_start o' \<longleftrightarrow> (\<forall>w. \<exists>w'. submit_op (o_runtime o') w = (Inr (), w'))"

lemma wired_submits: "threads_start o' \<Longrightarrow> submits (ports o' stored)"
proof -
  assume t: "threads_start o'"
  have "\<exists>w'. on_daemon (on_outside (submit_op (o_runtime o'))) w = (Inr (), w')" for w
  proof -
    obtain v where "submit_op (o_runtime o') (sh_world (d_world w)) = (Inr (), v)" using t unfolding threads_start_def by blast
    then show ?thesis by (simp add: on_daemon_def on_outside_def)
  qed
  then show ?thesis by (simp add: submits_def ports_def runtime_port_def Let_def)
qed

section \<open>Jobs keep the scaler's books\<close>

lemma ok_on_shared [preserves_intros]: "preserves (scaler_ok r) (on_shared m)"
  unfolding on_shared_def by (intro preserves_intros)

lemma ok_on_docker [preserves_intros]: "preserves (scaler_ok r) (on_docker_client m)"
  unfolding on_docker_client_def by (intro preserves_intros)

lemma scaler_ok_fields [simp]:
  "scaler_ok r (s\<lparr>federation := f\<rparr>) = scaler_ok r s" "scaler_ok r (s\<lparr>world := w\<rparr>) = scaler_ok r s"
  "scaler_ok r (set_max_total_runners n s) = scaler_ok r s"
  by (simp_all add: scaler_ok_def reserves_def cache_ok_def set_max_total_runners_def)

lemma run_job_ok:
  assumes "threads_start o'"
  shows "preserves (scaler_ok 0) (run_job o' rt j)"
proof (cases j)
  case (PoolTick p st)
  then show ?thesis using tick_ok [OF wired_submits [OF assms] wired_repositories] by simp
next
  case (Cleanup c)
  have "preserves (scaler_ok 0) (cleanup o' c)" unfolding cleanup_def
    by (intro preserves_intros preserves_swallow)
  with Cleanup show ?thesis by simp
next
  case Housekeeping
  have "preserves (scaler_ok 0) (housekeeping o' rt)" unfolding housekeeping_def wall_time_def Let_def
    by (intro preserves_intros preserves_swallow)
  with Housekeeping show ?thesis by simp
qed

lemma refresh_ok: "preserves (scaler_ok r) (refresh_federation o' rt c)"
proof -
  have update: "preserves (scaler_ok r) (change_federation f)" for f
    unfolding change_federation_def by (intro preserves_intros) simp
  have one: "preserves (scaler_ok r) (refresh_one_peer o' tk peer)" for tk peer
    unfolding refresh_one_peer_def by (intro preserves_intros preserves_attempt update)
  show ?thesis unfolding refresh_federation_def federation_refresh_def global_free_def wall_time_def
    by (intro preserves_intros update one)
qed

section \<open>The process\<close>

text \<open>Every job a worker has or will have is the one its lane was given.\<close>

definition pool_job :: "string \<Rightarrow> job option \<Rightarrow> bool" where
  "pool_job lane j \<longleftrightarrow> (\<exists>p st. j = Some (PoolTick p st) \<and> pool_name p = lane)"

definition upkeep_job :: "string \<Rightarrow> job option \<Rightarrow> bool" where
  "upkeep_job lane j \<longleftrightarrow> lane = CLEANUP_LANE \<and> (\<exists>c. j = Some (Cleanup c)) \<or> lane = HOUSEKEEPING_LANE \<and> j = Some Housekeeping"

definition jobs_match :: "(string \<Rightarrow> job option \<Rightarrow> bool) \<Rightarrow> Lanes \<Rightarrow> (nat, job) dict \<Rightarrow> bool" where
  "jobs_match P l jobs \<longleftrightarrow> lanes_ok l \<and> (\<forall>t\<in>set (unfinished l). P (tk_lane t) (map_of jobs (tk_future t)))"

definition daemon_ok :: "'w Daemon \<Rightarrow> bool" where
  "daemon_ok s \<longleftrightarrow> scaler_ok 0 (dm_scaler s) \<and> jobs_match pool_job (dm_pool_lanes s) (dm_pool_jobs s) \<and>
     jobs_match upkeep_job (dm_maintenance s) (dm_maintenance_jobs s)"

lemma lanes_ok_future: "lanes_ok l \<Longrightarrow> t \<in> set (unfinished l) \<Longrightarrow> tk_future t < next_future l"
  by (auto simp: lanes_ok_def)

lemma jobs_match_fewer:
  assumes "jobs_match P l jobs" "lanes_ok l'" "set (unfinished l') \<subseteq> set (unfinished l)"
  shows "jobs_match P l' jobs"
  using assms by (auto simp: jobs_match_def)

lemma jobs_match_submit:
  assumes "jobs_match P l jobs" "lane_submit now lane l = (Inr reply, l')" "P lane (Some j)"
  shows "jobs_match P l' (if started reply then dict_set (next_future l) j jobs else jobs)"
proof (cases "lane_busy l lane \<or> stopped l")
  case True
  then have "l' = l \<and> \<not> started reply"
    using lane_submit_skips [of l lane now] lane_submit_stopped [of l lane now] assms(2) by (cases "lane_busy l lane") auto
  then show ?thesis using assms(1) by simp
next
  case False
  then have l': "l' = l\<lparr>waiting := waiting l @ [\<lparr>tk_future = next_future l, tk_lane = lane\<rparr>], next_future := Suc (next_future l),
      running := dict_set lane (next_future l, now) (running l)\<rparr>" "started reply"
    using lane_submit_starts [of l lane now] assms(2) by auto
  have ok: "lanes_ok l'" using lane_submit_ok [of l now lane] assms by (simp add: jobs_match_def)
  have old: "tk_future t \<noteq> next_future l" if "t \<in> set (unfinished l)" for t
    using lanes_ok_future [of l t] that assms(1) by (auto simp: jobs_match_def)
  have "P (tk_lane t) (map_of (dict_set (next_future l) j jobs) (tk_future t))" if "t \<in> set (unfinished l')" for t
  proof (cases "t \<in> set (unfinished l)")
    case True
    then show ?thesis using assms(1) old [OF True] by (simp add: jobs_match_def)
  next
    case False
    then have "t = \<lparr>tk_future = next_future l, tk_lane = lane\<rparr>" using that by (auto simp: l'(1) unfinished_def)
    then show ?thesis using assms(3) by simp
  qed
  then show ?thesis using ok l'(2) by (simp add: jobs_match_def)
qed

lemma submit_job_match:
  assumes "jobs_match P l jobs" "submit_job now lane j (l, jobs) = (r, l', jobs')" "P lane (Some j)"
  shows "jobs_match P l' jobs'"
proof -
  obtain q k where q: "lane_submit now lane l = (q, k)" by force
  show ?thesis
  proof (cases q)
    case (Inl err)
    then have "k = l" using lane_submit_skips [of l lane now] lane_submit_starts [of l lane now] lane_submit_stopped [of l lane now] q
      by (cases "lane_busy l lane"; cases "stopped l") auto
    then show ?thesis using assms(1,2) q Inl by (simp add: submit_job_def)
  next
    case (Inr reply)
    then have "l' = k" "jobs' = (if started reply then dict_set (next_future l) j jobs else jobs)"
      using assms(2) q by (simp_all add: submit_job_def)
    with jobs_match_submit [OF assms(1) _ assms(3), of now reply k] q Inr show ?thesis by simp
  qed
qed

lemma ok_on_scaler: "preserves (scaler_ok 0) m \<Longrightarrow> preserves daemon_ok (on_scaler m)"
  by (auto simp: preserves_def on_scaler_def daemon_ok_def split: prod.splits)

lemma mono_ok: "preserves daemon_ok (mono_time o')"
  unfolding mono_time_def by (intro ok_on_scaler preserves_intros)

lemma submit_pool_ok:
  assumes "pool_job lane (Some j)"
  shows "preserves daemon_ok (submit_pool_job o' lane j)"
  unfolding submit_pool_job_def
proof (rule preserves_andThen [OF mono_ok], rule preservesI)
  fix now and s :: "'a Daemon"
  assume s: "daemon_ok s"
  obtain r l jobs where run: "submit_job now lane j (dm_pool_lanes s, dm_pool_jobs s) = (r, l, jobs)" by (metis prod_cases3)
  have "jobs_match pool_job l jobs" using submit_job_match [OF _ run, of pool_job] assms s by (simp add: daemon_ok_def)
  then show "daemon_ok (snd (case submit_job now lane j (dm_pool_lanes s, dm_pool_jobs s) of
      (r, l, jobs) \<Rightarrow> (r, s\<lparr>dm_pool_lanes := l, dm_pool_jobs := jobs\<rparr>)))"
    using s unfolding run by (simp add: daemon_ok_def)
qed

lemma submit_maintenance_ok:
  assumes "upkeep_job lane (Some j)"
  shows "preserves daemon_ok (submit_maintenance o' lane j)"
  unfolding submit_maintenance_def
proof (rule preserves_andThen [OF mono_ok], rule preservesI)
  fix now and s :: "'a Daemon"
  assume s: "daemon_ok s"
  obtain r l jobs where run: "submit_job now lane j (dm_maintenance s, dm_maintenance_jobs s) = (r, l, jobs)" by (metis prod_cases3)
  have "jobs_match upkeep_job l jobs" using submit_job_match [OF _ run, of upkeep_job] assms s by (simp add: daemon_ok_def)
  then show "daemon_ok (snd (case submit_job now lane j (dm_maintenance s, dm_maintenance_jobs s) of
      (r, l, jobs) \<Rightarrow> (r, s\<lparr>dm_maintenance := l, dm_maintenance_jobs := jobs\<rparr>)))"
    using s unfolding run by (simp add: daemon_ok_def)
qed

lemma unfinished_forget: "unfinished (forget_except ls l) = unfinished l"
  by (simp add: forget_except_def unfinished_def)

lemma forget_ok: "jobs_match P l jobs \<Longrightarrow> jobs_match P (forget_except ls l) jobs"
  by (simp add: jobs_match_def forget_except_ok unfinished_forget)

lemma main_turn_ok: "preserves daemon_ok (main_turn o' rt)"
proof -
  have ticks: "preserves daemon_ok (submit_pool_ticks o' c)" for c
    unfolding submit_pool_ticks_def
    by (intro preserves_intros submit_pool_ok) (auto simp: pool_job_def daemon_ok_def forget_ok)
  have tick: "preserves daemon_ok (main_tick o' rt)" unfolding main_tick_def daemon_resolve_def
    by (intro preserves_intros ok_on_scaler preserves_swallow refresh_ok ticks submit_maintenance_ok)
      (auto simp: upkeep_job_def)
  show ?thesis unfolding main_turn_def
    by (intro preserves_intros tick submit_maintenance_ok) (auto simp: upkeep_job_def daemon_ok_def)
qed

lemma take_job_match:
  assumes "take_job l = Some l'" "jobs_match P l jobs"
  shows "jobs_match P l' jobs"
proof (rule jobs_match_fewer [OF assms(2)])
  show "lanes_ok l'" using worker_step_ok [OF worker_step.takes [OF assms(1)]] assms(2) by (simp add: jobs_match_def)
  show "set (unfinished l') \<subseteq> set (unfinished l)" using assms(1) unfolding take_job_Some by (auto simp: unfinished_def)
qed

lemma end_job_match:
  assumes "end_job t l = Some l'" "jobs_match P l jobs"
  shows "jobs_match P l' jobs"
proof (rule jobs_match_fewer [OF assms(2)])
  show "lanes_ok l'" using worker_step_ok [OF worker_step.ends [OF assms(1)]] assms(2) by (simp add: jobs_match_def)
  have "l' = l\<lparr>active := remove1 t (active l)\<rparr>" using assms(1) by (simp add: end_job_def split: if_splits)
  then show "set (unfinished l') \<subseteq> set (unfinished l)" using set_remove1_subset [of t "active l"] by (auto simp: unfinished_def)
qed

lemma shutdown_match: "jobs_match P l jobs \<Longrightarrow> jobs_match P (lane_shutdown l) jobs"
proof (rule jobs_match_fewer)
  show "jobs_match P l jobs \<Longrightarrow> lanes_ok (lane_shutdown l)" by (simp add: jobs_match_def lane_shutdown_ok)
qed (auto simp: lane_shutdown_def unfinished_def)

lemma finish_ok: "threads_start o' \<Longrightarrow> scaler_ok 0 b \<Longrightarrow> scaler_ok 0 (finish o' rt j b)"
  using preservesD [OF run_job_ok, of o' b] by (simp add: finish_def split: option.splits)

lemma daemon_step_ok:
  assumes "daemon_step o' rt s s'" "threads_start o'" "daemon_ok s"
  shows "daemon_ok s'"
  using assms(1)
proof (cases rule: daemon_step.cases)
  case (turns r)
  then show ?thesis using preservesD [OF main_turn_ok assms(3), of o' rt] by simp
qed (use assms in \<open>auto simp: daemon_ok_def shut_down_def finish_ok take_job_match end_job_match shutdown_match\<close>)

lemma daemon_steps_ok: "(daemon_step o' rt)\<^sup>*\<^sup>* s s' \<Longrightarrow> threads_start o' \<Longrightarrow> daemon_ok s \<Longrightarrow> daemon_ok s'"
  by (induction rule: rtranclp_induct) (blast intro: daemon_step_ok)+

lemma new_brain_ok: "scaler_ok r (new_brain cap reserve so fed w) = (r = 0)"
  by (auto simp: new_brain_def new_scaler_def scaler_ok_def reserves_def cache_ok_def MAX_REPOSITORY_CACHE_ENTRIES_def)

lemma built_ok: "yields (\<lambda>(rt, b). scaler_ok 0 b) (build_runtime o')"
  unfolding build_runtime_def Let_def by (intro yields_intros) (simp add: new_brain_ok)

lemma new_lanes_match: "jobs_match P (new_lanes n) jobs"
  using lanes_reach_ok [OF lanes_reach.init] by (simp add: jobs_match_def new_lanes_def unfinished_def)

lemma public_repo_pools_ok: "preserves (scaler_ok r) (public_repo_pools o' ps)"
  by (induction ps) (simp_all only: public_repo_pools.simps, (intro preserves_intros; assumption?)+)

lemma prepare_ok: "preserves (scaler_ok r) (prepare o' rt g txt)"
proof -
  have "preserves (scaler_ok r) (start_dashboard o' rt g txt)"
    unfolding start_dashboard_def Let_def by (intro preserves_intros)
  then show ?thesis unfolding prepare_def by (intro preserves_intros public_repo_pools_ok)
qed

lemma start_daemon_ok:
  assumes "start_daemon o' g txt w = (Inr (rt, ls, s), w')"
  shows "daemon_ok s"
proof -
  obtain b w1 b' where b: "build_runtime o' w = (Inr (rt, b), w1)" "prepare o' rt g txt b = (Inr ls, b')" "s = new_daemon rt b'"
    using assms by (auto simp: start_daemon_def andThen_def split: prod.splits sum.splits)
  have "scaler_ok 0 b" using yieldsD [OF built_ok b(1)] by simp
  then have "scaler_ok 0 b'" using preservesD [OF prepare_ok, of 0 b "o'" rt g "txt"] b(2) by simp
  then show ?thesis using b(3) by (simp add: daemon_ok_def new_daemon_def new_lanes_match)
qed

text \<open>C7. The daemon stays in order: in every state the process reaches from its start, whatever the main
  loop, the workers and the dashboard do in whatever order, and whatever GitHub, Docker and the
  database answer, no runner slot is held between ticks, the repository cache is bounded with no
  repository listed twice, and no two jobs in hand tick the same pool.\<close>

theorem daemon_in_order:
  assumes "threads_start o'" "start_daemon o' g txt w = (Inr (rt, ls, s0), w')" "(daemon_step o' rt)\<^sup>*\<^sup>* s0 s"
  shows "reserved_spawns (dm_scaler s) = 0 \<and> cache_ok (dm_scaler s) \<and>
    distinct (map (\<lambda>t. case map_of (dm_pool_jobs s) (tk_future t) of Some (PoolTick p _) \<Rightarrow> Some (pool_name p) | _ \<Rightarrow> None)
      (unfinished (dm_pool_lanes s)))"
proof -
  have ok: "daemon_ok s" by (rule daemon_steps_ok [OF assms(3,1) start_daemon_ok [OF assms(2)]])
  let ?name = "\<lambda>t. case map_of (dm_pool_jobs s) (tk_future t) of Some (PoolTick p _) \<Rightarrow> Some (pool_name p) | _ \<Rightarrow> None"
  have l: "lanes_ok (dm_pool_lanes s)" and name: "?name t = Some (tk_lane t)" if "t \<in> set (unfinished (dm_pool_lanes s))" for t
    using ok that by (auto simp: daemon_ok_def jobs_match_def pool_job_def)
  have names: "map ?name (unfinished (dm_pool_lanes s)) = map (\<lambda>t. Some (tk_lane t)) (unfinished (dm_pool_lanes s))"
    using name by (intro map_cong refl) blast
  have lanes: "lanes_ok (dm_pool_lanes s)" using ok by (simp add: daemon_ok_def jobs_match_def)
  then have "distinct (unfinished (dm_pool_lanes s))" by (simp add: lanes_ok_def distinct_map)
  moreover have "inj_on (\<lambda>t. Some (tk_lane t)) (set (unfinished (dm_pool_lanes s)))"
    using lanes_ok_one [OF lanes] by (auto simp: distinct_map inj_on_def)
  ultimately have "distinct (map (\<lambda>t. Some (tk_lane t)) (unfinished (dm_pool_lanes s)))" by (simp add: distinct_map)
  then have "distinct (map ?name (unfinished (dm_pool_lanes s)))" unfolding names .
  with ok show ?thesis unfolding daemon_ok_def scaler_ok_def reserves_def by blast
qed

section \<open>A daemon to try things on\<close>

text \<open>No \<open>config.yml\<close> and no database; GitHub answers with an empty object, Docker with nothing.\<close>

definition demo_world :: "nat Outside" where
  "demo_world =
     \<lparr>o_http = \<lparr>http_op = (\<lambda>_ _ _ _ w. (HttpOk 200 [] ''{}'', w)), wall_op = (\<lambda>w. (1000, w)), mono_op = (\<lambda>w. (1000, w)),
        sleep_op = (\<lambda>_ w. w), digest = (\<lambda>s. s), iso_epoch = (\<lambda>_. None), str_text = (\<lambda>_. []), page_fuel = 3\<rparr>,
      o_store = demo_store_env,
      o_docker = \<lparr>docker_op = (\<lambda>_. ret ([], [], 0)), docker_gid_op = ret 999, d_mono_op = ret 1000, fresh_uid_op = ret ''0a1b'',
        has_dockerfile_op = ret False, record_op = None, registration_token_op = None, release = ''1.2.3'',
        show_float = (\<lambda>_. []), volume_created = (\<lambda>_. None)\<rparr>,
      o_runtime = \<lparr>monotonic_op = ret 1000, wall_clock_op = ret 1000, submit_op = ret (), sha256_op = (\<lambda>s. s)\<rparr>,
      o_host = raise_error (OSError ''no /proc''), o_peer = (\<lambda>_ _. raise_error (OSError ''unreachable'')),
      o_file = None,
      o_env = map_of [(''GITHUB_PAT'', ''ghp_x''), (''GITHUB_OWNER'', ''acme''), (''RORCH_DB'', ''off''), (''POLL_INTERVAL'', ''900'')],
      o_app_dir = False, o_str = (\<lambda>_. [])\<rparr>"

theorem daemon_in_order_witness:
  "\<exists>rt ls s0 w'. start_daemon demo_world ''t'' (\<lambda>_. []) 0 = (Inr (rt, ls, s0), w') \<and>
     map tk_lane (unfinished (dm_pool_lanes (snd (main_turn demo_world rt s0)))) = [''default''] \<and>
     reserved_spawns (dm_scaler (snd (main_turn demo_world rt s0))) = 0"
proof -
  have run: "case fst (start_daemon demo_world ''t'' (\<lambda>_. []) 0) of Inl _ \<Rightarrow> False | Inr (rt, ls, s0) \<Rightarrow>
      map tk_lane (unfinished (dm_pool_lanes (snd (main_turn demo_world rt s0)))) = [''default'']" by code_simp
  then obtain rt ls s0 w' where s0: "start_daemon demo_world ''t'' (\<lambda>_. []) 0 = (Inr (rt, ls, s0), w')"
    by (cases "start_daemon demo_world ''t'' (\<lambda>_. []) 0") (auto split: sum.splits)
  have threads: "threads_start demo_world" by (simp add: threads_start_def demo_world_def)
  have "(daemon_step demo_world rt)\<^sup>*\<^sup>* s0 (snd (main_turn demo_world rt s0))"
    by (rule r_into_rtranclp, rule daemon_step.turns, rule surjective_pairing)
  from daemon_in_order [OF threads s0 this] run s0 show ?thesis by auto
qed

end
