(* ===== verification/ResolverFacts.thy ===== *)
theory ResolverFacts
  imports Resolver StoreFacts
begin

text \<open>
  Facts about the resolver: what an override may change of a pool and what it may not, where the
  pools of the effective configuration come from, and that without overrides the configuration
  is the one of \<open>config.yml\<close>.
\<close>

section \<open>Results\<close>

lemma or_else_Inr: "or_else x d = Inr y \<Longrightarrow> y = d \<or> x = Inr y"
  by (auto simp: or_else_def split: sum.splits py_error.splits)

lemma map_result_fst:
  "map_result (\<lambda>(k, v). bind_result (f k v) (\<lambda>w. Inr (k, w))) xs = Inr ys \<Longrightarrow> map fst ys = map fst xs"
  by (induction xs arbitrary: ys) (auto simp: bind_result_Inr_iff)

lemma coerce_keys: "coerce_pool_fields rp d = Inr fs \<Longrightarrow> map fst fs = map fst d"
  unfolding coerce_pool_fields_def by (rule map_result_fst)

section \<open>What a keyword changes\<close>

text \<open>The settings an override must leave alone.\<close>

definition same_identity :: "PoolConfig \<Rightarrow> PoolConfig \<Rightarrow> bool" where
  "same_identity p b \<longleftrightarrow>
     pool_name p = pool_name b \<and> pool_pat p = pool_pat b \<and> pool_owner p = pool_owner b \<and> pool_repo p = pool_repo b \<and>
     pool_scope p = pool_scope b \<and> pool_instance p = pool_instance b \<and> include_public_repos p = include_public_repos b \<and>
     job_started_hook p = job_started_hook b \<and> pool_provider p = pool_provider b \<and> base_url p = base_url b"

text \<open>The settings a pool made through the API has no say in.\<close>

definition same_origin :: "PoolConfig \<Rightarrow> PoolConfig \<Rightarrow> bool" where
  "same_origin p b \<longleftrightarrow>
     pool_name p = pool_name b \<and> pool_pat p = pool_pat b \<and> pool_instance p = pool_instance b \<and>
     include_public_repos p = include_public_repos b \<and> job_started_hook p = job_started_hook b \<and>
     pool_provider p = pool_provider b \<and> base_url p = base_url b"

lemma same_identity_refl [simp]: "same_identity p p"
  by (simp add: same_identity_def)

lemma same_identity_trans: "same_identity p q \<Longrightarrow> same_identity q r \<Longrightarrow> same_identity p r"
  by (simp add: same_identity_def)

lemma same_origin_refl [simp]: "same_origin p p"
  by (simp add: same_origin_def)

lemma same_origin_trans: "same_origin p q \<Longrightarrow> same_origin q r \<Longrightarrow> same_origin p r"
  by (simp add: same_origin_def)

lemma int_fields_identity: "(k, f) \<in> set int_fields \<Longrightarrow> same_identity (f n p) p"
  by (auto simp: int_fields_def same_identity_def)

lemma str_fields_identity: "(k, f) \<in> set str_fields \<Longrightarrow> k \<in> set TUNABLE_FIELDS \<Longrightarrow> same_identity (f s p) p"
  by (auto simp: str_fields_def same_identity_def TUNABLE_FIELDS_def)

lemma int_fields_origin: "(k, f) \<in> set int_fields \<Longrightarrow> same_origin (f n p) p"
  by (auto simp: int_fields_def same_origin_def)

lemma str_fields_origin: "(k, f) \<in> set str_fields \<Longrightarrow> k \<in> set (TUNABLE_FIELDS @ IDENTITY_FIELDS) \<Longrightarrow> same_origin (f s p) p"
  by (auto simp: str_fields_def same_origin_def TUNABLE_FIELDS_def IDENTITY_FIELDS_def)

text \<open>One rule for both: a relation every allowed keyword keeps is kept by all of them.\<close>

lemma set_field_keeps:
  assumes "set_field (k, v) p = Inr q" "k \<in> K" "\<And>n. R (p\<lparr>cpu_limit := n\<rparr>) p"
    "\<And>f n. (k, f) \<in> set int_fields \<Longrightarrow> R (f n p) p" "\<And>f s. (k, f) \<in> set str_fields \<Longrightarrow> k \<in> K \<Longrightarrow> R (f s p) p"
  shows "R q p"
  using assms by (auto simp: set_field_def split: pyval.splits option.splits if_splits dest!: map_of_SomeD)

lemma set_fields_keeps:
  assumes "\<And>k v p q. set_field (k, v) p = Inr q \<Longrightarrow> k \<in> K \<Longrightarrow> R q p" "\<And>p. R p p" "\<And>p q r. R p q \<Longrightarrow> R q r \<Longrightarrow> R p r"
  shows "set_fields fs p = Inr q \<Longrightarrow> fst ` set fs \<subseteq> K \<Longrightarrow> R q p"
proof (induction fs arbitrary: p)
  case Nil
  then show ?case using assms(2) by simp
next
  case (Cons kv fs)
  then obtain p' where p': "set_field kv p = Inr p'" "set_fields fs p' = Inr q" by (auto simp: bind_result_Inr_iff)
  have "R p' p" using assms(1) [of "fst kv" "snd kv" p p'] p'(1) Cons.prems(2) by simp
  moreover have "R q p'" using Cons.IH [OF p'(2)] Cons.prems(2) by simp
  ultimately show ?case using assms(3) by blast
qed

lemma set_fields_identity:
  "set_fields fs p = Inr q \<Longrightarrow> fst ` set fs \<subseteq> set TUNABLE_FIELDS \<Longrightarrow> same_identity q p"
proof (rule set_fields_keeps [of "set TUNABLE_FIELDS" same_identity fs p q])
  fix k v p q assume "set_field (k, v) p = Inr q" "k \<in> set TUNABLE_FIELDS"
  then show "same_identity q p"
    by (rule set_field_keeps) (erule int_fields_identity | erule (1) str_fields_identity | simp add: same_identity_def)+
qed (auto intro: same_identity_trans)

lemma set_fields_origin:
  "set_fields fs p = Inr q \<Longrightarrow> fst ` set fs \<subseteq> set (TUNABLE_FIELDS @ IDENTITY_FIELDS) \<Longrightarrow> same_origin q p"
proof (rule set_fields_keeps [of "set (TUNABLE_FIELDS @ IDENTITY_FIELDS)" same_origin fs p q])
  fix k v p q assume "set_field (k, v) p = Inr q" "k \<in> set (TUNABLE_FIELDS @ IDENTITY_FIELDS)"
  then show "same_origin q p"
    by (rule set_field_keeps) (erule int_fields_origin | erule (1) str_fields_origin | simp add: same_origin_def)+
qed (auto intro: same_origin_trans)

lemma apply_override_identity:
  assumes "apply_override r base data = Inr p"
  shows "same_identity p base"
proof -
  obtain fs where p: "(if tunables fs = [] then Inr base else or_else (set_fields (tunables fs) base) base) = Inr p"
    using assms unfolding apply_override_def bind_result_Inr_iff Let_def by blast
  then have "p = base \<or> set_fields (tunables fs) base = Inr p" by (auto split: if_splits dest: or_else_Inr)
  moreover have "fst ` set (tunables fs) \<subseteq> set TUNABLE_FIELDS" by (auto simp: tunables_def)
  ultimately show ?thesis using set_fields_identity by (metis same_identity_refl)
qed

text \<open>A pool made through the API: valid, with a token from the environment, and everything the
  API may not choose as \<open>PoolConfig\<close> sets it by default.\<close>

definition made_from_environment :: "Resolver \<Rightarrow> string \<Rightarrow> PoolConfig \<Rightarrow> bool" where
  "made_from_environment r name p \<longleftrightarrow>
     pool_name p = name \<and> pool_pat p \<noteq> [] \<and> (\<exists>k. environ r k = Some (pool_pat p)) \<and> pool_errors p = [] \<and>
     pool_provider p = ''github'' \<and> base_url p = [] \<and> job_started_hook p = [] \<and> \<not> include_public_repos p"

lemma build_ui_pool_made:
  assumes "build_ui_pool r name data = Inr (Some p)"
  shows "made_from_environment r name p"
proof -
  obtain d where d: "as_items data = Inr d" using assms by (auto simp: build_ui_pool_def bind_result_Inr_iff)
  let ?kept = "filter (\<lambda>(k, v). k \<in> set (TUNABLE_FIELDS @ IDENTITY_FIELDS)) d"
  have pat: "pat_of r d \<noteq> []" using assms d by (auto simp: build_ui_pool_def bind_result_Inr_iff Let_def)
  obtain fs made where fs: "coerce_pool_fields (str_rp r) ?kept = Inr fs"
    and made: "or_else (bind_result (new_pool_from name (pat_of r d) (dict_del ''name'' fs)) (\<lambda>p. Inr (Some p))) None = Inr made"
    and some: "(case made of None \<Rightarrow> None | Some p \<Rightarrow> if validation_errors [p] \<noteq> [] then None else Some p) = Some p"
    using assms d pat by (auto simp: build_ui_pool_def bind_result_Inr_iff Let_def)
  from some have p: "made = Some p" "pool_errors p = []" by (auto simp: validation_errors_def split: option.splits if_splits)
  from made p(1) have new: "new_pool_from name (pat_of r d) (dict_del ''name'' fs) = Inr p"
    by (auto dest!: or_else_Inr simp: bind_result_Inr_iff)
  then have set: "set_fields (dict_del ''name'' fs) (new_pool name (pat_of r d) []) = Inr p"
    by (auto simp: new_pool_from_def split: if_splits)
  have "fst ` set fs \<subseteq> set (TUNABLE_FIELDS @ IDENTITY_FIELDS)"
    using coerce_keys [OF fs] by (metis (mono_tags, lifting) case_prod_beta image_set image_subsetI list.set_map mem_Collect_eq set_filter)
  then have "fst ` set (dict_del ''name'' fs) \<subseteq> set (TUNABLE_FIELDS @ IDENTITY_FIELDS)"
    by (auto simp: keys_dict_del)
  from set_fields_origin [OF set this] have "same_origin p (new_pool name (pat_of r d) [])" .
  moreover have "\<exists>k. environ r k = Some (pat_of r d)" using pat by (auto simp: pat_of_def getenv_def split: option.splits)
  ultimately show ?thesis using pat p(2) by (auto simp: made_from_environment_def same_origin_def new_pool_def)
qed

section \<open>Where the pools come from\<close>

lemma overlay_bases_keys: "overlay_bases r bs ov = Inr (ps, rest) \<Longrightarrow> set rest \<subseteq> set ov"
proof (induction bs arbitrary: ov ps)
  case Nil
  then show ?case by simp
next
  case (Cons b bs)
  show ?case
  proof (cases "map_of ov (pool_name b)")
    case None
    then show ?thesis using Cons by (auto simp: bind_result_Inr_iff)
  next
    case (Some en)
    then obtain qs where "overlay_bases r bs (dict_del (pool_name b) ov) = Inr (qs, rest)"
      using Cons.prems by (auto simp: bind_result_Inr_iff Let_def split: if_splits)
    from Cons.IH [OF this] set_dict_del [of "pool_name b" ov] show ?thesis by blast
  qed
qed

lemma overlay_bases_identity:
  "overlay_bases r bs ov = Inr (ps, rest) \<Longrightarrow> p \<in> set ps \<Longrightarrow> \<exists>b\<in>set bs. same_identity p b"
proof (induction bs arbitrary: ov ps)
  case Nil
  then show ?case by simp
next
  case (Cons b bs)
  show ?case
  proof (cases "map_of ov (pool_name b)")
    case None
    then show ?thesis using Cons by (fastforce simp: bind_result_Inr_iff)
  next
    case (Some en)
    show ?thesis
    proof (cases "po_disabled en")
      case True
      then show ?thesis using Cons Some by (fastforce simp: Let_def)
    next
      case False
      then obtain q qs where q: "apply_override r b (po_data en) = Inr q" "ps = q # qs"
          "overlay_bases r bs (dict_del (pool_name b) ov) = Inr (qs, rest)"
        using Cons.prems(1) Some by (auto simp: bind_result_Inr_iff Let_def)
      show ?thesis using apply_override_identity [OF q(1)] Cons.IH [OF q(3)] Cons.prems(2) q(2) by auto
    qed
  qed
qed

lemma created_pools_made:
  "created_pools r ov = Inr ps \<Longrightarrow> p \<in> set ps \<Longrightarrow>
     \<exists>name en. (name, en) \<in> set ov \<and> po_origin en = ''ui'' \<and> \<not> po_disabled en \<and> made_from_environment r name p"
proof (induction r ov arbitrary: ps rule: created_pools.induct)
  case (1 r)
  then show ?case by simp
next
  case (2 r name en rest)
  show ?case
  proof (cases "po_origin en \<noteq> ''ui'' \<or> po_disabled en")
    case True
    then show ?thesis using 2 by auto
  next
    case False
    then obtain made qs where m: "build_ui_pool r name (po_data en) = Inr made" "created_pools r rest = Inr qs"
        "ps = (case made of None \<Rightarrow> [] | Some p \<Rightarrow> [p]) @ qs"
      using "2.prems"(1) by (auto simp: bind_result_Inr_iff)
    show ?thesis using "2.IH"(2) [OF False m(2)] "2.prems"(2) m(3) build_ui_pool_made [of r name "po_data en" p] m(1) False
      by (auto split: option.splits)
  qed
qed

lemma no_overrides_pools: "overlay r [] = Inr (base_pools r)"
proof -
  have "overlay_bases r bs [] = Inr (bs, [])" for bs by (induction bs) auto
  then show ?thesis by (simp add: overlay_def)
qed

section \<open>The configuration as a function of the tables\<close>

definition override_rows :: "Tables \<Rightarrow> (string, PoolOverride) dict" where
  "override_rows t = fold (\<lambda>(k, v). dict_set k v) (List.map_filter read_override (t_pool_overrides t)) []"

definition config_of :: "Resolver \<Rightarrow> Tables \<Rightarrow> EffectiveConfig result" where
  "config_of r t =
     (let globals = map (\<lambda>(k, v, _). (k, v)) (t_global_overrides t)
      in bind_result (overlay r (override_rows t)) (\<lambda>pools.
        Inr \<lparr>eff_pools = pools,
            eff_max_total_runners = config_int globals ''max_total_runners'' (base_max_total r),
            eff_max_runner_lifetime = config_int globals ''max_runner_lifetime'' (base_max_lifetime r),
            eff_paused = (dict_get globals ''paused'' ''0'' = ''1''),
            eff_states = map (\<lambda>(k, a, b). (k, \<lparr>st_paused = a \<noteq> 0, st_draining = b \<noteq> 0\<rparr>)) (t_pool_state t),
            eff_protected = set (map fst (protected t))\<rparr>))"

text \<open>\<open>reads m s r\<close>: \<open>m\<close> ends with \<open>r\<close> and changes no table.\<close>

definition reads :: "('w, 'a) db \<Rightarrow> 'w Store \<Rightarrow> 'a result \<Rightarrow> bool" where
  "reads m s r \<longleftrightarrow> (\<exists>w. m s = (r, s\<lparr>st_world := w\<rparr>))"

lemma reads_andThen:
  "reads m s (Inr x) \<Longrightarrow> (\<And>w. reads (f x) (s\<lparr>st_world := w\<rparr>) r) \<Longrightarrow> reads (andThen m f) s r"
  unfolding reads_def by (fastforce simp: andThen_def)

lemma reads_read: "healthy e \<Longrightarrow> live s = l \<Longrightarrow> reads (store_read e q) s (Inr (q l))"
proof -
  assume h: "healthy e" "live s = l"
  obtain r w where st: "statement_op e (st_world s) = (r, w)" by force
  then have "r = Inr ()" using h(1) by (metis healthy_def fst_conv)
  with st h(2) show ?thesis
    by (auto simp: reads_def store_read_def execute_def catch_def run_statement_def andThen_def on_db_def apply_statement_def)
qed

lemma reads_ret: "reads (ret x) s (Inr x)"
  unfolding reads_def by (auto intro!: exI [of _ "st_world s"])

lemma reads_lift: "x = Inl err \<Longrightarrow> reads (andThen (lift_result x) f) s (Inl err)"
  unfolding reads_def lift_result_def andThen_def by (auto intro!: exI [of _ "st_world s"])

lemma reads_lift_Inr: "x = Inr y \<Longrightarrow> reads (f y) s r \<Longrightarrow> reads (andThen (lift_result x) f) s r"
  unfolding reads_def lift_result_def andThen_def by auto

lemma resolve_store_reads:
  assumes h: "healthy e"
  shows "reads (resolve_store e r) s (config_of r (live s))"
proof -
  have ov: "reads (pool_overrides e) s (Inr (override_rows (live s)))" for s :: "'a Store"
    unfolding pool_overrides_def override_rows_def by (rule reads_andThen [OF reads_read [OF h refl] reads_ret])
  note rest = global_overrides_def pool_states_def protected_containers_def
  show ?thesis
  proof (cases "overlay r (override_rows (live s))")
    case (Inl err)
    show ?thesis unfolding resolve_store_def rest
      by (rule reads_andThen [OF ov], rule reads_andThen [OF reads_read [OF h refl]])
        (auto simp: config_of_def Let_def Inl intro!: reads_lift)
  next
    case (Inr pools)
    have "config_of r (live s) = Inr \<lparr>eff_pools = pools,
            eff_max_total_runners = config_int (map (\<lambda>(k, v, _). (k, v)) (t_global_overrides (live s))) ''max_total_runners'' (base_max_total r),
            eff_max_runner_lifetime = config_int (map (\<lambda>(k, v, _). (k, v)) (t_global_overrides (live s))) ''max_runner_lifetime'' (base_max_lifetime r),
            eff_paused = (dict_get (map (\<lambda>(k, v, _). (k, v)) (t_global_overrides (live s))) ''paused'' ''0'' = ''1''),
            eff_states = map (\<lambda>(k, a, b). (k, \<lparr>st_paused = a \<noteq> 0, st_draining = b \<noteq> 0\<rparr>)) (t_pool_state (live s)),
            eff_protected = set (map fst (protected (live s)))\<rparr>"
      by (simp add: config_of_def Let_def Inr)
    then show ?thesis unfolding resolve_store_def rest
      by (simp only:) (rule reads_andThen [OF ov] reads_andThen [OF reads_read [OF h]] reads_lift_Inr reads_ret refl
        | simp add: Inr)+
  qed
qed

section \<open>Properties\<close>

text \<open>Without a store, or with a store that holds no overrides, the effective configuration is
  the one of \<open>config.yml\<close>: the database can be deleted at any time.\<close>

lemma no_overrides_is_yaml:
  assumes "healthy e" "t_pool_overrides (live s) = []" "t_global_overrides (live s) = []" "t_pool_state (live s) = []"
    "protected (live s) = []"
  shows "resolve e r None = (Inr (base_config r), None) \<and>
    (\<exists>w. resolve e r (Some s) = (Inr (base_config r), Some (s\<lparr>st_world := w\<rparr>)))"
proof -
  have "config_of r (live s) = Inr (base_config r)" using assms
    by (simp add: config_of_def override_rows_def no_overrides_pools base_config_def config_int_def List.map_filter_def)
  with resolve_store_reads [OF assms(1), of r s] show ?thesis by (auto simp: resolve_def reads_def)
qed

definition demo_resolver :: Resolver where
  "demo_resolver =
     \<lparr>base_pools = [new_pool ''ci'' ''ghp_base'' ''acme''], base_max_total = 10, base_max_lifetime = 0,
      environ = (\<lambda>k. if k = ''GITHUB_PAT'' then Some ''ghp_env'' else None), str_rp = (\<lambda>_. ''?'')\<rparr>"

lemma no_overrides_is_yaml_witness:
  "resolve demo_store_env demo_resolver None = (Inr (base_config demo_resolver), None) \<and>
    (\<exists>w. resolve demo_store_env demo_resolver (Some demo_store) = (Inr (base_config demo_resolver), Some (demo_store\<lparr>st_world := w\<rparr>)))"
  by (rule no_overrides_is_yaml [OF demo_healthy]) (simp_all add: demo_store_def empty_tables_def)

text \<open>C6. Every pool of the effective configuration is accounted for: it is a pool of
  \<open>config.yml\<close> with its name, token, owner, repository, scope, server and hook untouched, whatever
  the override rows hold; or it was created through the API, and then it is valid, its token comes
  from the environment, and it talks to GitHub and mounts no hook.\<close>

theorem resolved_pools_accounted:
  assumes "healthy e" "resolve e r (Some s) = (Inr c, so)"
  shows "list_all (\<lambda>p. list_ex (same_identity p) (base_pools r) \<or>
      list_ex (\<lambda>(name, entry). po_origin entry = ''ui'' \<and> \<not> po_disabled entry \<and> made_from_environment r name p)
        (override_rows (live s))) (eff_pools c)"
proof -
  have "config_of r (live s) = Inr c" using resolve_store_reads [OF assms(1), of r s] assms(2)
    by (auto simp: resolve_def reads_def)
  then obtain ps rest qs where o: "overlay_bases r (base_pools r) (override_rows (live s)) = Inr (ps, rest)"
      "created_pools r rest = Inr qs" "eff_pools c = ps @ qs"
    by (auto simp: config_of_def overlay_def Let_def bind_result_Inr_iff)
  have "list_all (\<lambda>p. list_ex (same_identity p) (base_pools r)) ps"
    using overlay_bases_identity [OF o(1)] by (auto simp: list_all_iff list_ex_iff)
  moreover have "list_all (\<lambda>p. list_ex (\<lambda>(name, entry). po_origin entry = ''ui'' \<and> \<not> po_disabled entry \<and>
      made_from_environment r name p) (override_rows (live s))) qs"
    using created_pools_made [OF o(2)] overlay_bases_keys [OF o(1)] unfolding list_all_iff list_ex_iff by blast
  ultimately show ?thesis unfolding o(3) by (auto simp: list_all_iff)
qed

definition overridden_store :: "nat Store" where
  "overridden_store = demo_store\<lparr>live := empty_tables\<lparr>t_pool_overrides :=
     [(''ci'', \<lparr>ov_data = ''{\"max_runners\": \"7\", \"repo\": \"other\"}'', ov_origin = ''yaml'', ov_disabled = 0, ov_updated_at = 0\<rparr>),
      (''web'', \<lparr>ov_data = ''{\"owner\": \"acme\", \"base_url\": \"https://x\"}'', ov_origin = ''ui'', ov_disabled = 0, ov_updated_at = 0\<rparr>)]\<rparr>\<rparr>"

lemma overridden_pools:
  "map_result (\<lambda>c. Inr (eff_pools c)) [projr (config_of demo_resolver (live overridden_store))] =
     Inr [[(new_pool ''ci'' ''ghp_base'' ''acme'')\<lparr>max_runners := 7\<rparr>, new_pool ''web'' ''ghp_env'' ''acme'']] \<and>
   \<not> isl (config_of demo_resolver (live overridden_store))"
  by code_simp

theorem resolved_pools_accounted_witness:
  "\<exists>c so. resolve demo_store_env demo_resolver (Some overridden_store) = (Inr c, so) \<and>
     eff_pools c = [(new_pool ''ci'' ''ghp_base'' ''acme'')\<lparr>max_runners := 7\<rparr>, new_pool ''web'' ''ghp_env'' ''acme''] \<and>
     list_all (\<lambda>p. list_ex (same_identity p) (base_pools demo_resolver) \<or>
      list_ex (\<lambda>(name, entry). po_origin entry = ''ui'' \<and> \<not> po_disabled entry \<and> made_from_environment demo_resolver name p)
        (override_rows (live overridden_store))) (eff_pools c)"
proof -
  obtain c where c: "config_of demo_resolver (live overridden_store) = Inr c"
      "eff_pools c = [(new_pool ''ci'' ''ghp_base'' ''acme'')\<lparr>max_runners := 7\<rparr>, new_pool ''web'' ''ghp_env'' ''acme'']"
    using overridden_pools by (cases "config_of demo_resolver (live overridden_store)") auto
  then obtain so where so: "resolve demo_store_env demo_resolver (Some overridden_store) = (Inr c, so)"
    using resolve_store_reads [OF demo_healthy, of demo_resolver overridden_store] by (auto simp: resolve_def reads_def)
  show ?thesis using so c(2) resolved_pools_accounted [OF demo_healthy so] by blast
qed

end
