(* ===== verification/DockerFacts.thy ===== *)
theory DockerFacts
  imports DockerClient
begin

text \<open>
  What the container manager does to the host: which commands it sends. A recording
  environment keeps the commands sent to the daemon in front of the daemon's own world, so
  that a property speaks of the commands of a whole operation, for any daemon.
\<close>

section \<open>Recording the commands\<close>

definition on_second :: "('w, 'a) eff \<Rightarrow> ('l \<times> 'w, 'a) eff" where
  "on_second m lw = (case m (snd lw) of (r, w) \<Rightarrow> (r, (fst lw, w)))"

definition logged_op :: "(string list \<Rightarrow> ('w, 'a) eff) \<Rightarrow> string list \<Rightarrow> (string list list \<times> 'w, 'a) eff" where
  "logged_op f args lw = (case f args (snd lw) of (r, w) \<Rightarrow> (r, (fst lw @ [args], w)))"

definition recording :: "'w DockerEnv \<Rightarrow> (string list list \<times> 'w) DockerEnv" where
  "recording e =
     \<lparr>docker_op = logged_op (docker_op e), docker_gid_op = on_second (docker_gid_op e),
      d_mono_op = on_second (d_mono_op e), fresh_uid_op = on_second (fresh_uid_op e),
      has_dockerfile_op = on_second (has_dockerfile_op e),
      record_op = map_option (\<lambda>f a b c d. on_second (f a b c d)) (record_op e),
      registration_token_op = map_option (\<lambda>f p. on_second (f p)) (registration_token_op e),
      release = release e, show_float = show_float e, volume_created = volume_created e\<rparr>"

definition commands :: "(string list list \<times> 'w) DockerClient \<Rightarrow> string list list" where
  "commands s = fst (d_world s)"

text \<open>\<open>only P\<close>: every command sent so far satisfies \<open>P\<close>.\<close>

definition only :: "(string list \<Rightarrow> bool) \<Rightarrow> (string list list \<times> 'w) DockerClient \<Rightarrow> bool" where
  "only P s \<longleftrightarrow> list_all P (commands s)"

named_theorems only_intros "operations send only allowed commands"

lemma only_on_second [only_intros]: "preserves (only P) (on_daemon (on_second m))"
  by (auto simp: preserves_def only_def commands_def on_daemon_def on_second_def split: prod.splits)

lemma only_logged: "P args \<Longrightarrow> preserves (only P) (on_daemon (docker_op (recording e) args))"
  by (auto simp: preserves_def only_def commands_def on_daemon_def recording_def logged_op_def split: prod.splits)

lemma recording_ops [simp]:
  "docker_gid_op (recording e) = on_second (docker_gid_op e)"
  "d_mono_op (recording e) = on_second (d_mono_op e)"
  "fresh_uid_op (recording e) = on_second (fresh_uid_op e)"
  "has_dockerfile_op (recording e) = on_second (has_dockerfile_op e)"
  "record_op (recording e) = map_option (\<lambda>f a b c d. on_second (f a b c d)) (record_op e)"
  "registration_token_op (recording e) = map_option (\<lambda>f p. on_second (f p)) (registration_token_op e)"
  "release (recording e) = release e" "show_float (recording e) = show_float e"
  "volume_created (recording e) = volume_created e"
  by (simp_all add: recording_def)

lemma preserves_case_prod: "(\<And>a b. x = (a, b) \<Longrightarrow> preserves I (f a b)) \<Longrightarrow> preserves I (case x of (a, b) \<Rightarrow> f a b)"
  by (cases x) simp

lemma preserves_fun_prod: "(\<And>a b. preserves I (f a b)) \<Longrightarrow> preserves I ((\<lambda>(a, b). f a b) x)"
  by (cases x) simp

lemma only_capture [only_intros]: "P args \<Longrightarrow> preserves (only P) (docker_capture (recording e) args)"
  unfolding docker_capture_def
  by (intro preserves_andThen only_logged preserves_case_prod) (auto intro: preserves_ret)

lemma only_exec [only_intros]: "P args \<Longrightarrow> preserves (only P) (docker_exec (recording e) args)"
  unfolding docker_exec_def
  by (intro preserves_andThen only_logged preserves_case_prod) (auto intro: preserves_ret)

lemma only_record [only_intros]: "preserves (only P) (docker_record (recording e) ev c p r)"
  unfolding docker_record_def
  by (cases "record_op e") (auto intro!: preserves_ret preserves_swallow only_on_second)

lemma run_parallel_only:
  "(\<And>x. x \<in> set xs \<Longrightarrow> preserves I (f x)) \<Longrightarrow> preserves I (run_parallel f xs)"
  unfolding run_parallel_def
proof (induction xs)
  case Nil
  then show ?case by (simp add: preserves_def)
next
  case (Cons x xs)
  have "preserves I (andThen (swallow (f x)) (\<lambda>_. each (\<lambda>x. swallow (f x)) xs))"
    using Cons by (intro preserves_andThen preserves_swallow) simp_all
  then show ?case by (simp add: preserves_def)
qed

section \<open>The stuck reaper\<close>

definition ps_ci :: "string list" where
  "ps_ci = [''ps'', ''-a'', ''--format'',
     ''{{.Names}}'' @ [tab] @ ''{{.CreatedAt}}'' @ [tab] @ ''{{.Networks}}'' @ [tab] @ ''{{.Labels}}'']"

definition top_of :: "string \<Rightarrow> string list" where
  "top_of name = [''top'', name]"

text \<open>\<open>docker top\<close> never answers that the container is idle: a job runs in it, or it cannot be inspected.\<close>

definition never_idle :: "'w DockerEnv \<Rightarrow> string \<Rightarrow> bool" where
  "never_idle e name \<longleftrightarrow>
     (\<forall>w out err code w'. docker_op e (top_of name) w = (Inr (out, err, code), w') \<longrightarrow> code \<noteq> 0 \<or> running_job_of (strip out))"

lemma never_idle_probe:
  "never_idle e name \<Longrightarrow> yields (\<lambda>busy. busy \<noteq> Some False) (has_running_job (recording e) name)"
  unfolding has_running_job_def docker_capture_def yields_def
  by (auto simp: andThen_def on_daemon_def recording_def logged_op_def never_idle_def top_of_def
      split: prod.splits sum.splits if_splits)

lemma select_stuck_names:
  "yields (\<lambda>ns. set ns \<subseteq> {n. n \<notin> online \<and> (\<exists>age. [n, age] \<in> set rows \<and> aged_at_least limit age) \<and> \<not> never_idle e n})
     (select_stuck (recording e) online limit rows)"
proof (induction rows)
  case Nil
  show ?case by (simp add: yields_def)
next
  case (Cons row rows)
  let ?good = "\<lambda>rs ns. set ns \<subseteq> {n. n \<notin> online \<and> (\<exists>age. [n, age] \<in> set rs \<and> aged_at_least limit age) \<and> \<not> never_idle e n}"
  have skip: "yields (?good (row # rows)) (select_stuck (recording e) online limit rows)"
    using Cons.IH unfolding yields_def by fastforce
  show ?case
  proof (cases "\<exists>n age. row = [n, age] \<and> \<not> (n \<in> online \<or> \<not> aged_at_least limit age)")
    case False
    then show ?thesis using skip by (auto split: list.splits)
  next
    case True
    then obtain n age where row: "row = [n, age]" "n \<notin> online" "aged_at_least limit age" by blast
    have "yields (\<lambda>busy. busy = Some False \<longrightarrow> \<not> never_idle e n) (has_running_job (recording e) n)"
      using never_idle_probe [of e n] unfolding yields_def by blast
    then have "yields (?good (row # rows)) (andThen (has_running_job (recording e) n) (\<lambda>busy.
        andThen (select_stuck (recording e) online limit rows) (\<lambda>rest. ret (if busy = Some False then n # rest else rest))))"
    proof (rule yields_andThen_dep)
      fix busy assume busy: "busy = Some False \<longrightarrow> \<not> never_idle e n"
      show "yields (?good (row # rows)) (andThen (select_stuck (recording e) online limit rows)
          (\<lambda>rest. ret (if busy = Some False then n # rest else rest)))"
        by (rule yields_andThen_dep [OF skip]) (use busy row in \<open>auto intro!: yields_ret\<close>)
    qed
    then show ?thesis using row by simp
  qed
qed

lemma only_select_stuck:
  "(\<And>n age. [n, age] \<in> set rows \<Longrightarrow> n \<notin> online \<Longrightarrow> P (top_of n)) \<Longrightarrow>
   preserves (only P) (select_stuck (recording e) online limit rows)"
proof (induction rows)
  case Nil
  show ?case by (simp add: preserves_def)
next
  case (Cons row rows)
  have IH: "preserves (only P) (select_stuck (recording e) online limit rows)"
    by (rule Cons.IH) (use Cons.prems in auto)
  have probe: "preserves (only P) (has_running_job (recording e) n)" if "row = [n, age]" "n \<notin> online" for n age
    unfolding has_running_job_def using Cons.prems [of n age] that
    by (intro preserves_andThen only_capture preserves_case_prod) (auto simp: top_of_def intro: preserves_ret)
  show ?case
    using IH probe by (auto split: list.splits intro!: preserves_intros)
qed

lemma only_kill: "P (rm_force n) \<Longrightarrow> preserves (only P) (kill_container (recording e) ev reason n)"
  unfolding kill_container_def by (intro preserves_andThen only_capture only_record)

lemma commands_capture:
  "docker_capture (recording e) args s = (r, s') \<Longrightarrow>
   commands s' = commands s @ [args] \<and> r = (case fst (docker_op e args (snd (d_world s))) of
     Inl err \<Rightarrow> Inl err | Inr (out, err, code) \<Rightarrow> Inr (strip out, code))"
  unfolding docker_capture_def
  by (auto simp: andThen_def on_daemon_def recording_def logged_op_def commands_def
      split: prod.splits sum.splits)

lemma only_cleanup_stuck:
  assumes "P (ps_running_for pfx)" "\<And>n. n \<notin> online \<Longrightarrow> P (top_of n)"
    "\<And>n. n \<notin> online \<Longrightarrow> \<not> never_idle e n \<Longrightarrow> P (rm_force n)"
  shows "preserves (only P) (cleanup_stuck (recording e) pfx online limit)"
  unfolding cleanup_stuck_def
proof (rule preserves_andThen [OF only_capture [of P, OF assms(1)]], rule preserves_case_prod, rule preserves_if [OF preserves_ret])
  fix out code
  show "preserves (only P) (andThen (select_stuck (recording e) online limit (map columns (lines_of out)))
      (run_parallel (kill_container (recording e) EVENT_STUCK_KILL (''never came online within '' @ show_int limit @ ''m''))))"
    by (rule preserves_andThen_yields [OF only_select_stuck select_stuck_names])
      (use assms(2,3) in \<open>auto intro!: run_parallel_only only_kill\<close>)
qed

text \<open>C14. The stuck reaper never removes a container GitHub lists as online, one whose
  \<open>docker top\<close> shows a job, or one Docker cannot inspect, whatever its age; and it sends
  nothing but the listing, the probes of containers that are not online and their removal.\<close>

theorem stuck_reaper_spares:
  assumes "commands s = []" "name \<in> online \<or> never_idle e name"
  shows "rm_force name \<notin> set (commands (snd (cleanup_stuck (recording e) pfx online limit s))) \<and>
    (\<forall>c\<in>set (commands (snd (cleanup_stuck (recording e) pfx online limit s))).
       c = ps_running_for pfx \<or> (\<exists>n. n \<notin> online \<and> (c = top_of n \<or> c = rm_force n)))"
proof -
  let ?P = "\<lambda>c. c \<noteq> rm_force name \<and> (c = ps_running_for pfx \<or> (\<exists>n. n \<notin> online \<and> (c = top_of n \<or> c = rm_force n)))"
  have "preserves (only ?P) (cleanup_stuck (recording e) pfx online limit)"
    by (rule only_cleanup_stuck) (use assms(2) in \<open>auto simp: ps_running_for_def rm_force_def top_of_def\<close>)
  from preservesD [OF this, of s] show ?thesis using assms(1) by (auto simp: only_def list_all_iff)
qed

text \<open>A daemon with one container that runs a job and one that is idle.\<close>

definition demo_daemon :: "string list \<Rightarrow> (unit, string \<times> string \<times> int) eff" where
  "demo_daemon args =
     (if hd args = ''ps'' then ret (''gh-runner-ci-a'' @ [tab] @ ''20 minutes'' @ [newline] @ ''gh-runner-ci-b'' @ [tab] @ ''3 hours'', [], 0)
      else if args = top_of ''gh-runner-ci-a'' then ret (''1 Runner.Listener'' @ [newline] @ ''9 Runner.Worker'', [], 0)
      else if hd args = ''top'' then ret (''1 Runner.Listener'', [], 0)
      else ret ([], [], 0))"

definition demo_docker_env :: "unit DockerEnv" where
  "demo_docker_env =
     \<lparr>docker_op = demo_daemon, docker_gid_op = ret 999, d_mono_op = ret 50, fresh_uid_op = ret ''0badcafe'',
      has_dockerfile_op = ret False, record_op = None, registration_token_op = None,
      release = ''1.2.3'', show_float = (\<lambda>_. ''1.5''), volume_created = (\<lambda>_. None)\<rparr>"

definition fresh_docker :: "'w \<Rightarrow> (string list list \<times> 'w) DockerClient" where
  "fresh_docker w = \<lparr>build_retry_at = [], d_world = ([], w)\<rparr>"

theorem stuck_reaper_spares_witness:
  "rm_force ''gh-runner-ci-a'' \<notin> set (commands (snd (cleanup_stuck (recording demo_docker_env) ''gh-runner-ci'' {} 8 (fresh_docker ())))) \<and>
   rm_force ''gh-runner-ci-b'' \<in> set (commands (snd (cleanup_stuck (recording demo_docker_env) ''gh-runner-ci'' {} 8 (fresh_docker ()))))"
proof -
  have top: "demo_daemon (top_of ''gh-runner-ci-a'') = ret (''1 Runner.Listener'' @ [newline] @ ''9 Runner.Worker'', [], 0)"
    by code_simp
  have busy: "running_job_of (strip (''1 Runner.Listener'' @ [newline] @ ''9 Runner.Worker''))" by code_simp
  have "never_idle demo_docker_env ''gh-runner-ci-a''"
    unfolding never_idle_def demo_docker_env_def by (simp add: top busy del: append_Cons)
  moreover have "commands (fresh_docker ()) = []" by (simp add: commands_def fresh_docker_def)
  ultimately have "rm_force ''gh-runner-ci-a'' \<notin> set (commands (snd (cleanup_stuck (recording demo_docker_env) ''gh-runner-ci'' {} 8 (fresh_docker ()))))"
    using stuck_reaper_spares [of "fresh_docker ()" "''gh-runner-ci-a''" "{}" demo_docker_env "''gh-runner-ci''" 8] by blast
  moreover have "rm_force ''gh-runner-ci-b'' \<in> set (commands (snd (cleanup_stuck (recording demo_docker_env) ''gh-runner-ci'' {} 8 (fresh_docker ()))))"
    by code_simp
  ultimately show ?thesis ..
qed

section \<open>Leftovers of CI jobs\<close>

lemma map_filterD:
  assumes "x \<in> set (List.map_filter f xs)"
  obtains y where "y \<in> set xs" "f y = Some x"
  using assms by (auto simp: List.map_filter_def)

lemma leftover_rows:
  assumes "n \<in> set (leftover_names limit patterns now out)"
  shows "\<exists>created nets labels t. [n, created, nets, labels] \<in> set (map columns (lines_of out)) \<and>
    is_ci_container n nets labels patterns \<and> parse_created_at created = Some t \<and> of_int limit \<le> (now - of_int t) / 60"
proof -
  from assms obtain row where row: "row \<in> set (map columns (lines_of out))"
    "(case row of [name, created_at, networks, labels] \<Rightarrow>
        (if is_ci_container name networks labels patterns
         then (case parse_created_at created_at of None \<Rightarrow> None
               | Some t \<Rightarrow> if (now - of_int t) / 60 < of_int limit then None else Some name) else None)
      | _ \<Rightarrow> None) = Some n"
    unfolding leftover_names_def by (rule map_filterD)
  from row(2) obtain created nets labels t where "row = [n, created, nets, labels]" "is_ci_container n nets labels patterns"
    "parse_created_at created = Some t" "\<not> (now - of_int t) / 60 < of_int limit"
    by (auto simp del: divide_less_eq_numeral1 split: list.splits if_splits option.splits)
  with row(1) show ?thesis by (metis not_less)
qed

lemma ci_container_unprotected:
  "is_ci_container n nets labels patterns \<Longrightarrow> \<not> starts_with n ''gh-runner-'' \<and> \<not> starts_with n ''rorch-''"
  by (auto simp: is_ci_container_def PROTECTED_CONTAINER_PREFIXES_def split: if_splits)

lemma cleanup_ci_commands:
  assumes "docker_op e ps_ci (snd (d_world s)) = (Inr (out, err, code), w)"
  shows "\<forall>c\<in>set (commands (snd (cleanup_ci_containers (recording e) limit patterns now s))).
    c \<in> set (commands s) \<or> c = ps_ci \<or> (\<exists>n\<in>set (leftover_names limit patterns now (strip out)). c = rm_force n)"
proof (cases "limit \<le> 0")
  case True
  then show ?thesis by (simp add: cleanup_ci_containers_def)
next
  case False
  let ?P = "\<lambda>c. c \<in> set (commands s) \<or> c = ps_ci \<or> (\<exists>n\<in>set (leftover_names limit patterns now (strip out)). c = rm_force n)"
  let ?rm = "\<lambda>name. andThen (docker_capture (recording e) (rm_force name)) (\<lambda>_. ret ())"
  obtain r t where step: "docker_capture (recording e) ps_ci s = (r, t)" by force
  from commands_capture [OF step] assms have r: "r = Inr (strip out, code)" and t: "commands t = commands s @ [ps_ci]"
    by auto
  have names: "set (if strip out = [] then [] else leftover_names limit patterns now (strip out))
      \<subseteq> set (leftover_names limit patterns now (strip out))" by simp
  have "preserves (only ?P) (run_parallel ?rm (if strip out = [] then [] else leftover_names limit patterns now (strip out)))"
    by (intro run_parallel_only preserves_andThen only_capture preserves_ret) (use names in blast)
  moreover have "only ?P t" using t by (simp add: only_def list_all_iff)
  ultimately have "only ?P (snd (run_parallel ?rm (if strip out = [] then [] else leftover_names limit patterns now (strip out)) t))"
    by (rule preservesD)
  moreover have "cleanup_ci_containers (recording e) limit patterns now s =
      run_parallel ?rm (if strip out = [] then [] else leftover_names limit patterns now (strip out)) t"
    using False step r unfolding cleanup_ci_containers_def ps_ci_def by simp
  ultimately show ?thesis by (simp add: only_def list_all_iff)
qed

text \<open>C16. Clearing the leftovers of CI jobs never touches the runners or rorch's own stack,
  whatever patterns are configured: every container it removes is in the listing, is outside
  the protected prefixes, qualifies as a job's container, and is at least the limit old by a
  creation time that could be read.\<close>

theorem ci_cleanup_spares_infrastructure:
  assumes "docker_op e ps_ci (snd (d_world s)) = (Inr (out, err, code), w)" "commands s = []"
    "c \<in> set (commands (snd (cleanup_ci_containers (recording e) limit patterns now s)))"
  shows "c = ps_ci \<or> (\<exists>n created nets labels t. c = rm_force n \<and>
    [n, created, nets, labels] \<in> set (map columns (lines_of (strip out))) \<and>
    \<not> starts_with n ''gh-runner-'' \<and> \<not> starts_with n ''rorch-'' \<and> is_ci_container n nets labels patterns \<and>
    parse_created_at created = Some t \<and> of_int limit \<le> (now - of_int t) / 60)"
proof (cases "c = ps_ci")
  case True
  then show ?thesis ..
next
  case False
  with cleanup_ci_commands [OF assms(1), of limit patterns now] assms(2,3)
  obtain n where n: "n \<in> set (leftover_names limit patterns now (strip out))" "c = rm_force n" by auto
  from leftover_rows [OF n(1)] obtain created nets labels t where
    "[n, created, nets, labels] \<in> set (map columns (lines_of (strip out)))" "is_ci_container n nets labels patterns"
    "parse_created_at created = Some t" "of_int limit \<le> (now - of_int t) / 60" by blast
  with ci_container_unprotected n(2) show ?thesis by blast
qed

definition ci_listing :: string where
  "ci_listing = ''rorch-db'' @ [tab] @ ''2026-01-01 00:00:00 +0000 UTC'' @ [tab] @ ''github_network_1'' @ [tab] @ ''a=b'' @ [newline] @
     ''pg'' @ [tab] @ ''2026-01-01 00:00:00 +0000 UTC'' @ [tab] @ ''github_network_1'' @ [tab] @ ''a=b'' @ [newline] @
     ''young'' @ [tab] @ ''2026-01-01 11:00:00 +0000 UTC'' @ [tab] @ ''github_network_1'' @ [tab] @ ''a=b''"

definition ci_daemon :: "unit DockerEnv" where
  "ci_daemon = demo_docker_env\<lparr>docker_op := (\<lambda>_. ret (ci_listing, [], 0))\<rparr>"

theorem ci_cleanup_spares_infrastructure_witness:
  "commands (snd (cleanup_ci_containers (recording ci_daemon) 360 [''*''] 1767268800 (fresh_docker ()))) = [ps_ci, rm_force ''pg''] \<and>
   \<not> starts_with ''pg'' ''rorch-''"
proof -
  have run: "commands (snd (cleanup_ci_containers (recording ci_daemon) 360 [''*''] 1767268800 (fresh_docker ()))) = [ps_ci, rm_force ''pg'']"
    by code_simp
  have "docker_op ci_daemon ps_ci (snd (d_world (fresh_docker ()))) = (Inr (ci_listing, [], 0), ())"
    by (simp add: ci_daemon_def fresh_docker_def)
  moreover have "commands (fresh_docker ()) = []" by (simp add: commands_def fresh_docker_def)
  moreover have "rm_force ''pg'' \<in> set (commands (snd (cleanup_ci_containers (recording ci_daemon) 360 [''*''] 1767268800 (fresh_docker ()))))"
    unfolding run by simp
  ultimately have "rm_force ''pg'' = ps_ci \<or> (\<exists>n created nets labels t. rm_force ''pg'' = rm_force n \<and>
    [n, created, nets, labels] \<in> set (map columns (lines_of (strip ci_listing))) \<and>
    \<not> starts_with n ''gh-runner-'' \<and> \<not> starts_with n ''rorch-'' \<and> is_ci_container n nets labels [''*''] \<and>
    parse_created_at created = Some t \<and> of_int 360 \<le> (1767268800 - of_int t) / (60 :: rat))"
    by (rule ci_cleanup_spares_infrastructure)
  then have "\<not> starts_with ''pg'' ''rorch-''" by (auto simp: rm_force_def ps_ci_def)
  with run show ?thesis ..
qed

text \<open>
  \<open>_capture\<close> strips the output, and with it the tab before an empty last column: the last
  row of the listing then has one column too few.
\<close>

lemma split_on_append: "split_on d (a @ d # b) = split_on d a @ split_on d b"
proof (induction a)
  case Nil
  show ?case by simp
next
  case (Cons c a)
  show ?case
  proof (cases "c = d")
    case True
    with Cons show ?thesis by simp
  next
    case False
    obtain w ws where "split_on d a = w # ws" by (cases "split_on d a") auto
    with False Cons show ?thesis by simp
  qed
qed

lemma strip_drops_tab:
  assumes "a \<noteq> []" "\<not> is_space (hd a)" "\<not> is_space (last a)"
  shows "strip (a @ [tab, newline]) = a"
proof -
  have "is_space tab" "is_space newline" by code_simp+
  moreover have "dropWhile is_space (a @ [tab, newline]) = a @ [tab, newline]"
    using assms by (cases a) auto
  moreover have "dropWhile is_space (rev a) = rev a"
    using assms by (cases a rule: rev_cases) auto
  ultimately show ?thesis by (simp add: strip_def lstrip_def rstrip_if_def)
qed

lemma leftover_names_append:
  "leftover_names limit patterns now (a @ newline # b) =
   leftover_names limit patterns now a @ leftover_names limit patterns now b"
  by (simp add: leftover_names_def lines_of_def split_on_append List.map_filter_def)

text \<open>The last container of the listing is never cleared as a CI leftover when it has no
  labels, however old it is and whatever it matches: the clean-up acts as if the row were not
  there.\<close>

lemma last_unlabelled_leftover_stays:
  assumes "front \<noteq> []" "\<not> is_space (hd front)" "nets \<noteq> []" "\<not> is_space (last nets)"
    "newline \<notin> set (n @ created @ nets)" "tab \<notin> set (n @ created @ nets)"
    "docker_op e ps_ci (snd (d_world s)) =
       (Inr (front @ [newline] @ n @ [tab] @ created @ [tab] @ nets @ [tab, newline], err, code), w)"
    "commands s = []" "rm_force m \<in> set (commands (snd (cleanup_ci_containers (recording e) limit patterns now s)))"
  shows "m \<in> set (leftover_names limit patterns now front)"
proof -
  let ?row = "n @ [tab] @ created @ [tab] @ nets"
  let ?out = "front @ [newline] @ n @ [tab] @ created @ [tab] @ nets @ [tab, newline]"
  have "strip ((front @ [newline] @ ?row) @ [tab, newline]) = front @ [newline] @ ?row"
    by (rule strip_drops_tab) (use assms(1-4) in auto)
  then have stripped: "strip ?out = front @ newline # ?row" by simp
  have line: "newline \<notin> set ?row" using assms(5) by (auto simp: newline_def tab_def)
  have cols: "columns ?row = [n, created, nets]"
    unfolding columns_def using assms(6) by (simp add: split_on_append split_on_absent)
  have none: "leftover_names limit patterns now ?row = []"
    unfolding leftover_names_def lines_of_def split_on_absent [OF line] using cols
    by (simp add: List.map_filter_def)
  have "rm_force m \<noteq> ps_ci" by (simp add: rm_force_def ps_ci_def)
  then obtain m' where "m' \<in> set (leftover_names limit patterns now (strip ?out))" "rm_force m = rm_force m'"
    using cleanup_ci_commands [OF assms(7), of limit patterns now] assms(8,9) by auto
  then have "m \<in> set (leftover_names limit patterns now (strip ?out))" by (auto simp: rm_force_def)
  then show ?thesis unfolding stripped leftover_names_append none by simp
qed

definition unlabelled_listing :: string where
  "unlabelled_listing = (''young'' @ [tab] @ ''2026-01-01 11:00:00 +0000 UTC'' @ [tab] @ ''bridge'' @ [tab] @ ''a=b'') @ [newline] @
     ''pg'' @ [tab] @ ''2025-01-01 00:00:00 +0000 UTC'' @ [tab] @ ''github_network_1'' @ [tab, newline]"

lemma last_unlabelled_leftover_stays_witness:
  "is_ci_container ''pg'' ''github_network_1'' [] [] \<and>
   rm_force ''pg'' \<notin> set (commands (snd (cleanup_ci_containers
     (recording (ci_daemon\<lparr>docker_op := (\<lambda>_. ret (unlabelled_listing, [], 0))\<rparr>)) 360 [] 1767268800 (fresh_docker ()))))"
proof -
  let ?e = "ci_daemon\<lparr>docker_op := (\<lambda>_. ret (unlabelled_listing, [], 0))\<rparr>"
  let ?front = "''young'' @ [tab] @ ''2026-01-01 11:00:00 +0000 UTC'' @ [tab] @ ''bridge'' @ [tab] @ ''a=b''"
  have sp: "?front \<noteq> []" "\<not> is_space (hd ?front)" "''github_network_1'' \<noteq> []" "\<not> is_space (last ''github_network_1'')"
    "newline \<notin> set (''pg'' @ ''2025-01-01 00:00:00 +0000 UTC'' @ ''github_network_1'')"
    "tab \<notin> set (''pg'' @ ''2025-01-01 00:00:00 +0000 UTC'' @ ''github_network_1'')" by code_simp+
  have op: "docker_op ?e ps_ci (snd (d_world (fresh_docker ()))) = (Inr (?front @ [newline] @ ''pg'' @ [tab] @
      ''2025-01-01 00:00:00 +0000 UTC'' @ [tab] @ ''github_network_1'' @ [tab, newline], [], 0), ())"
    by (simp add: unlabelled_listing_def)
  have "commands (fresh_docker ()) = []" by (simp add: commands_def fresh_docker_def)
  note stays = last_unlabelled_leftover_stays [OF sp op this, of "''pg''" 360 "[]" 1767268800]
  have "''pg'' \<notin> set (leftover_names 360 [] 1767268800 ?front)" by code_simp
  then have "rm_force ''pg'' \<notin> set (commands (snd (cleanup_ci_containers (recording ?e) 360 [] 1767268800 (fresh_docker ()))))"
    using stays by blast
  moreover have "is_ci_container ''pg'' ''github_network_1'' [] []" by code_simp
  ultimately show ?thesis by blast
qed

section \<open>Images\<close>

definition inspect_cmd :: "string \<Rightarrow> string list" where
  "inspect_cmd img = [''image'', ''inspect'', ''-f'',
     ''{{index .Config.Labels '' @ [CHR 0x22] @ GID_LABEL @ [CHR 0x22] @ ''}}'', img]"

lemma only_image_state: "P (inspect_cmd img) \<Longrightarrow> preserves (only P) (image_state (recording e) img gid)"
  unfolding image_state_def inspect_cmd_def
  by (intro preserves_andThen only_capture preserves_fun_prod preserves_ret)

text \<open>A clock that does not fail and shows a time before \<open>t\<close>.\<close>

definition clock_before :: "'w DockerEnv \<Rightarrow> rat \<Rightarrow> bool" where
  "clock_before e t \<longleftrightarrow> (\<forall>w. \<exists>now w'. d_mono_op e w = (Inr now, w') \<and> now < t)"

text \<open>Asking for the state of an image, or for the socket's group, leaves the back-off times alone.\<close>

lemma keeps_daemon: "keeps build_retry_at (on_daemon m)"
  by (simp add: keeps_def on_daemon_def split: prod.splits)

lemma keeps_capture: "keeps build_retry_at (docker_capture e args)"
  unfolding docker_capture_def by (intro keeps_andThen keeps_daemon) (auto intro: keeps_ret split: prod.splits)

lemma keeps_image_state: "keeps build_retry_at (image_state e img gid)"
  unfolding image_state_def by (intro keeps_andThen keeps_capture) (auto intro: keeps_ret split: prod.splits)

text \<open>\<open>paused img r P\<close>: the image may not be tried before \<open>r\<close>, and only \<open>P\<close> was sent.\<close>

definition paused_until :: "string \<Rightarrow> rat \<Rightarrow> (string list \<Rightarrow> bool) \<Rightarrow> (string list list \<times> 'w) DockerClient \<Rightarrow> bool" where
  "paused_until img r P s \<longleftrightarrow> dict_get (build_retry_at s) img 0 = r \<and> only P s"

lemma paused_keeps: "keeps build_retry_at m \<Longrightarrow> preserves (only P) m \<Longrightarrow> preserves (paused_until img r P) m"
  by (simp add: preserves_def keeps_def paused_until_def)

lemma backing_off_waits:
  assumes "clock_before e (dict_get (build_retry_at s) img 0)" "backing_off (recording e) img s = (Inr b, t)"
  shows "b"
proof -
  from assms(1) obtain now w' where clk: "d_mono_op e (snd (d_world s)) = (Inr now, w')" "now < dict_get (build_retry_at s) img 0"
    unfolding clock_before_def by blast
  have "on_daemon (d_mono_op (recording e)) s = (Inr now, s\<lparr>d_world := (fst (d_world s), w')\<rparr>)"
    by (simp add: on_daemon_def on_second_def clk(1))
  then show ?thesis using assms(2) clk(2) by (auto simp: backing_off_def)
qed

lemma paused_backing_off: "preserves (paused_until img r P) (backing_off (recording e) img')"
  unfolding backing_off_def
  by (rule paused_keeps; intro keeps_intros keeps_daemon preserves_andThen preserves_read preserves_ret)
    (simp_all add: only_on_second)

lemma paused_pull:
  assumes "clock_before e r" "paused_until img r P s"
  shows "paused_until img r P (snd (pull_image (recording e) img gid s)) \<and> fst (pull_image (recording e) img gid s) \<noteq> Inr True"
proof -
  obtain q t where step: "backing_off (recording e) img s = (q, t)" by force
  have "q = Inr b \<longrightarrow> b" for b
    using backing_off_waits [of e s img b t] assms step by (auto simp: paused_until_def)
  moreover have "paused_until img r P t" using preservesD [OF paused_backing_off assms(2)] step by (metis snd_conv)
  ultimately show ?thesis by (cases q) (auto simp: pull_image_def andThen_def step)
qed

lemma paused_build:
  assumes "clock_before e r" "paused_until img r P s"
  shows "paused_until img r P (snd (build_image (recording e) img s)) \<and> fst (build_image (recording e) img s) \<noteq> Inr True"
proof -
  obtain f s1 where present: "on_daemon (has_dockerfile_op (recording e)) s = (f, s1)" by force
  have keep: "preserves (paused_until img r P) (on_daemon (has_dockerfile_op (recording e)))"
    by (rule paused_keeps [OF keeps_daemon]) (simp add: only_on_second)
  have s1: "paused_until img r P s1" using preservesD [OF keep assms(2)] present by simp
  obtain q t where step: "backing_off (recording e) img s1 = (q, t)" by force
  have "q = Inr b \<longrightarrow> b" for b
    using backing_off_waits [of e s1 img b t] assms(1) s1 step by (auto simp: paused_until_def)
  moreover have "paused_until img r P t" using preservesD [OF paused_backing_off s1] step by (metis snd_conv)
  ultimately show ?thesis using present s1 step
    by (cases f; cases q) (auto simp: build_image_def andThen_def)
qed

lemma paused_ensure:
  assumes "clock_before e r" "paused_until (expand_image (release e) name) r P s" "P (inspect_cmd (expand_image (release e) name))"
  shows "paused_until (expand_image (release e) name) r P (snd (ensure_image (recording e) name s))"
proof -
  let ?img = "expand_image (release e) name" and ?I = "paused_until (expand_image (release e) name) r P"
  have gid: "preserves ?I (on_daemon (docker_gid_op (recording e)))"
    by (rule paused_keeps [OF keeps_daemon]) (simp add: only_on_second)
  have img: "preserves ?I (image_state (recording e) ?img g)" for g
    by (rule paused_keeps [OF keeps_image_state only_image_state]) (rule assms(3))
  have repair: "preserves ?I (\<lambda>t. (if reason = None then ret True
      else if is_registry_ref ?img then pull_image (recording e) ?img g else build_image (recording e) ?img) t)" for reason g
  proof (rule preservesI)
    fix t :: "(string list list \<times> 'a) DockerClient"
    assume t: "?I t"
    then show "?I (snd ((if reason = None then ret True
      else if is_registry_ref ?img then pull_image (recording e) ?img g else build_image (recording e) ?img) t))"
      using paused_pull [OF assms(1) t] paused_build [OF assms(1) t] by simp
  qed
  have "preserves ?I (ensure_image (recording e) name)"
    unfolding ensure_image_def Let_def recording_ops
    by (rule preserves_andThen [OF gid [unfolded recording_ops]], rule preserves_andThen [OF img], rule repair)
  from preservesD [OF this assms(2)] show ?thesis .
qed

text \<open>While an image is paused after a failed pull or build, asking for it again sends the
  daemon nothing but the inspection of the image: no second pull and no second build.\<close>

lemma failed_image_is_paused:
  assumes "clock_before e (dict_get (build_retry_at s) (expand_image (release e) name) 0)" "commands s = []"
  shows "set (commands (snd (ensure_image (recording e) name s))) \<subseteq> {inspect_cmd (expand_image (release e) name)}"
proof -
  let ?img = "expand_image (release e) name"
  have "paused_until ?img (dict_get (build_retry_at s) ?img 0) (\<lambda>c. c = inspect_cmd ?img) s"
    using assms(2) by (simp add: paused_until_def only_def)
  from paused_ensure [OF assms(1) this] show ?thesis
    by (auto simp: paused_until_def only_def list_all_iff)
qed

definition broken_registry :: "unit DockerEnv" where
  "broken_registry = demo_docker_env\<lparr>docker_op := (\<lambda>_. ret ([], ''denied'', 1))\<rparr>"

lemma failed_image_is_paused_witness:
  "build_retry_at (snd (ensure_image (recording broken_registry) ''ghcr.io/acme/runner:{version}'' (fresh_docker ()))) =
     [(''ghcr.io/acme/runner:1.2.3'', 350)] \<and>
   set (commands (snd (ensure_image (recording broken_registry) ''ghcr.io/acme/runner:{version}''
      \<lparr>build_retry_at = [(''ghcr.io/acme/runner:1.2.3'', 350)], d_world = ([], ())\<rparr>))) \<subseteq> {inspect_cmd ''ghcr.io/acme/runner:1.2.3''}"
proof -
  let ?s = "\<lparr>build_retry_at = [(''ghcr.io/acme/runner:1.2.3'', 350)], d_world = ([] :: string list list, ())\<rparr>"
  have img: "expand_image (release broken_registry) ''ghcr.io/acme/runner:{version}'' = ''ghcr.io/acme/runner:1.2.3''" by code_simp
  have "clock_before broken_registry 350"
    by (simp add: clock_before_def broken_registry_def demo_docker_env_def)
  then have "clock_before broken_registry (dict_get (build_retry_at ?s) (expand_image (release broken_registry) ''ghcr.io/acme/runner:{version}'') 0)"
    unfolding img by simp
  moreover have "commands ?s = []" by (simp add: commands_def)
  ultimately have "set (commands (snd (ensure_image (recording broken_registry) ''ghcr.io/acme/runner:{version}'' ?s)))
      \<subseteq> {inspect_cmd ''ghcr.io/acme/runner:1.2.3''}"
    using failed_image_is_paused [of broken_registry ?s "''ghcr.io/acme/runner:{version}''"] unfolding img by blast
  moreover have "build_retry_at (snd (ensure_image (recording broken_registry) ''ghcr.io/acme/runner:{version}'' (fresh_docker ()))) =
     [(''ghcr.io/acme/runner:1.2.3'', 350)]" by code_simp
  ultimately show ?thesis by blast
qed

text \<open>A pool with a registry image comes back: once the retry time has passed, a pull that
  succeeds with an image labelled for the host makes the image usable in that same call; a pull
  that fails pauses the image for exactly five minutes from then.\<close>

lemma image_pull_recovers:
  assumes "is_registry_ref (expand_image (release e) name)" "docker_gid_op e wa = (Inr gid, wb)"
    "docker_op e (inspect_cmd (expand_image (release e) name)) wb = (Inr (out, err, c), wc)" "c \<noteq> 0"
    "d_mono_op e wc = (Inr now, wd)" "dict_get (build_retry_at s) (expand_image (release e) name) 0 \<le> now" "d_world s = wa"
    "docker_op e [''pull'', expand_image (release e) name] wd = (Inr (outp, errp, cp), we)"
    "docker_op e (inspect_cmd (expand_image (release e) name)) we = (Inr (''runtime'' @ [newline], erri, 0), wh)"
    "d_mono_op e we = (Inr later, wg)"
  shows "ensure_image e name s =
    (if cp = 0 then (Inr True, s\<lparr>d_world := wh\<rparr>)
     else (Inr False, s\<lparr>build_retry_at := dict_set (expand_image (release e) name) (later + 300) (build_retry_at s), d_world := wg\<rparr>))"
proof -
  have "strip (strip (''runtime'' @ [newline])) = RUNTIME_GID" by code_simp
  then show ?thesis
    using assms unfolding inspect_cmd_def
    by (simp add: ensure_image_def Let_def image_state_def docker_capture_def docker_exec_def pull_image_def backing_off_def
        back_off_def andThen_def on_daemon_def BUILD_RETRY_SECONDS_def)
qed

text \<open>A registry with the image; the world says whether it was pulled.\<close>

definition healthy_registry :: "bool DockerEnv" where
  "healthy_registry =
     \<lparr>docker_op = (\<lambda>args w. if hd args = ''pull'' then (Inr ([], [], 0), True)
        else if w then (Inr (''runtime'' @ [newline], [], 0), w) else (Inr ([], ''No such image'', 1), w)),
      docker_gid_op = ret 999, d_mono_op = ret 400, fresh_uid_op = ret ''0badcafe'', has_dockerfile_op = ret False,
      record_op = None, registration_token_op = None, release = ''1.2.3'', show_float = (\<lambda>_. ''1.5''),
      volume_created = (\<lambda>_. None)\<rparr>"

lemma image_pull_recovers_witness:
  "ensure_image healthy_registry ''ghcr.io/acme/runner:1'' \<lparr>build_retry_at = [(''ghcr.io/acme/runner:1'', 350)], d_world = False\<rparr> =
   (Inr True, \<lparr>build_retry_at = [(''ghcr.io/acme/runner:1'', 350)], d_world = True\<rparr>)"
proof -
  let ?s = "\<lparr>build_retry_at = [(''ghcr.io/acme/runner:1'', 350)], d_world = False\<rparr>"
  have img: "expand_image (release healthy_registry) ''ghcr.io/acme/runner:1'' = ''ghcr.io/acme/runner:1''" by code_simp
  have cmds: "docker_op healthy_registry [''pull'', x] w = (Inr ([], [], 0), True)"
    "docker_op healthy_registry (inspect_cmd x) w =
       (if w then (Inr (''runtime'' @ [newline], [], 0), w) else (Inr ([], ''No such image'', 1), w))" for x w
    by (simp_all add: healthy_registry_def inspect_cmd_def)
  have clk: "d_mono_op healthy_registry w = (Inr 400, w)" "docker_gid_op healthy_registry w = (Inr 999, w)" for w
    by (simp_all add: healthy_registry_def)
  have ref: "is_registry_ref ''ghcr.io/acme/runner:1''" by code_simp
  have "ensure_image healthy_registry ''ghcr.io/acme/runner:1'' ?s = (if (0::int) = 0 then (Inr True, ?s\<lparr>d_world := True\<rparr>)
     else (Inr False, ?s\<lparr>build_retry_at := dict_set (expand_image (release healthy_registry) ''ghcr.io/acme/runner:1'') (400 + 300) (build_retry_at ?s), d_world := True\<rparr>))"
    by (rule image_pull_recovers [where gid = 999 and wa = False and wb = False and wc = False and wd = False and we = True and now = 400
        and c = 1 and out = "[]" and err = "''No such image''"])
      (simp_all add: img cmds clk ref)
  then show ?thesis by simp
qed

section \<open>Credentials\<close>

lemma pat_frame [frame_simps]:
  "container_prefix (p\<lparr>pool_pat := x\<rparr>) = container_prefix p" "is_gitea (p\<lparr>pool_pat := x\<rparr>) = is_gitea p"
  "work_tmpfs_enabled (p\<lparr>pool_pat := x\<rparr>) = work_tmpfs_enabled p"
  "effective_work_tmpfs_size (p\<lparr>pool_pat := x\<rparr>) = effective_work_tmpfs_size p"
  "display (p\<lparr>pool_pat := x\<rparr>) = display p" "pool_name (p\<lparr>pool_pat := x\<rparr>) = pool_name p"
  "runner_image (p\<lparr>pool_pat := x\<rparr>) = runner_image p"
  by (simp_all add: container_prefix_def is_gitea_def work_tmpfs_enabled_def effective_work_tmpfs_size_def display_def
      is_personal_level_def is_org_level_def Let_def)

lemma run_args_pat:
  "is_gitea p \<Longrightarrow> run_args show (p\<lparr>pool_pat := x\<rparr>) img name token = run_args show p img name token"
  by (simp add: run_args_def base_args_def cache_args_def tmpfs_args_def credential_args_def runner_args_def hook_args_def
      cpu_args_def frame_simps)


definition hook_pool :: PoolConfig where
  "hook_pool = (new_pool ''ci'' ''account-token'' ''acme'')\<lparr>pool_provider := ''gitea'', base_url := ''https://git.acme.dev''\<rparr>"

definition token_env :: "bool DockerEnv" where
  "token_env = healthy_registry\<lparr>registration_token_op := Some (\<lambda>_. ret (Some ''reg-1''))\<rparr>"


section \<open>Ages Docker prints that are not read\<close>

text \<open>Docker prints an age in weeks from two weeks on, and \<open>About an hour\<close> for one hour: neither
  reaches any limit, so the reapers leave such a container.\<close>

lemma week_old_not_aged: "\<not> aged_at_least limit ''2 weeks ago''" "\<not> aged_at_least limit ''About an hour ago''"
proof -
  have "parse_running_minutes ''2 weeks ago'' = None" "parse_running_minutes ''About an hour ago'' = None" by code_simp+
  then show "\<not> aged_at_least limit ''2 weeks ago''" "\<not> aged_at_least limit ''About an hour ago''"
    by (simp_all add: aged_at_least_def)
qed

end
