(* ===== verification/LoopFacts.thy ===== *)
theory LoopFacts
  imports DaemonFacts ResolverFacts DockerFacts
begin

text \<open>
  A turn of the main loop ends, whatever the peers, the host and Docker do; a paused daemon starts
  no pool; the clean-up leaves protected containers.
\<close>

section \<open>Actions that succeed\<close>

definition succeeds :: "('s \<Rightarrow> bool) \<Rightarrow> ('s, 'a) eff \<Rightarrow> bool" where
  "succeeds I m \<longleftrightarrow> (\<forall>s. I s \<longrightarrow> (\<exists>x s'. m s = (Inr x, s') \<and> I s'))"

lemma succeedsI: "(\<And>s. I s \<Longrightarrow> \<exists>x s'. m s = (Inr x, s') \<and> I s') \<Longrightarrow> succeeds I m"
  by (simp add: succeeds_def)

named_theorems succeeds_intros "actions that do not raise"

lemma succeedsD: "succeeds I m \<Longrightarrow> I s \<Longrightarrow> \<exists>x s'. m s = (Inr x, s') \<and> I s'"
  by (simp add: succeeds_def)

lemma succeeds_ret [succeeds_intros]: "succeeds I (ret x)"
  by (simp add: succeeds_def)

lemma succeeds_read [succeeds_intros]: "succeeds I (read_state f)"
  by (simp add: succeeds_def)

lemma succeeds_update [succeeds_intros]: "(\<And>s. I s \<Longrightarrow> I (f s)) \<Longrightarrow> succeeds I (update_state f)"
  by (simp add: succeeds_def)

lemma succeeds_andThen [succeeds_intros]:
  "succeeds I m \<Longrightarrow> (\<And>x. succeeds I (f x)) \<Longrightarrow> succeeds I (andThen m f)"
  unfolding succeeds_def andThen_def by fastforce

lemma succeeds_if [succeeds_intros]: "succeeds I m \<Longrightarrow> succeeds I n \<Longrightarrow> succeeds I (if c then m else n)"
  by simp

lemma succeeds_each [succeeds_intros]: "(\<And>x. succeeds I (f x)) \<Longrightarrow> succeeds I (each f xs)"
proof (induction xs)
  case Nil
  then show ?case by (simp add: succeeds_def)
next
  case (Cons x xs)
  have "succeeds I (andThen (f x) (\<lambda>_. each f xs))" using Cons by (intro succeeds_andThen) auto
  then show ?case by (simp add: succeeds_def)
qed

section \<open>The loop goes on\<close>

definition lanes_open :: "'w Daemon \<Rightarrow> bool" where
  "lanes_open s \<longleftrightarrow> \<not> stopped (dm_pool_lanes s) \<and> \<not> stopped (dm_maintenance s)"

definition clock_runs :: "'w Outside \<Rightarrow> bool" where
  "clock_runs o' \<longleftrightarrow> (\<forall>w. \<exists>t w'. monotonic_op (o_runtime o') w = (Inr t, w'))"

lemma succeeds_on_scaler:
  assumes "\<And>b. \<exists>x b'. m b = (Inr x, b')" "\<And>s b. I s \<Longrightarrow> I (s\<lparr>dm_scaler := b\<rparr>)"
  shows "succeeds I (on_scaler m)"
proof (rule succeedsI)
  fix s
  assume "I s"
  moreover obtain x b where "m (dm_scaler s) = (Inr x, b)" using assms(1) by blast
  ultimately show "\<exists>x s'. on_scaler m s = (Inr x, s') \<and> I s'" using assms(2) by (simp add: on_scaler_def)
qed

lemma on_shared_succeeds:
  assumes "\<And>w. \<exists>x w'. m w = (Inr x, w')"
  shows "\<exists>x b'. on_shared (on_outside m) b = (Inr x, b')"
proof -
  obtain x w' where "m (sh_world (d_world (world b))) = (Inr x, w')" using assms by blast
  then show ?thesis by (simp add: on_shared_def on_world_def on_daemon_def on_outside_def)
qed

lemma mono_time_runs:
  assumes "clock_runs o'"
  shows "\<exists>now b. mono_time o' s = (Inr now, s\<lparr>dm_scaler := b\<rparr>)"
proof -
  have "\<exists>x b'. on_shared (on_outside (monotonic_op (o_runtime o'))) (dm_scaler s) = (Inr x, b')"
    by (rule on_shared_succeeds) (use assms in \<open>simp add: clock_runs_def\<close>)
  then show ?thesis by (auto simp: mono_time_def on_scaler_def)
qed

text \<open>The lanes of a set of names are busy, and both pools of workers are open.\<close>

definition busy_all :: "string set \<Rightarrow> 'w Daemon \<Rightarrow> bool" where
  "busy_all K s \<longleftrightarrow> lanes_open s \<and> lanes_ok (dm_pool_lanes s) \<and> lanes_ok (dm_maintenance s) \<and>
     (\<forall>k\<in>K. lane_busy (dm_pool_lanes s) k)"

lemma submit_job_busy:
  assumes "\<not> stopped l" "lanes_ok l"
  shows "\<exists>l' jobs'. submit_job now lane j (l, jobs) = (Inr (), l', jobs') \<and> \<not> stopped l' \<and> lanes_ok l' \<and> lane_busy l' lane \<and>
    (\<forall>k. lane_busy l k \<longrightarrow> lane_busy l' k)"
proof (cases "lane_busy l lane")
  case True
  then show ?thesis using lane_submit_skips [of l lane now] assms by (auto simp: submit_job_def)
next
  case False
  note run = lane_submit_starts [OF False assms(1), of now]
  let ?l = "l\<lparr>waiting := waiting l @ [\<lparr>tk_future = next_future l, tk_lane = lane\<rparr>], next_future := Suc (next_future l),
      running := dict_set lane (next_future l, now) (running l)\<rparr>"
  have ok: "lanes_ok ?l" using lane_submit_ok [OF assms(2), of now lane] run by simp
  have lanes: "tk_lane ` set (unfinished ?l) = insert lane (tk_lane ` set (unfinished l))" by (auto simp: unfinished_def)
  have "lane_busy ?l lane" "\<And>k. lane_busy l k \<Longrightarrow> lane_busy ?l k"
    unfolding lane_busy_iff [OF ok] lane_busy_iff [OF assms(2)] lanes by simp_all
  then show ?thesis using run assms(1) ok by (simp add: submit_job_def)
qed

lemma submit_pool_busy:
  assumes "clock_runs o'" "busy_all K s"
  shows "\<exists>s'. submit_pool_job o' lane j s = (Inr (), s') \<and> busy_all (insert lane K) s'"
proof -
  obtain now b where t: "mono_time o' s = (Inr now, s\<lparr>dm_scaler := b\<rparr>)" using mono_time_runs [OF assms(1)] by blast
  obtain l' jobs' where r: "submit_job now lane j (dm_pool_lanes s, dm_pool_jobs s) = (Inr (), l', jobs')" "\<not> stopped l'" "lanes_ok l'"
      "lane_busy l' lane" "\<forall>k. lane_busy (dm_pool_lanes s) k \<longrightarrow> lane_busy l' k"
    using submit_job_busy [of "dm_pool_lanes s"] assms(2) unfolding busy_all_def lanes_open_def by blast
  then show ?thesis using t assms(2) by (auto simp: submit_pool_job_def andThen_def busy_all_def lanes_open_def)
qed

lemma submit_maintenance_busy:
  assumes "clock_runs o'"
  shows "succeeds (busy_all K) (submit_maintenance o' lane j)"
proof (rule succeedsI)
  fix s :: "'a Daemon"
  assume s: "busy_all K s"
  obtain now b where t: "mono_time o' s = (Inr now, s\<lparr>dm_scaler := b\<rparr>)" using mono_time_runs [OF assms(1)] by blast
  obtain l' jobs' where r: "submit_job now lane j (dm_maintenance s, dm_maintenance_jobs s) = (Inr (), l', jobs')" "\<not> stopped l'" "lanes_ok l'"
    using submit_job_busy [of "dm_maintenance s"] s unfolding busy_all_def lanes_open_def by blast
  then show "\<exists>x s'. submit_maintenance o' lane j s = (Inr x, s') \<and> busy_all K s'"
    using t s by (simp add: submit_maintenance_def andThen_def busy_all_def lanes_open_def)
qed

lemma each_pool_busy:
  assumes "clock_runs o'"
  shows "busy_all K s \<Longrightarrow> \<exists>s'. each (\<lambda>p. submit_pool_job o' (pool_name p) (j p)) ps s = (Inr (), s') \<and>
    busy_all (K \<union> pool_name ` set ps) s'"
proof (induction ps arbitrary: K s)
  case Nil
  then show ?case by simp
next
  case (Cons p ps)
  obtain s1 where s1: "submit_pool_job o' (pool_name p) (j p) s = (Inr (), s1)" "busy_all (insert (pool_name p) K) s1"
    using submit_pool_busy [OF assms Cons.prems] by blast
  obtain s2 where "each (\<lambda>p. submit_pool_job o' (pool_name p) (j p)) ps s1 = (Inr (), s2)"
      "busy_all (insert (pool_name p) K \<union> pool_name ` set ps) s2"
    using Cons.IH [OF s1(2)] by blast
  then show ?case using s1(1) by (simp add: andThen_def Un_insert_left)
qed

lemma submit_ticks_busy:
  assumes "clock_runs o'" "busy_all {} s"
  shows "\<exists>s'. submit_pool_ticks o' c s = (Inr (), s') \<and> busy_all (pool_name ` set (eff_pools c)) s'"
proof -
  obtain s1 where s1: "each (\<lambda>p. submit_pool_job o' (pool_name p) (PoolTick p (state_for c (pool_name p)))) (eff_pools c) s = (Inr (), s1)"
      "busy_all (pool_name ` set (eff_pools c)) s1"
    using each_pool_busy [OF assms] by fastforce
  let ?l = "forget_except (map pool_name (eff_pools c)) (dm_pool_lanes s1)"
  have ok: "lanes_ok (dm_pool_lanes s1)" "lanes_ok ?l" using s1(2) forget_except_ok by (auto simp: busy_all_def)
  have "lane_busy ?l k = lane_busy (dm_pool_lanes s1) k" for k
    unfolding lane_busy_iff [OF ok(1)] lane_busy_iff [OF ok(2)] unfinished_forget ..
  moreover have "stopped ?l = stopped (dm_pool_lanes s1)" by (simp add: forget_except_def)
  ultimately show ?thesis using s1 ok(2) by (simp add: submit_pool_ticks_def andThen_def busy_all_def lanes_open_def)
qed

definition stored_in :: "'w Daemon \<Rightarrow> 'w Store option" where
  "stored_in s = sh_store (d_world (world (dm_scaler s)))"

text \<open>What a turn of the loop needs: a database that answers, if there is one, and a configuration
  in it that resolves.\<close>

definition configured :: "'w Outside \<Rightarrow> Runtime \<Rightarrow> 'w Daemon \<Rightarrow> bool" where
  "configured o' rt s \<longleftrightarrow> (case stored_in s of None \<Rightarrow> True
     | Some st \<Rightarrow> healthy (o_store o') \<and> (\<exists>cfg. config_of (rt_resolver rt) (live st) = Inr cfg))"

lemma resolve_succeeds:
  assumes "configured o' rt s"
  shows "\<exists>c b. daemon_resolve o' rt (dm_scaler s) = (Inr c, b)"
proof (cases "stored_in s")
  case None
  then show ?thesis
    by (simp add: daemon_resolve_def on_shared_def on_world_def on_daemon_def on_saved_def resolve_def stored_in_def)
next
  case (Some st)
  then obtain cfg where c: "healthy (o_store o')" "config_of (rt_resolver rt) (live st) = Inr cfg"
    using assms by (auto simp: configured_def)
  define st' where "st' = st\<lparr>st_world := sh_world (d_world (world (dm_scaler s)))\<rparr>"
  have "config_of (rt_resolver rt) (live st') = Inr cfg" using c(2) by (simp add: st'_def)
  then obtain w where "resolve_store (o_store o') (rt_resolver rt) st' = (Inr cfg, st'\<lparr>st_world := w\<rparr>)"
    using resolve_store_reads [OF c(1), of "rt_resolver rt" st'] by (auto simp: reads_def)
  then show ?thesis using Some
    by (simp add: daemon_resolve_def on_shared_def on_world_def on_daemon_def on_saved_def resolve_def stored_in_def st'_def)
qed

lemma main_turn_runs:
  assumes "configured o' rt s" "clock_runs o'" "busy_all {} s"
  shows "\<exists>c b s'. daemon_resolve o' rt (dm_scaler s) = (Inr c, b) \<and> main_turn o' rt s = (Inr (), s') \<and>
    busy_all (if eff_paused c then {} else pool_name ` set (eff_pools c)) s'"
proof -
  obtain c b where run: "daemon_resolve o' rt (dm_scaler s) = (Inr c, b)" using resolve_succeeds [OF assms(1)] by blast
  let ?K = "if eff_paused c then {} else pool_name ` set (eff_pools c)"
  obtain b2 where b2: "on_scaler (swallow (refresh_federation o' rt c)) (s\<lparr>dm_scaler := b\<rparr>) = (Inr (), s\<lparr>dm_scaler := b2\<rparr>)"
    by (simp add: on_scaler_def swallow_def)
  define s2 where "s2 = s\<lparr>dm_scaler := set_max_total_runners (eff_max_total_runners c) b2\<rparr>"
  have "busy_all {} s2" using assms(3) by (simp add: busy_all_def lanes_open_def s2_def)
  then obtain s3 where s3: "(if eff_paused c then ret () else submit_pool_ticks o' c) s2 = (Inr (), s3)" "busy_all ?K s3"
    using submit_ticks_busy [OF assms(2)] by (cases "eff_paused c") fastforce+
  obtain s4 where s4: "submit_maintenance o' CLEANUP_LANE (Cleanup c) s3 = (Inr (), s4)" "busy_all ?K s4"
    using succeedsD [OF submit_maintenance_busy [OF assms(2)] s3(2)] by auto
  have tick: "main_tick o' rt s = (Inr (), s4)" using run b2 s3(1) s4(1)
    by (simp add: main_tick_def andThen_def on_scaler_def s2_def)
  have "succeeds (busy_all ?K) (andThen (update_state (\<lambda>s. s\<lparr>dm_ticks := dm_ticks s + 1\<rparr>)) (\<lambda>_.
     andThen (read_state dm_ticks) (\<lambda>n.
       if n mod rt_prune_every rt = 0 then submit_maintenance o' HOUSEKEEPING_LANE Housekeeping else ret ())))"
    by (intro succeeds_intros submit_maintenance_busy assms(2)) (simp add: busy_all_def lanes_open_def)
  from succeedsD [OF this s4(2)] obtain s5 where "main_turn o' rt s = (Inr (), s5)" "busy_all ?K s5"
    unfolding main_turn_def andThen_def [of "main_tick o' rt"] tick by auto
  with run show ?thesis by blast
qed

text \<open>C2. The main loop goes on: with a configuration that resolves, a turn of the loop before the shutdown
  raises nothing, whatever the peers, the host's files, GitHub and Docker do; and unless all is
  paused, every pool in effect then has a tick that waits for a worker or runs.\<close>

theorem main_loop_goes_on:
  assumes "configured o' rt s" "clock_runs o'" "busy_all {} s"
  shows "\<exists>c b s'. daemon_resolve o' rt (dm_scaler s) = (Inr c, b) \<and> main_turn o' rt s = (Inr (), s') \<and>
    busy_all (if eff_paused c then {} else pool_name ` set (eff_pools c)) s'"
  by (rule main_turn_runs [OF assms])

definition demo_runtime :: Runtime where
  "demo_runtime =
     \<lparr>rt_pools = base_pools demo_resolver, rt_poll = 15, rt_prune_every = 60, rt_retention_days = 14, rt_rate_limit_reserve = 100,
      rt_github_concurrency = 8, rt_pool_tick_workers = 8, rt_max_total_runners = 10, rt_max_runner_lifetime = 0,
      rt_ci_container_max_age = 360, rt_ci_container_patterns = [], rt_stored = True, rt_resolver = demo_resolver\<rparr>"

definition demo_daemon_state :: "nat Daemon" where
  "demo_daemon_state = new_daemon demo_runtime (new_brain 10 100 (Some demo_store) None 100)"

lemma demo_config: "config_of demo_resolver (live demo_store) = Inr (base_config demo_resolver)"
  by (simp add: demo_store_def empty_tables_def config_of_def override_rows_def no_overrides_pools base_config_def
      config_int_def List.map_filter_def)

theorem main_loop_goes_on_witness:
  "\<exists>s'. main_turn demo_world demo_runtime demo_daemon_state = (Inr (), s') \<and> lane_busy (dm_pool_lanes s') ''ci''"
proof -
  have c: "configured demo_world demo_runtime demo_daemon_state"
    using demo_config demo_healthy
    by (simp add: configured_def stored_in_def demo_daemon_state_def new_daemon_def new_brain_def new_scaler_def demo_world_def demo_runtime_def)
  have t: "clock_runs demo_world" by (simp add: clock_runs_def demo_world_def)
  have "lanes_ok (new_lanes n)" for n by (rule lanes_reach_ok [OF lanes_reach.init])
  then have b: "busy_all {} demo_daemon_state"
    by (simp add: busy_all_def lanes_open_def demo_daemon_state_def new_daemon_def, simp add: new_lanes_def)
  have pools: "case fst (daemon_resolve demo_world demo_runtime (dm_scaler demo_daemon_state)) of Inl _ \<Rightarrow> False
    | Inr c \<Rightarrow> map pool_name (eff_pools c) = [''ci''] \<and> \<not> eff_paused c" by code_simp
  obtain c b s' where run: "daemon_resolve demo_world demo_runtime (dm_scaler demo_daemon_state) = (Inr c, b)"
      "main_turn demo_world demo_runtime demo_daemon_state = (Inr (), s')"
      "busy_all (if eff_paused c then {} else pool_name ` set (eff_pools c)) s'"
    using main_loop_goes_on [OF c t b] by blast
  with pools have "pool_name ` set (eff_pools c) = {''ci''}" "\<not> eff_paused c" by (auto simp flip: set_map)
  with run(2,3) show ?thesis by (auto simp: busy_all_def)
qed

section \<open>Pausing\<close>

definition pool_work :: "'w Daemon \<Rightarrow> Lanes \<times> (nat, job) dict" where
  "pool_work s = (dm_pool_lanes s, dm_pool_jobs s)"

lemma keeps_on_scaler [keeps_intros]: "keeps pool_work (on_scaler m)"
  by (auto simp: keeps_def on_scaler_def pool_work_def split: prod.splits)

lemma keeps_submit_maintenance [keeps_intros]: "keeps pool_work (submit_maintenance o' lane j)"
  unfolding submit_maintenance_def mono_time_def
  by (intro keeps_andThen keeps_on_scaler) (auto simp: keeps_def pool_work_def split: prod.splits)

text \<open>C8. Pausing everything stops provisioning at the next turn: no pool is handed to a worker, whatever
  its own state, while the ticks in hand go on.\<close>

theorem paused_starts_no_pool:
  assumes "daemon_resolve o' rt (dm_scaler s) = (Inr c, b)" "eff_paused c"
  shows "pool_work (snd (main_turn o' rt s)) = pool_work s"
proof -
  have tick: "main_tick o' rt s =
     andThen (on_scaler (swallow (refresh_federation o' rt c))) (\<lambda>_.
     andThen (on_scaler (update_state (set_max_total_runners (eff_max_total_runners c)))) (\<lambda>_.
     andThen (ret ()) (\<lambda>_. submit_maintenance o' CLEANUP_LANE (Cleanup c)))) (s\<lparr>dm_scaler := b\<rparr>)"
    using assms by (simp add: main_tick_def andThen_def [of "on_scaler (daemon_resolve o' rt)"] on_scaler_def [of "daemon_resolve o' rt"])
  have after: "keeps pool_work (andThen (update_state (\<lambda>s. s\<lparr>dm_ticks := dm_ticks s + 1\<rparr>)) (\<lambda>_.
     andThen (read_state dm_ticks) (\<lambda>n.
       if n mod rt_prune_every rt = 0 then submit_maintenance o' HOUSEKEEPING_LANE Housekeeping else ret ())))"
    by (intro keeps_intros) (simp_all add: pool_work_def)
  have "pool_work (snd (main_tick o' rt s)) = pool_work (s\<lparr>dm_scaler := b\<rparr>)" unfolding tick
    by (rule keepsD) (intro keeps_intros)
  then have "pool_work (snd (main_tick o' rt s)) = pool_work s" by (simp add: pool_work_def)
  then show ?thesis using keepsD [OF after] unfolding main_turn_def andThen_def [of "main_tick o' rt"]
    by (auto split: prod.splits sum.splits)
qed

definition paused_state :: "nat Daemon" where
  "paused_state = new_daemon demo_runtime (new_brain 10 100
     (Some (demo_store\<lparr>live := empty_tables\<lparr>t_global_overrides := [(''paused'', ''1'', 5)]\<rparr>\<rparr>)) None 100)"

theorem paused_starts_no_pool_witness:
  "pool_work (snd (main_turn demo_world demo_runtime paused_state)) = (new_lanes 8, []) \<and>
   waiting (dm_maintenance (snd (main_turn demo_world demo_runtime paused_state))) \<noteq> []"
proof -
  have "case fst (daemon_resolve demo_world demo_runtime (dm_scaler paused_state)) of Inl _ \<Rightarrow> False | Inr c \<Rightarrow> eff_paused c"
    by code_simp
  then obtain c b where r: "daemon_resolve demo_world demo_runtime (dm_scaler paused_state) = (Inr c, b)" "eff_paused c"
    by (cases "daemon_resolve demo_world demo_runtime (dm_scaler paused_state)") (auto split: sum.splits)
  have "waiting (dm_maintenance (snd (main_turn demo_world demo_runtime paused_state))) \<noteq> []" by code_simp
  with paused_starts_no_pool [OF r] show ?thesis by (simp add: pool_work_def paused_state_def new_daemon_def demo_runtime_def)
qed

section \<open>Clean-up\<close>

lemma aged_spared:
  assumes "P (ps_running_for pfx)" "\<And>n. n \<notin> exclude \<Longrightarrow> P (rm_force n)"
  shows "preserves (only P) (cleanup_aged (recording e) pfx limit exclude)"
proof -
  have names: "n \<notin> exclude" if "n \<in> set (aged_names limit exclude out)" for n out
  proof -
    from that have "\<exists>row\<in>set (map columns (lines_of out)). (case row of [name, running_for] \<Rightarrow>
        if name \<notin> exclude \<and> aged_at_least limit running_for then Some name else None | _ \<Rightarrow> None) = Some n"
      by (simp only: aged_names_def in_map_filter)
    then show ?thesis by (elim bexE) (auto split: list.splits if_splits)
  qed
  show ?thesis unfolding cleanup_aged_def
    by (intro preserves_if preserves_ret preserves_andThen only_capture assms(1) preserves_case_prod run_parallel_only only_kill)
      (use names assms(2) in \<open>auto split: if_splits\<close>)
qed

text \<open>C9. The clean-up spares protected containers and the orchestrator: whatever Docker lists, it sends no
  removal of a container that is protected or is the orchestrator, and nothing but the listing,
  removals and the pruning of networks.\<close>

theorem cleanup_spares_protected:
  assumes "commands s = []" "name \<in> insert ORCHESTRATOR_CONTAINER (eff_protected c)"
  shows "rm_force name \<notin> set (commands (snd (cleanup_with (recording e) c s))) \<and>
    list_all (\<lambda>cmd. cmd = ps_running_for GLOBAL_CONTAINER_PREFIX \<or> hd cmd = ''rm'' \<or> hd cmd = ''network'')
      (commands (snd (cleanup_with (recording e) c s)))"
proof -
  let ?P = "\<lambda>cmd. cmd \<noteq> rm_force name \<and> (cmd = ps_running_for GLOBAL_CONTAINER_PREFIX \<or> hd cmd = ''rm'' \<or> hd cmd = ''network'')"
  have prune: "preserves (only ?P) (prune_networks (recording e) ''30m'')"
    unfolding prune_networks_def by (intro preserves_andThen only_capture preserves_ret) (simp add: rm_force_def)
  have "preserves (only ?P) (cleanup_aged (recording e) GLOBAL_CONTAINER_PREFIX (eff_max_runner_lifetime c)
      (insert ORCHESTRATOR_CONTAINER (eff_protected c)))"
    by (rule aged_spared) (use assms(2) in \<open>auto simp: ps_running_for_def rm_force_def\<close>)
  then have "preserves (only ?P) (cleanup_with (recording e) c)"
    unfolding cleanup_with_def by (intro preserves_andThen preserves_swallow prune)
  from preservesD [OF this, of s] show ?thesis using assms(1) by (auto simp: only_def list_all_iff)
qed

definition protecting :: EffectiveConfig where
  "protecting = (base_config demo_resolver)\<lparr>eff_max_runner_lifetime := 60, eff_protected := {''gh-runner-ci-b''}\<rparr>"

theorem cleanup_spares_protected_witness:
  "rm_force ''gh-runner-ci-b'' \<notin> set (commands (snd (cleanup_with (recording demo_docker_env) protecting \<lparr>build_retry_at = [], d_world = ([], ())\<rparr>))) \<and>
   rm_force ''gh-runner-ci-b'' \<in> set (commands (snd (cleanup_with (recording demo_docker_env) (protecting\<lparr>eff_protected := {}\<rparr>)
     \<lparr>build_retry_at = [], d_world = ([], ())\<rparr>)))"
proof -
  have "rm_force ''gh-runner-ci-b'' \<in> set (commands (snd (cleanup_with (recording demo_docker_env) (protecting\<lparr>eff_protected := {}\<rparr>)
     \<lparr>build_retry_at = [], d_world = ([], ())\<rparr>)))" by code_simp
  then show ?thesis using cleanup_spares_protected [of "\<lparr>build_retry_at = [], d_world = ([], ())\<rparr>" "''gh-runner-ci-b''" protecting demo_docker_env]
    by (simp add: commands_def protecting_def)
qed

end
