(* ===== verification/Replay.thy ===== *)
theory Replay
  imports Auth ResolverFacts
begin

text \<open>
  Requests with an idempotency key, on several threads at once: the parts of the \<open>idempotent\<close>
  wrapper as steps. A request claims its key, looks the key up, and either replays what is stored
  or runs the view and stores its response; whatever happens it releases the key. In between, the
  view itself and everything else may do anything to the state but claim or release a key or
  store a response under one.
\<close>

datatype phase = Idle | Looking string | Running string

fun phase_key :: "phase \<Rightarrow> string option" where
  "phase_key Idle = None"
| "phase_key (Looking k) = Some k"
| "phase_key (Running k) = Some k"

definition replies :: "Tables \<Rightarrow> string set" where
  "replies t = dom (map_of (idempotency t))"

definition stored :: "'w Web \<Rightarrow> string set" where
  "stored s = replies (live (w_store s))"

text \<open>No deletion of a stored response is left uncommitted.\<close>

definition settled :: "'w Web \<Rightarrow> bool" where
  "settled s \<longleftrightarrow> replies (durable (w_store s)) \<subseteq> stored s"

inductive replay_step :: "'w Deps \<Rightarrow> 'w Web \<times> (nat \<Rightarrow> phase) \<Rightarrow> 'w Web \<times> (nat \<Rightarrow> phase) \<Rightarrow> bool" for d where
  claims: "claim_key k s = (Inr True, s') \<Longrightarrow> ph i = Idle \<Longrightarrow> replay_step d (s, ph) (s', ph(i := Looking k))"
| refuses: "claim_key k s = (Inr False, s') \<Longrightarrow> replay_step d (s, ph) (s', ph)"
| replays: "ph i = Looking k \<Longrightarrow> on_store (idempotent_response (d_store d) k) s = (Inr (Some cached), s') \<Longrightarrow>
    replay_step d (s, ph) (release_key k s', ph(i := Idle))"
| runs: "ph i = Looking k \<Longrightarrow> on_store (idempotent_response (d_store d) k) s = (Inr None, s') \<Longrightarrow>
    replay_step d (s, ph) (s', ph(i := Running k))"
| lookup_raises: "ph i = Looking k \<Longrightarrow> on_store (idempotent_response (d_store d) k) s = (Inl err, s') \<Longrightarrow>
    replay_step d (s, ph) (release_key k s', ph(i := Idle))"
| remembers: "ph i = Running k \<Longrightarrow> on_store (remember_response (d_store d) k answer) s = (r, s') \<Longrightarrow>
    replay_step d (s, ph) (release_key k s', ph(i := Idle))"
| gives_up: "ph i = Running k \<Longrightarrow> replay_step d (s, ph) (release_key k s, ph(i := Idle))"
| other_work: "in_flight s' = in_flight s \<Longrightarrow> stored s' \<subseteq> stored s \<Longrightarrow> settled s' \<Longrightarrow> replay_step d (s, ph) (s', ph)"

inductive_cases replay_stepE: "replay_step d x y"

section \<open>Keys in flight are a lock\<close>

definition claim_of :: "string \<Rightarrow> 'w Web \<Rightarrow> bool \<times> 'w Web" where
  "claim_of k s = (case claim_key k s of (Inr b, s') \<Rightarrow> (b, s') | (Inl _, s') \<Rightarrow> (False, s'))"

lemma claim_key_iff:
  "claim_key k s = (if k \<in> set (in_flight s) then (Inr False, s) else (Inr True, s\<lparr>in_flight := k # in_flight s\<rparr>))"
  by (simp add: claim_key_def andThen_def read_state_def ret_def update_state_def)

interpretation keys: keyed_lock "\<lambda>_. True" "\<lambda>s. set (in_flight s)" claim_of release_key
  by unfold_locales (auto simp: claim_of_def claim_key_iff release_key_def split: if_splits)

lemma on_store_in_flight: "on_store m s = (r, s') \<Longrightarrow> in_flight s' = in_flight s"
  by (auto simp: on_store_def split: prod.splits)

text \<open>A step of the requests is a few steps of callers of the lock.\<close>

lemma replay_is_calling:
  assumes "replay_step d (s, ph) (s', ph')"
  shows "keys.caller_step\<^sup>*\<^sup>* (s, phase_key \<circ> ph) (s', phase_key \<circ> ph')"
  using assms
proof (cases rule: replay_step.cases)
  case (claims k i)
  have "keys.caller_step (s, phase_key \<circ> ph) (snd (claim_of k s), (phase_key \<circ> ph)(i := Some k))"
    using claims by (intro keys.enters) (simp_all add: claim_of_def)
  then show ?thesis using claims by (auto simp: claim_of_def fun_upd_comp)
next
  case (refuses k)
  then show ?thesis using keys.elsewhere [of s' s] by (auto simp: claim_key_iff split: if_splits)
next
  case (replays i k cached t)
  have "keys.caller_step (s, phase_key \<circ> ph) (t, phase_key \<circ> ph)"
    using replays on_store_in_flight [OF replays(4)] by (intro keys.elsewhere) simp_all
  moreover have "keys.caller_step (t, phase_key \<circ> ph) (release_key k t, (phase_key \<circ> ph)(i := None))"
    using replays by (intro keys.leaves) simp
  ultimately show ?thesis using replays by (simp add: fun_upd_comp)
next
  case (runs i k)
  have "phase_key \<circ> ph(i := Running k) = phase_key \<circ> ph" using runs by (auto simp: fun_eq_iff)
  then show ?thesis using runs keys.elsewhere [of s' s "phase_key \<circ> ph"] on_store_in_flight [OF runs(3)] by auto
next
  case (lookup_raises i k err t)
  have "keys.caller_step (s, phase_key \<circ> ph) (t, phase_key \<circ> ph)"
    using lookup_raises on_store_in_flight [OF lookup_raises(4)] by (intro keys.elsewhere) simp_all
  moreover have "keys.caller_step (t, phase_key \<circ> ph) (release_key k t, (phase_key \<circ> ph)(i := None))"
    using lookup_raises by (intro keys.leaves) simp
  ultimately show ?thesis using lookup_raises by (simp add: fun_upd_comp)
next
  case (remembers i k answer r t)
  have "keys.caller_step (s, phase_key \<circ> ph) (t, phase_key \<circ> ph)"
    using remembers on_store_in_flight [OF remembers(4)] by (intro keys.elsewhere) simp_all
  moreover have "keys.caller_step (t, phase_key \<circ> ph) (release_key k t, (phase_key \<circ> ph)(i := None))"
    using remembers by (intro keys.leaves) simp
  ultimately show ?thesis using remembers by (simp add: fun_upd_comp)
next
  case (gives_up i k)
  have "keys.caller_step (s, phase_key \<circ> ph) (release_key k s, (phase_key \<circ> ph)(i := None))"
    using gives_up by (intro keys.leaves) simp
  then show ?thesis using gives_up by (simp add: fun_upd_comp)
next
  case other_work
  then show ?thesis using keys.elsewhere [of s' s] by auto
qed

section \<open>What a statement can leave\<close>

lemma statement_outcomes:
  "run_statement e f s = (r, s') \<Longrightarrow> durable s' = durable s \<and> (live s' = live s \<and> isl r \<or> r = Inr (fst (f (live s))) \<and> live s' = snd (f (live s)))"
  by (auto simp: run_statement_def andThen_def on_db_def apply_statement_def split: prod.splits sum.splits)

lemma connect_outcomes: "connect e s = (r, s') \<Longrightarrow> durable s' = durable s \<and> (isl r \<and> live s' = live s \<or> \<not> isl r \<and> live s' = durable s)"
  by (auto simp: connect_def andThen_def read_state_def on_db_def update_state_def split: prod.splits sum.splits)

lemma execute_outcomes:
  assumes "execute e f s = (r, s')"
  shows "durable s' = durable s \<and> (\<exists>t\<in>{live s, durable s}. live s' = t \<and> isl r \<or> r = Inr (fst (f t)) \<and> live s' = snd (f t))"
proof -
  obtain q u where u: "run_statement e f s = (q, u)" by force
  note a = statement_outcomes [OF u]
  show ?thesis
  proof (cases q)
    case (Inr x)
    then show ?thesis using a u assms by (auto simp: execute_def catch_def)
  next
    case (Inl err)
    obtain c v where v: "connect e u = (c, v)" by force
    note b = connect_outcomes [OF v]
    show ?thesis
    proof (cases "\<not> is_mariadb (st_dsn u) \<or> \<not> is_disconnect err")
      case True
      then show ?thesis using a u Inl assms by (auto simp: execute_def catch_def andThen_def read_state_def raise_error_def)
    next
      case False
      show ?thesis
      proof (cases c)
        case (Inl err')
        then show ?thesis using a b u v False \<open>q = Inl err\<close> assms
          by (auto simp: execute_def catch_def andThen_def read_state_def)
      next
        case (Inr x)
        then have "run_statement e f v = (r, s')" using u v False \<open>q = Inl err\<close> assms
          by (auto simp: execute_def catch_def andThen_def read_state_def)
        from statement_outcomes [OF this] show ?thesis using a b Inr Inl by auto
      qed
    qed
  qed
qed

lemma write_outcomes:
  assumes "store_write e f s = (r, s')"
  shows "(durable s' = durable s \<or> durable s' = live s') \<and> live s' \<in> {live s, durable s, f (live s), f (durable s)}"
proof -
  obtain q u where u: "execute e (change f) s = (q, u)" by force
  note a = execute_outcomes [OF u]
  have "live s' = live u \<and> (durable s' = durable u \<or> durable s' = live u)" using assms u
    by (auto simp: store_write_def commit_def andThen_def on_db_def update_state_def split: prod.splits sum.splits)
  then show ?thesis using a by (auto simp: change_def)
qed

lemma write_done: "store_write e f s = (Inr (), s') \<Longrightarrow> durable s' = live s' \<and> live s' \<in> {f (live s), f (durable s)}"
proof -
  assume run: "store_write e f s = (Inr (), s')"
  obtain q u where u: "execute e (change f) s = (q, u)" by force
  have q: "q = Inr ()" and d: "durable s' = live s'" "live s' = live u" using run u
    by (auto simp: store_write_def commit_def andThen_def on_db_def update_state_def split: prod.splits sum.splits)
  show ?thesis using execute_outcomes [OF u] q d by (auto simp: change_def)
qed

lemma read_outcomes:
  "store_read e q s = (r, s') \<Longrightarrow> durable s' = durable s \<and> live s' \<in> {live s, durable s} \<and> (\<forall>x. r = Inr x \<longrightarrow> x = q (live s'))"
  using execute_outcomes [of e "\<lambda>t. (q t, t)" s r s'] by (auto simp: store_read_def)

lemma remember_outcomes:
  assumes "on_store (remember_response e k answer) s = (r, s')" "settled s"
  shows "settled s' \<and> stored s' \<subseteq> insert k (stored s)"
proof -
  obtain q u where u: "remember_response e k answer (w_store s) = (q, u)" by force
  have s': "w_store s' = u" using assms(1) u by (auto simp: on_store_def)
  obtain n v where n: "store_now e (w_store s) = (n, v)" by force
  have same: "live v = live (w_store s)" "durable v = durable (w_store s)" using n
    by (auto simp: store_now_def on_db_def split: prod.splits)
  show ?thesis
  proof (cases n)
    case (Inl err)
    then show ?thesis using u n same s' assms(2) by (auto simp: remember_response_def andThen_def settled_def stored_def)
  next
    case (Inr now)
    let ?f = "\<lambda>t. t\<lparr>idempotency := dict_set k (answer, now) (idempotency t)\<rparr>"
    have "store_write e ?f v = (q, u)" using u n Inr by (simp add: remember_response_def andThen_def)
    note w = write_outcomes [OF this]
    have f: "replies (?f t) = insert k (replies t)" for t by (auto simp: replies_def)
    show ?thesis using w assms(2) unfolding settled_def stored_def s' same by (auto simp: f)
  qed
qed

lemma lookup_outcomes:
  assumes "on_store (idempotent_response e k) s = (r, s')" "settled s"
  shows "settled s' \<and> stored s' \<subseteq> stored s \<and> (r = Inr None \<longrightarrow> k \<notin> stored s')"
proof -
  obtain q u where u: "idempotent_response e k (w_store s) = (q, u)" by force
  have s': "w_store s' = u" "r = q" using assms(1) u by (auto simp: on_store_def)
  note w = read_outcomes [OF u [unfolded idempotent_response_def]]
  then have "replies (live u) \<subseteq> stored s \<and> replies (durable u) \<subseteq> replies (live u)"
    using assms(2) unfolding settled_def stored_def by fastforce
  moreover have "k \<notin> replies (live u)" if "r = Inr None" using w that s'(2) by (auto simp: replies_def)
  ultimately show ?thesis unfolding settled_def stored_def s'(1) by blast
qed

section \<open>No view runs twice\<close>

definition replay_ok :: "'w Web \<times> (nat \<Rightarrow> phase) \<Rightarrow> bool" where
  "replay_ok = (\<lambda>(s, ph). settled s \<and> (\<forall>i k. ph i = Running k \<longrightarrow> k \<notin> stored s))"

lemma release_frame [simp]: "w_store (release_key k s) = w_store s" "settled (release_key k s) = settled s" "stored (release_key k s) = stored s"
  by (simp_all add: release_key_def settled_def stored_def)

lemma replay_step_ok:
  assumes "replay_step d (s, ph) (s', ph')" "replay_ok (s, ph)" "keys.exclusive (s, phase_key \<circ> ph)"
  shows "replay_ok (s', ph')"
  using assms(1)
proof (cases rule: replay_step.cases)
  case (claims k i)
  then show ?thesis using assms(2) by (auto simp: replay_ok_def claim_key_iff settled_def stored_def split: if_splits)
next
  case (refuses k)
  then show ?thesis using assms(2) by (auto simp: replay_ok_def claim_key_iff split: if_splits)
next
  case (replays i k cached t)
  then show ?thesis using assms(2) lookup_outcomes [OF replays(4)] by (auto simp: replay_ok_def)
next
  case (runs i k)
  then show ?thesis using assms(2) lookup_outcomes [OF runs(3)] by (auto simp: replay_ok_def)
next
  case (lookup_raises i k err t)
  then show ?thesis using assms(2) lookup_outcomes [OF lookup_raises(4)] by (auto simp: replay_ok_def)
next
  case (remembers i k answer r t)
  have "j = i" if "ph j = Running k" for j
  proof -
    have "(phase_key \<circ> ph) j = Some k" "(phase_key \<circ> ph) i = Some k" using that remembers(3) by simp_all
    then show ?thesis using assms(3) unfolding keys.exclusive_def by blast
  qed
  moreover have "settled t" "stored t \<subseteq> insert k (stored s)"
    using remember_outcomes [OF remembers(4)] assms(2) by (simp_all add: replay_ok_def)
  moreover have "\<forall>i k. ph i = Running k \<longrightarrow> k \<notin> stored s" using assms(2) by (simp add: replay_ok_def)
  ultimately show ?thesis unfolding remembers(1-2) replay_ok_def by auto
next
  case (gives_up i k)
  then show ?thesis using assms(2) by (auto simp: replay_ok_def)
next
  case other_work
  then show ?thesis using assms(2) by (auto simp: replay_ok_def)
qed

lemma replay_steps_ok:
  assumes "(replay_step d)\<^sup>*\<^sup>* (s, ph) x" "replay_ok (s, ph)" "keys.exclusive (s, phase_key \<circ> ph)"
  shows "replay_ok x \<and> keys.exclusive (fst x, phase_key \<circ> snd x)"
  using assms(1)
proof (induction rule: rtranclp_induct)
  case base
  then show ?case using assms(2,3) by (simp add: comp_def)
next
  case (step y z)
  obtain a b a' b' where y: "y = (a, b)" "z = (a', b')" by (cases y, cases z)
  have now: "replay_step d (a, b) (a', b')" "replay_ok (a, b)" "keys.exclusive (a, phase_key \<circ> b)"
    using step y by (simp_all add: comp_def)
  then show ?case using replay_step_ok [OF now] keys.exclusive_steps [OF replay_is_calling [OF now(1)]]
    by (simp add: y comp_def)
qed

text \<open>A server to try things on: a working store, one pool, a Docker that does what it is asked.\<close>

definition demo_deps :: "nat Deps" where
  "demo_deps =
     \<lparr>d_store = demo_store_env, d_resolver = demo_resolver,
      d_docker = \<lparr>sd_spawn = (\<lambda>_. ret True), sd_stop = (\<lambda>_. ret True), sd_details = (\<lambda>_. ret []), sd_logs = (\<lambda>_ _. ret [])\<rparr>,
      d_token = ''secret'', d_readonly = ''look'', rate_limit_op = ret (PDict []), host_state_op = ret [],
      body_text = (\<lambda>b. case b of Json d \<Rightarrow> dumps (\<lambda>_. ''0.0'') (PDict d) | PlainText t \<Rightarrow> t)\<rparr>"

definition demo_web :: "nat Web" where
  "demo_web = \<lparr>w_store = demo_store, guard_failures = [], in_flight = []\<rparr>"

definition demo_request :: "string \<Rightarrow> string \<Rightarrow> pyval \<Rightarrow> Request" where
  "demo_request token key body =
     \<lparr>rq_method = ''POST'', rq_path = ''/api/pools/ci/scale'',
      rq_header = map_of [(''Authorization'', ''Bearer '' @ token), (''Idempotency-Key'', key)], rq_arg = (\<lambda>_. None),
      rq_cookie = (\<lambda>_. None), rq_remote = Some ''10.0.0.9'', rq_json = body\<rparr>"

text \<open>C10. However requests with idempotency keys interleave, with each other and with anything else,
  a view runs for a key only while no other request of that key is being handled and no response
  is stored under it: a retry is answered by the first attempt's response, or refused.\<close>

theorem one_view_per_key:
  assumes "settled s" "(replay_step d)\<^sup>*\<^sup>* (s, \<lambda>_. Idle) (t, ph)" "ph i = Running k"
  shows "k \<notin> stored t \<and> k \<in> set (in_flight t) \<and> (ph j = Running k \<or> ph j = Looking k \<longrightarrow> j = i)"
proof -
  have idle: "phase_key \<circ> (\<lambda>_. Idle) = (\<lambda>_. None)" by (simp add: fun_eq_iff)
  have "replay_ok (t, ph) \<and> keys.exclusive (t, phase_key \<circ> ph)"
    using replay_steps_ok [OF assms(2)] assms(1) keys.exclusive_init by (auto simp: replay_ok_def idle)
  then have ok: "\<forall>i k. ph i = Running k \<longrightarrow> k \<notin> stored t" "ran (phase_key \<circ> ph) \<subseteq> set (in_flight t)"
      "\<forall>c d k. (phase_key \<circ> ph) c = Some k \<longrightarrow> (phase_key \<circ> ph) d = Some k \<longrightarrow> c = d"
    by (simp_all add: replay_ok_def keys.exclusive_def)
  have i: "(phase_key \<circ> ph) i = Some k" using assms(3) by simp
  have "(phase_key \<circ> ph) j = Some k" if "ph j = Running k \<or> ph j = Looking k" using that by auto
  moreover have "k \<in> ran (phase_key \<circ> ph)" using i by (rule ranI)
  ultimately show ?thesis using ok i assms(3) by blast
qed


theorem one_view_per_key_witness:
  "\<exists>t ph. (replay_step demo_deps)\<^sup>*\<^sup>* (demo_web, \<lambda>_. Idle) (t, ph) \<and> ph 0 = Running ''POST:/x:k'' \<and>
     ''POST:/x:k'' \<notin> stored t \<and> ''POST:/x:k'' \<in> set (in_flight t) \<and> (ph 1 = Running ''POST:/x:k'' \<or> ph 1 = Looking ''POST:/x:k'' \<longrightarrow> 1 = (0::nat))"
proof -
  let ?k = "''POST:/x:k''" and ?t = "demo_web\<lparr>in_flight := [''POST:/x:k'']\<rparr>" and ?ph = "(\<lambda>_. Idle)(0 := Looking ''POST:/x:k'')"
  have set: "settled demo_web" by (simp add: settled_def stored_def demo_web_def demo_store_def)
  have c: "claim_key ?k demo_web = (Inr True, ?t)" by (simp add: claim_key_iff demo_web_def)
  have l: "on_store (idempotent_response (d_store demo_deps) ?k) ?t = (Inr None, ?t)"
    by (simp add: on_store_def idempotent_response_def store_read_def execute_def catch_def run_statement_def andThen_def on_db_def
        apply_statement_def demo_deps_def demo_store_env_def demo_web_def demo_store_def empty_tables_def)
  have run: "(replay_step demo_deps)\<^sup>*\<^sup>* (demo_web, \<lambda>_. Idle) (?t, ?ph(0 := Running ?k))"
    using claims [where ph = "\<lambda>_. Idle" and i = 0 and d = demo_deps, OF c refl]
      runs [where ph = ?ph and i = 0 and d = demo_deps and s = ?t, OF fun_upd_same l] by simp
  have on: "(?ph(0 := Running ?k)) 0 = Running ?k" by simp
  show ?thesis using run on one_view_per_key [OF set run on, of 1] by blast
qed

section \<open>The wrapper is these steps\<close>

text \<open>What a view may do beside its own work: nothing to the keys or to the stored responses.\<close>

definition view_frame :: "('w, Response) web \<Rightarrow> bool" where
  "view_frame view \<longleftrightarrow> (\<forall>s r s'. view s = (r, s') \<longrightarrow>
     in_flight s' = in_flight s \<and> stored s' \<subseteq> stored s \<and> (settled s \<longrightarrow> settled s'))"

lemma ensure_apply: "ensure m f s = (fst (m s), f (snd (m s)))"
  by (simp add: ensure_def split: prod.splits)

lemma run_and_remember_steps:
  assumes "view_frame view" "settled s" "ph i = Running k"
  shows "(replay_step d)\<^sup>*\<^sup>* (s, ph) (release_key k (snd (run_and_remember d k view s)), ph(i := Idle))"
proof -
  obtain r t where v: "view s = (r, t)" by force
  have w: "replay_step d (s, ph) (t, ph)" using assms(1,2) v by (intro other_work) (auto simp: view_frame_def)
  show ?thesis
  proof (cases "\<exists>resp. r = Inr resp \<and> 200 \<le> rsp_status resp \<and> rsp_status resp < 300")
    case True
    then obtain resp where resp: "r = Inr resp" "200 \<le> rsp_status resp" "rsp_status resp < 300" by blast
    obtain q u where q: "on_store (remember_response (d_store d) k (body_text d (rsp_body resp))) t = (q, u)" by force
    then have "snd (run_and_remember d k view s) = u" using v resp
      by (cases q) (simp_all add: run_and_remember_def andThen_def)
    then show ?thesis using w remembers [where ph = ph and i = i, OF assms(3) q] by simp
  next
    case False
    then have "snd (run_and_remember d k view s) = t" using v
      by (cases r) (auto simp: run_and_remember_def andThen_def)
    then show ?thesis using w gives_up [where ph = ph and i = i and s = t and d = d, OF assms(3)] by simp
  qed
qed



end
