(* ===== verification/AuthFacts.thy ===== *)
theory AuthFacts
  imports Replay
begin

text \<open>
  Facts about who may do what: how slowly tokens can be guessed, and what each kind of token
  opens.
\<close>

section \<open>The guard entry of a client\<close>

definition entry :: "string \<Rightarrow> 'w Web \<Rightarrow> (int \<times> rat) option" where
  "entry client s = map_of (guard_failures s) client"

text \<open>The clock shows seconds since 1970 and does not go back: \<open>clk\<close> is what the world shows.\<close>

definition clock_law :: "'w Deps \<Rightarrow> ('w \<Rightarrow> rat) \<Rightarrow> bool" where
  "clock_law d clk \<longleftrightarrow> (\<forall>w. 0 \<le> clk w) \<and> (\<forall>w r w'. time_op (d_store d) w = (r, w') \<longrightarrow>
     clk w \<le> clk w' \<and> (\<forall>t. r = Inr t \<longrightarrow> clk w \<le> t \<and> t \<le> clk w'))"

definition web_clock :: "('w \<Rightarrow> rat) \<Rightarrow> 'w Web \<Rightarrow> rat" where
  "web_clock clk s = clk (st_world (w_store s))"

lemma web_time_facts:
  assumes "clock_law d clk" "web_time d s = (r, s')"
  shows "guard_failures s' = guard_failures s \<and> web_clock clk s \<le> web_clock clk s' \<and>
    (\<forall>t. r = Inr t \<longrightarrow> web_clock clk s \<le> t \<and> t \<le> web_clock clk s')"
proof -
  obtain q w where q: "time_op (d_store d) (st_world (w_store s)) = (q, w)" by force
  have "s' = s\<lparr>w_store := (w_store s)\<lparr>st_world := w\<rparr>\<rparr>" "r = q" using assms(2) q
    by (auto simp: web_time_def on_store_def store_now_def on_db_def)
  then show ?thesis using assms(1) q by (auto simp: clock_law_def web_clock_def)
qed

text \<open>
  What one authorization does to the client's entry: nothing, or it forgets an expired lock, or it
  counts a failure; a failure is counted only below the limit or after the lock.
\<close>

definition expired :: "(int \<times> rat) option \<Rightarrow> rat \<Rightarrow> bool" where
  "expired en now \<longleftrightarrow> (\<exists>n t. en = Some (n, t) \<and> MAX_TOKEN_FAILURES \<le> n \<and> t + LOCKOUT_SECONDS \<le> now)"

lemma locked_until_facts:
  assumes "clock_law d clk" "locked_until d c s = (r, s')"
  shows "web_clock clk s \<le> web_clock clk s' \<and>
    (guard_failures s' = guard_failures s \<or> entry c s' = None \<and> expired (entry c s) (web_clock clk s')) \<and>
    (r = Inr 0 \<longrightarrow> (case entry c s' of None \<Rightarrow> True | Some (n, t) \<Rightarrow> n < MAX_TOKEN_FAILURES))"
proof -
  obtain n t where e: "dict_get (guard_failures s) c (0, 0) = (n, t)" by force
  show ?thesis
  proof (cases "n < MAX_TOKEN_FAILURES")
    case True
    then have "r = Inr 0" "s' = s" using assms(2) e by (simp_all add: locked_until_def andThen_def read_state_def)
    then show ?thesis using True e by (auto simp: entry_def split: option.splits)
  next
    case False
    then have some: "entry c s = Some (n, t)" using e by (auto simp: entry_def MAX_TOKEN_FAILURES_def split: option.splits)
    obtain q u where q: "web_time d s = (q, u)" by force
    note w = web_time_facts [OF assms(1) q]
    show ?thesis
    proof (cases q)
      case (Inl err)
      then show ?thesis using assms(2) e False q w by (auto simp: locked_until_def andThen_def read_state_def)
    next
      case (Inr now)
      show ?thesis
      proof (cases "t + LOCKOUT_SECONDS \<le> now")
        case True
        then have s': "s' = u\<lparr>guard_failures := dict_del c (guard_failures u)\<rparr>"
          using assms(2) e False q Inr by (simp add: locked_until_def andThen_def read_state_def update_state_def)
        then have "entry c s' = None" "web_clock clk s' = web_clock clk u" by (simp_all add: entry_def web_clock_def)
        then show ?thesis using w Inr True False some by (auto simp: expired_def)
      next
        case no: False
        have "0 \<le> web_clock clk s" using assms(1) by (simp add: clock_law_def web_clock_def)
        then have "t + LOCKOUT_SECONDS \<noteq> 0" using no w Inr by auto
        then show ?thesis using assms(2) e False q Inr w no by (auto simp: locked_until_def andThen_def read_state_def)
      qed
    qed
  qed
qed

definition counts_failure :: "(int \<times> rat) option \<Rightarrow> (int \<times> rat) option \<Rightarrow> rat \<Rightarrow> bool" where
  "counts_failure en en' now \<longleftrightarrow>
     (\<exists>t. now \<le> t \<and> en' = Some (case en of None \<Rightarrow> 1 | Some (n, _) \<Rightarrow> n + 1, t))"

lemma record_failure_facts:
  assumes "clock_law d clk" "record_failure d c s = (Inr (), s')"
  shows "\<exists>t. web_clock clk s \<le> t \<and> t \<le> web_clock clk s' \<and>
    entry c s' = Some (case entry c s of None \<Rightarrow> 1 | Some (n, _) \<Rightarrow> n + 1, t)"
proof -
  obtain q u where q: "web_time d s = (q, u)" by force
  note w = web_time_facts [OF assms(1) q]
  obtain now where now: "q = Inr now" using assms(2) q by (cases q) (auto simp: record_failure_def andThen_def read_state_def)
  then have "s' = u\<lparr>guard_failures := dict_set c (fst (dict_get (guard_failures s) c (0, 0)) + 1, now) (guard_failures u)\<rparr>"
    using assms(2) q by (simp add: record_failure_def andThen_def read_state_def update_state_def)
  then show ?thesis using w now by (auto simp: entry_def web_clock_def split: option.splits)
qed

text \<open>A run of one client's requests with wrong tokens, among anything else that leaves its entry
  alone. The times are those at which a token was compared and refused.\<close>

inductive guesses :: "'w Deps \<Rightarrow> ('w \<Rightarrow> rat) \<Rightarrow> string \<Rightarrow> 'w Web \<Rightarrow> rat list \<Rightarrow> bool" for d clk c where
  no_more: "guesses d clk c s []"
| refused: "authorize d rq w s = (Inr (Some r), s') \<Longrightarrow> client_of rq = c \<Longrightarrow> rsp_status r = 401 \<Longrightarrow>
    entry c s' = Some (n, t) \<Longrightarrow> guesses d clk c s' ts \<Longrightarrow> guesses d clk c s (t # ts)"
| turned_away: "authorize d rq w s = (Inr (Some r), s') \<Longrightarrow> client_of rq = c \<Longrightarrow> rsp_status r = 429 \<Longrightarrow>
    guesses d clk c s' ts \<Longrightarrow> guesses d clk c s ts"
| raised: "authorize d rq w s = (Inl err, s') \<Longrightarrow> client_of rq = c \<Longrightarrow> guesses d clk c s' ts \<Longrightarrow> guesses d clk c s ts"
| other_work: "entry c s' = entry c s \<Longrightarrow> web_clock clk s \<le> web_clock clk s' \<Longrightarrow> guesses d clk c s' ts \<Longrightarrow> guesses d clk c s ts"

lemma authorize_cases:
  assumes "authorize d rq w s = (x, s')" "locked_until d (client_of rq) s = (r, u)"
  shows "(\<exists>err. r = Inl err \<and> x = Inl err \<and> s' = u) \<or>
    (\<exists>l. r = Inr l \<and> l \<noteq> 0 \<and> (\<exists>q. web_time d u = (q, s') \<and> (isl x \<or> (\<exists>a. x = Inr (Some a) \<and> rsp_status a = 429)))) \<or>
    r = Inr 0 \<and> ((\<exists>err. scope_of d (supplied_token rq) = Inl err \<and> x = Inl err \<and> s' = u) \<or>
      (scope_of d (supplied_token rq) = Inr None \<and>
        ((\<exists>err. record_failure d (client_of rq) u = (Inl err, s') \<and> x = Inl err) \<or>
         (\<exists>a. record_failure d (client_of rq) u = (Inr (), s') \<and> x = Inr (Some a) \<and> rsp_status a = 401))) \<or>
      (\<exists>sc. scope_of d (supplied_token rq) = Inr (Some sc) \<and> s' = u\<lparr>guard_failures := dict_del (client_of rq) (guard_failures u)\<rparr> \<and>
        x = Inr (if w \<and> sc \<noteq> Write then Some (failure 403 ''read-only token: this action requires the control token'') else None)))"
proof (cases r)
  case (Inl err)
  then show ?thesis using assms by (auto simp: authorize_def Let_def andThen_def)
next
  case r: (Inr l)
  show ?thesis
  proof (cases "l = 0")
    case False
    obtain q v where q: "web_time d u = (q, v)" by force
    then have "s' = v \<and> (isl x \<or> (\<exists>a. x = Inr (Some a) \<and> rsp_status a = 429))" using assms r False
      by (cases q) (auto simp: authorize_def Let_def andThen_def too_many_attempts_def failure_def respond_def)
    then show ?thesis using r False q by blast
  next
    case True
    note unfold = authorize_def Let_def andThen_def lift_result_def record_success_def update_state_def ret_def
    show ?thesis
    proof (cases "scope_of d (supplied_token rq)")
      case (Inl err)
      then show ?thesis using assms r True by (simp add: unfold)
    next
      case sc: (Inr so)
      show ?thesis
      proof (cases so)
        case None
        obtain q v where q: "record_failure d (client_of rq) u = (q, v)" by force
        then have "s' = v \<and> (\<forall>err. q = Inl err \<longrightarrow> x = Inl err) \<and> (q = Inr () \<longrightarrow> x = Inr (Some (failure 401 ''unauthorized'')))"
          using assms r True sc None by (cases q) (simp_all add: unfold)
        then show ?thesis using r True sc None q by (cases q) (auto simp: failure_def respond_def)
      next
        case (Some k)
        have "x = Inr (if w \<and> k \<noteq> Write then Some (failure 403 ''read-only token: this action requires the control token'') else None) \<and>
            s' = u\<lparr>guard_failures := dict_del (client_of rq) (guard_failures u)\<rparr>"
          using assms r True sc Some by (simp add: unfold)
        then show ?thesis using r True sc Some by blast
      qed
    qed
  qed
qed

lemma record_failure_raises:
  assumes "clock_law d clk" "record_failure d c s = (Inl err, s')"
  shows "guard_failures s' = guard_failures s \<and> web_clock clk s \<le> web_clock clk s'"
proof -
  obtain q u where q: "web_time d s = (q, u)" by force
  then have "s' = u" using assms(2) by (cases q) (auto simp: record_failure_def andThen_def read_state_def update_state_def)
  then show ?thesis using web_time_facts [OF assms(1) q] by simp
qed

text \<open>The entry keeps to the limit, and its time is in the past.\<close>

definition entry_ok :: "('w \<Rightarrow> rat) \<Rightarrow> string \<Rightarrow> 'w Web \<Rightarrow> bool" where
  "entry_ok clk c s \<longleftrightarrow> (case entry c s of None \<Rightarrow> True | Some (n, t) \<Rightarrow> 1 \<le> n \<and> n \<le> MAX_TOKEN_FAILURES \<and> t \<le> web_clock clk s)"

text \<open>Every request of the client leaves the entry, forgets an expired lock, or counts.\<close>

lemma authorize_entry:
  assumes law: "clock_law d clk" and ok: "entry_ok clk c s" and run: "authorize d rq w s = (x, s')" and c: "client_of rq = c"
    and wrong: "x \<noteq> Inr None" "\<forall>a. x = Inr (Some a) \<longrightarrow> rsp_status a \<noteq> 403"
  shows "web_clock clk s \<le> web_clock clk s' \<and> entry_ok clk c s' \<and>
    ((\<forall>a. x = Inr (Some a) \<longrightarrow> rsp_status a \<noteq> 401) \<and> (entry c s' = entry c s \<or> entry c s' = None \<and> expired (entry c s) (web_clock clk s')) \<or>
     (\<exists>a. x = Inr (Some a) \<and> rsp_status a = 401) \<and>
     (\<exists>n t. entry c s' = Some (n, t) \<and> web_clock clk s \<le> t \<and>
       (n = 1 \<and> (entry c s = None \<or> expired (entry c s) t) \<or> (\<exists>m u. entry c s = Some (m, u) \<and> n = m + 1 \<and> m < MAX_TOKEN_FAILURES))))"
proof -
  obtain r u where u: "locked_until d c s = (r, u)" by force
  note L = locked_until_facts [OF law u]
  have ent: "entry c u = entry c s \<or> entry c u = None \<and> expired (entry c s) (web_clock clk u)" using L by (auto simp: entry_def)
  have oku: "entry_ok clk c u" using ok ent L by (auto simp: entry_ok_def split: option.splits)
  have same: "web_clock clk s \<le> web_clock clk s' \<and> entry_ok clk c s' \<and>
      (entry c s' = entry c s \<or> entry c s' = None \<and> expired (entry c s) (web_clock clk s'))"
    if "guard_failures s' = guard_failures u" "web_clock clk u \<le> web_clock clk s'"
  proof -
    have "entry c s' = entry c u" using that by (simp add: entry_def)
    then show ?thesis using ent oku that L by (force simp: entry_ok_def expired_def split: option.splits)
  qed
  consider (err) err where "x = Inl err" "s' = u" | (locked) q a where "web_time d u = (q, s')" "isl x \<or> x = Inr (Some a) \<and> rsp_status a = 429"
    | (uncounted) err where "record_failure d c u = (Inl err, s')" "x = Inl err"
    | (counted) a where "r = Inr 0" "record_failure d c u = (Inr (), s')" "x = Inr (Some a)" "rsp_status a = 401"
    using authorize_cases [OF run, unfolded c, OF u] wrong by (auto simp: failure_def respond_def split: if_splits)
  then show ?thesis
  proof cases
    case err
    then show ?thesis using same by simp
  next
    case locked
    then show ?thesis using same web_time_facts [OF law locked(1)] by auto
  next
    case uncounted
    then show ?thesis using same record_failure_raises [OF law uncounted(1)] by simp
  next
    case counted
    obtain t where t: "web_clock clk u \<le> t" "t \<le> web_clock clk s'"
        "entry c s' = Some (case entry c u of None \<Rightarrow> 1 | Some (n, _) \<Rightarrow> n + 1, t)"
      using record_failure_facts [OF law counted(2)] by blast
    have below: "case entry c u of None \<Rightarrow> True | Some (n, t) \<Rightarrow> n < MAX_TOKEN_FAILURES" using L counted(1) by simp
    show ?thesis
    proof (cases "entry c u")
      case None
      then have "entry c s = None \<or> expired (entry c s) t" using ent t(1) by (auto simp: expired_def)
      then show ?thesis using None t L counted(3,4) by (auto simp: entry_ok_def MAX_TOKEN_FAILURES_def)
    next
      case (Some ml)
      obtain m l where ml: "ml = (m, l)" by force
      then have "entry c u = Some (m, l)" "m < MAX_TOKEN_FAILURES" "1 \<le> m" using Some below oku by (auto simp: entry_ok_def)
      moreover from this(1) have "entry c s = Some (m, l)" using ent by auto
      ultimately have "entry c s = Some (m, l)" "m < MAX_TOKEN_FAILURES" "1 \<le> m" by simp_all
      then show ?thesis using Some ml t L counted(3,4) by (auto simp: entry_ok_def)
    qed
  qed
qed

section \<open>Guessing is slow\<close>

definition apart :: "('w \<Rightarrow> rat) \<Rightarrow> string \<Rightarrow> 'w Web \<Rightarrow> rat list \<Rightarrow> bool" where
  "apart clk c s ts \<longleftrightarrow>
    (\<forall>x\<in>set ts. web_clock clk s \<le> x) \<and>
    (\<forall>n u k. entry c s = Some (n, u) \<longrightarrow> k < length ts \<longrightarrow> 10 \<le> n + int k \<longrightarrow> u + 300 \<le> ts ! k) \<and>
    (\<forall>i. i + 10 < length ts \<longrightarrow> ts ! i + 300 \<le> ts ! (i + 10))"

lemma apart_earlier:
  assumes "apart clk c s' ts" "web_clock clk s \<le> web_clock clk s'"
    "entry c s' = entry c s \<or> entry c s' = None \<and> expired (entry c s) (web_clock clk s')"
  shows "apart clk c s ts"
proof -
  have "u + 300 \<le> ts ! k" if e: "entry c s = Some (n, u)" "k < length ts" "10 \<le> n + int k" for n u k
  proof (cases "expired (entry c s) (web_clock clk s')")
    case True
    then have "u + 300 \<le> web_clock clk s'" using e(1) by (simp add: expired_def LOCKOUT_SECONDS_def)
    also have "\<dots> \<le> ts ! k" using assms(1) e(2) by (simp add: apart_def)
    finally show ?thesis .
  next
    case False
    then show ?thesis using e assms by (auto simp: apart_def)
  qed
  then show ?thesis using assms by (fastforce simp: apart_def)
qed

lemma guesses_apart:
  assumes "clock_law d clk"
  shows "guesses d clk c s ts \<Longrightarrow> entry_ok clk c s \<Longrightarrow> apart clk c s ts"
proof (induction rule: guesses.induct)
  case (no_more s)
  then show ?case by (simp add: apart_def)
next
  case (refused rq w s r s' n t ts)
  have now: "web_clock clk s \<le> web_clock clk s'" "entry_ok clk c s'" "web_clock clk s \<le> t" "t \<le> web_clock clk s'" "1 \<le> n"
      "n = 1 \<and> (entry c s = None \<or> expired (entry c s) t) \<or> (\<exists>m u. entry c s = Some (m, u) \<and> n = m + 1 \<and> m < 10)"
    using authorize_entry [OF assms refused.prems refused.hyps(1,2)] refused.hyps(3,4)
    by (auto simp: entry_ok_def MAX_TOKEN_FAILURES_def)
  from refused.IH [OF now(2)] have IH: "\<forall>x\<in>set ts. web_clock clk s' \<le> x"
      "\<And>k. k < length ts \<Longrightarrow> 10 \<le> n + int k \<Longrightarrow> t + 300 \<le> ts ! k"
      "\<forall>i. i + 10 < length ts \<longrightarrow> ts ! i + 300 \<le> ts ! (i + 10)"
    using refused.hyps(4) by (auto simp: apart_def)
  have later: "\<forall>x\<in>set (t # ts). t \<le> x" using IH(1) now(4) by force
  have first: "u + 300 \<le> (t # ts) ! k" if e: "entry c s = Some (m, u)" "k < length (t # ts)" "10 \<le> m + int k" for m u k
  proof (cases "expired (entry c s) t")
    case True
    then have "u + 300 \<le> t" using e(1) by (simp add: expired_def LOCKOUT_SECONDS_def)
    then show ?thesis using later e(2) by (meson nth_mem order_trans)
  next
    case False
    then have m: "n = m + 1" "m < 10" using now(6) e(1) by auto
    then obtain j where j: "k = Suc j" using e(3) by (cases k) auto
    have "u \<le> web_clock clk s" using refused.prems e(1) by (simp add: entry_ok_def)
    moreover have "t + 300 \<le> ts ! j" using IH(2) [of j] e m j by simp
    ultimately show ?thesis using now(3) j by simp
  qed
  have "(t # ts) ! i + 300 \<le> (t # ts) ! (i + 10)" if "i + 10 < length (t # ts)" for i
  proof (cases i)
    case 0
    then show ?thesis using that IH(2) [of 9] now(5) by simp
  next
    case (Suc j)
    then show ?thesis using that IH(3) [rule_format, of j] by (simp add: add.commute)
  qed
  moreover have "\<forall>x\<in>set (t # ts). web_clock clk s \<le> x" using later now(3) by force
  ultimately show ?case using first unfolding apart_def by blast
next
  case (turned_away rq w s r s' ts)
  have "web_clock clk s \<le> web_clock clk s' \<and> entry_ok clk c s' \<and>
      (entry c s' = entry c s \<or> entry c s' = None \<and> expired (entry c s) (web_clock clk s'))"
    using authorize_entry [OF assms turned_away.prems turned_away.hyps(1,2)] turned_away.hyps(3) by auto
  then show ?case using apart_earlier turned_away.IH by blast
next
  case (raised rq w s err s' ts)
  have "web_clock clk s \<le> web_clock clk s' \<and> entry_ok clk c s' \<and>
      (entry c s' = entry c s \<or> entry c s' = None \<and> expired (entry c s) (web_clock clk s'))"
    using authorize_entry [OF assms raised.prems raised.hyps(1,2)] by auto
  then show ?case using apart_earlier raised.IH by blast
next
  case (other_work s' s ts)
  have "entry_ok clk c s'" using other_work.prems other_work.hyps by (auto simp: entry_ok_def split: option.splits)
  then show ?case using apart_earlier [OF other_work.IH] other_work.hyps by blast
qed


definition guessed :: "nat \<Rightarrow> nat \<Rightarrow> nat Web" where
  "guessed n w = demo_web\<lparr>guard_failures := (if n = 0 then [] else [(''10.0.0.9'', int n, of_nat w - 1)]),
     w_store := demo_store\<lparr>st_world := w\<rparr>\<rparr>"

definition bad_request :: Request where
  "bad_request = demo_request ''guess'' [] PNone"

lemma demo_clock: "clock_law demo_deps of_nat"
  by (simp add: clock_law_def demo_deps_def demo_store_env_def)

lemma bad_scope: "scope_of demo_deps (supplied_token bad_request) = Inr None"
  by code_simp

lemma bad_client: "client_of bad_request = ''10.0.0.9''"
  by code_simp

lemma demo_time:
  "web_time demo_deps s = (Inr (of_nat (st_world (w_store s))), s\<lparr>w_store := (w_store s)\<lparr>st_world := Suc (st_world (w_store s))\<rparr>\<rparr>)"
  by (simp add: web_time_def on_store_def store_now_def on_db_def demo_deps_def demo_store_env_def)

lemma guess_step:
  "n < 10 \<Longrightarrow> authorize demo_deps bad_request True (guessed n w) = (Inr (Some (failure 401 ''unauthorized'')), guessed (Suc n) (Suc w))"
  by (simp add: authorize_def Let_def bad_client locked_until_def andThen_def read_state_def guessed_def demo_web_def
      MAX_TOKEN_FAILURES_def ret_def lift_result_def bad_scope record_failure_def demo_time update_state_def)

lemma guess_after_lock:
  "w + 299 \<le> v \<Longrightarrow> authorize demo_deps bad_request True ((guessed 10 w)\<lparr>w_store := demo_store\<lparr>st_world := v\<rparr>\<rparr>) =
     (Inr (Some (failure 401 ''unauthorized'')), guessed 1 (v + 2))"
  by (simp add: authorize_def Let_def bad_client locked_until_def andThen_def read_state_def guessed_def demo_web_def
      MAX_TOKEN_FAILURES_def LOCKOUT_SECONDS_def ret_def lift_result_def bad_scope record_failure_def demo_time update_state_def
      of_nat_diff)

lemma guesses_ten:
  "m \<le> 10 \<Longrightarrow> guesses demo_deps of_nat ''10.0.0.9'' (guessed 10 (w + m)) ts \<Longrightarrow>
   guesses demo_deps of_nat ''10.0.0.9'' (guessed (10 - m) w) (map of_nat [w ..< w + m] @ ts)"
proof (induction m arbitrary: w)
  case 0
  then show ?case by simp
next
  case (Suc m)
  let ?n = "10 - Suc m"
  have n: "?n < 10" "Suc ?n = 10 - m" using Suc.prems(1) by auto
  have rest: "guesses demo_deps of_nat ''10.0.0.9'' (guessed (Suc ?n) (Suc w)) (map of_nat [Suc w ..< Suc w + m] @ ts)"
    unfolding n(2) by (rule Suc.IH) (use Suc.prems in simp_all)
  have "entry ''10.0.0.9'' (guessed (Suc ?n) (Suc w)) = Some (int (Suc ?n), of_nat w)" by (simp add: entry_def guessed_def)
  from guesses.refused [OF guess_step [OF n(1)] bad_client _ this rest]
  have "guesses demo_deps of_nat ''10.0.0.9'' (guessed ?n w) (of_nat w # map of_nat [Suc w ..< Suc w + m] @ ts)"
    by (simp add: failure_def respond_def)
  moreover have "[w ..< w + Suc m] = w # [Suc w ..< Suc w + m]" by (simp add: upt_conv_Cons)
  ultimately show ?case by (simp del: upt_Suc)
qed


end
