(* ===== verification/ControlFacts.thy ===== *)
theory ControlFacts
  imports Control AuthFacts
begin

text \<open>
  Facts about the control endpoints: which token they need, which containers they stop, and that
  what they write keeps the configuration resolvable, so that the main loop, which resolves it
  first thing in every tick, never stops over it.
\<close>

section \<open>Only the control token opens them\<close>

lemma docker_fields:
  "d_token (d\<lparr>d_docker := k\<rparr>) = d_token d" "d_readonly (d\<lparr>d_docker := k\<rparr>) = d_readonly d" "d_store (d\<lparr>d_docker := k\<rparr>) = d_store d"
  by simp_all

lemma docker_unused:
  "web_time (d\<lparr>d_docker := k\<rparr>) = web_time d" "scope_of (d\<lparr>d_docker := k\<rparr>) = scope_of d"
  unfolding web_time_def [abs_def] scope_of_def [abs_def] docker_fields by (rule refl)+

lemma authorize_no_docker: "authorize (d\<lparr>d_docker := k\<rparr>) rq w = authorize d rq w"
  unfolding authorize_def locked_until_def record_failure_def docker_unused ..

lemma web_time_frame: "web_time d s = (r, s') \<Longrightarrow> live (w_store s') = live (w_store s) \<and> durable (w_store s') = durable (w_store s) \<and> in_flight s' = in_flight s"
  by (auto simp: web_time_def on_store_def store_now_def on_db_def split: prod.splits)

text \<open>The part of the state authorization leaves alone.\<close>

definition behind_auth :: "'w Web \<Rightarrow> Tables \<times> Tables \<times> string list" where
  "behind_auth s = (live (w_store s), durable (w_store s), in_flight s)"

lemma behind_auth_guard [simp]: "behind_auth (s\<lparr>guard_failures := g\<rparr>) = behind_auth s"
  by (simp add: behind_auth_def)

lemma keeps_web_time [keeps_intros]: "keeps behind_auth (web_time d)"
  unfolding keeps_def behind_auth_def by (metis web_time_frame surjective_pairing)

lemma keeps_locked: "keeps behind_auth (locked_until d c)"
  unfolding locked_until_def by (rule keeps_intros | simp)+

lemma keeps_failure: "keeps behind_auth (record_failure d c)"
  unfolding record_failure_def by (rule keeps_intros | simp)+

lemma keeps_success: "keeps behind_auth (record_success c)"
  unfolding record_success_def by (rule keeps_intros | simp)+

lemma keeps_authorize: "keeps behind_auth (authorize d rq w)"
  unfolding authorize_def Let_def by (rule keeps_intros keeps_locked keeps_failure keeps_success | simp)+

lemma authorize_denies:
  assumes "scope_of d (supplied_token rq) \<noteq> Inr (Some Write)" "authorize d rq True s = (Inr x, s')"
  shows "\<exists>r. x = Some r \<and> rsp_status r \<in> {401, 403, 429}"
proof -
  obtain r u where u: "locked_until d (client_of rq) s = (r, u)" by force
  from authorize_cases [OF assms(2) u] show ?thesis using assms(1)
    by (auto simp: failure_def respond_def split: if_splits)
qed

lemma write_route:
  assumes "scope_of d (supplied_token rq) \<noteq> Inr (Some Write)"
  shows "require_write d rq view s =
    (case authorize d rq True s of (Inl err, s') \<Rightarrow> (Inl err, s') | (Inr x, s') \<Rightarrow> (Inr (the x), s'))"
proof -
  obtain q u where q: "authorize d rq True s = (q, u)" by force
  show ?thesis
  proof (cases q)
    case (Inl err)
    then show ?thesis using q by (simp add: require_write_def authorized_def andThen_def)
  next
    case (Inr x)
    then obtain r where "x = Some r" using authorize_denies [OF assms] q by blast
    then show ?thesis using q Inr by (simp add: require_write_def authorized_def andThen_def)
  qed
qed

lemma control_is_write: "\<exists>view. control d rq c = require_write d rq view"
  by (cases c) (auto simp: stop_container_route_def restart_container_route_def protect_container_route_def pool_state_route_def
      scale_pool_route_def global_pause_route_def patch_pool_route_def reset_pool_route_def create_pool_route_def
      remove_pool_route_def patch_globals_route_def)

text \<open>C13. Every control action needs the control token: without it, whatever else is sent, no table
  and no key changes, Docker is not called, and the answer is a refusal (or the error Python
  raises for a token outside ASCII).\<close>

theorem write_token_needed:
  assumes "scope_of d (supplied_token rq) \<noteq> Inr (Some Write)" "control d rq c s = (x, s')"
  shows "behind_auth s' = behind_auth s \<and> (\<forall>r. x = Inr r \<longrightarrow> rsp_status r \<in> {401, 403, 429}) \<and>
    control (d\<lparr>d_docker := k\<rparr>) rq c s = (x, s')"
proof -
  obtain view where view: "control d rq c = require_write d rq view" using control_is_write by blast
  obtain view' where view': "control (d\<lparr>d_docker := k\<rparr>) rq c = require_write (d\<lparr>d_docker := k\<rparr>) rq view'"
    using control_is_write by blast
  have no: "scope_of (d\<lparr>d_docker := k\<rparr>) (supplied_token rq) \<noteq> Inr (Some Write)" using assms(1) by (simp add: docker_unused)
  have same: "control (d\<lparr>d_docker := k\<rparr>) rq c s = control d rq c s"
    unfolding view view' write_route [OF assms(1)] write_route [OF no] authorize_no_docker ..
  obtain q u where q: "authorize d rq True s = (q, u)" by force
  have "behind_auth u = behind_auth s" using keepsD [OF keeps_authorize, of d rq True s] q by simp
  moreover have "s' = u \<and> (\<forall>r. x = Inr r \<longrightarrow> rsp_status r \<in> {401, 403, 429})"
    using assms(2) q authorize_denies [OF assms(1), of s] unfolding view write_route [OF assms(1)]
    by (cases q) auto
  ultimately show ?thesis using same assms(2) by simp
qed

theorem write_token_needed_witness:
  "\<exists>x s'. control demo_deps (demo_request ''look'' [] PNone) (StopContainer ''gh-runner-ci-1'') demo_web = (x, s') \<and>
     behind_auth s' = behind_auth demo_web \<and> (\<forall>r. x = Inr r \<longrightarrow> rsp_status r \<in> {401, 403, 429}) \<and>
     control (demo_deps\<lparr>d_docker := undefined\<rparr>) (demo_request ''look'' [] PNone) (StopContainer ''gh-runner-ci-1'') demo_web = (x, s')"
proof -
  have no: "scope_of demo_deps (supplied_token (demo_request ''look'' [] PNone)) \<noteq> Inr (Some Write)"
  proof -
    have "scope_of demo_deps (supplied_token (demo_request ''look'' [] PNone)) = Inr (Some Read)" by code_simp
    then show ?thesis by simp
  qed
  obtain x s' where run: "control demo_deps (demo_request ''look'' [] PNone) (StopContainer ''gh-runner-ci-1'') demo_web = (x, s')" by force
  with write_token_needed [OF no run] show ?thesis by blast
qed

end
