(* ===== verification/ConfigRows.thy ===== *)
theory ConfigRows
  imports ControlFacts
begin

text \<open>
  The configuration the API writes. \<open>row_good\<close> says of an override row that it can be read back
  and given the types of the pool's fields, or is skipped; with such rows only, resolving the
  configuration raises nothing. Every control action keeps the rows good, whatever the database
  does meanwhile.
\<close>

section \<open>Good rows\<close>

definition data_good :: "'w Deps \<Rightarrow> pyval \<Rightarrow> bool" where
  "data_good d v = (case v of
     PDict fs \<Rightarrow> json_plain (float_repr (d_store d)) v \<and> \<not> isl (coerce_pool_fields (str_rp (d_resolver d)) fs) | _ \<Rightarrow> False)"

definition row_good :: "'w Deps \<Rightarrow> string \<times> OverrideRow \<Rightarrow> bool" where
  "row_good d kr = (case read_override kr of None \<Rightarrow> True | Some (_, po) \<Rightarrow> data_good d (po_data po))"

definition rows_good :: "'w Deps \<Rightarrow> Tables \<Rightarrow> bool" where
  "rows_good d t = list_all (row_good d) (t_pool_overrides t)"

definition store_good :: "'w Deps \<Rightarrow> 'w Store \<Rightarrow> bool" where
  "store_good d s \<longleftrightarrow> rows_good d (live s) \<and> rows_good d (durable s)"

definition web_good :: "'w Deps \<Rightarrow> 'w Web \<Rightarrow> bool" where
  "web_good d s = store_good d (w_store s)"

section \<open>Coercion\<close>

lemma map_result_ok: "(\<not> isl (map_result f xs)) = (\<forall>x\<in>set xs. \<not> isl (f x))"
proof (induction xs)
  case Nil
  show ?case by simp
next
  case (Cons x xs)
  then show ?case by (cases "f x"; cases "map_result f xs") auto
qed

lemma coerce_ok: "(\<not> isl (coerce_pool_fields rp fs)) = (\<forall>(k, v)\<in>set fs. \<not> isl (coerce_value rp k v))"
proof -
  have "\<not> isl (bind_result (coerce_value rp k v) (\<lambda>w. Inr (k, w))) \<longleftrightarrow> \<not> isl (coerce_value rp k v)" for k v
    by (cases "coerce_value rp k v") auto
  then show ?thesis unfolding coerce_pool_fields_def map_result_ok by (auto split: prod.splits)
qed

lemma coerce_again: "coerce_value rp k v = Inr w \<Longrightarrow> \<not> isl (coerce_value rp k w)"
  by (auto simp: coerce_value_def bind_result_Inr_iff split: if_splits)

lemma coerced_ok: "coerce_pool_fields rp fs = Inr cs \<Longrightarrow> (k, w) \<in> set cs \<Longrightarrow> \<not> isl (coerce_value rp k w)"
  unfolding coerce_pool_fields_def
  by (induction fs arbitrary: cs) (auto simp: bind_result_Inr_iff dest: coerce_again)

lemma fold_dict_set_subset: "set (fold (\<lambda>(k, v). dict_set k v) new old) \<subseteq> set old \<union> set new"
proof (induction new arbitrary: old)
  case Nil
  show ?case by simp
next
  case (Cons kv new)
  obtain k v where kv: "kv = (k, v)" by force
  have "set (dict_set k v old) \<subseteq> insert (k, v) (set old)" by (induction old) auto
  then show ?case using Cons [of "dict_set k v old"] kv by auto
qed

lemma dict_update_set: "set (dict_update new old) \<subseteq> set old \<union> set new"
  unfolding dict_update_def by (rule fold_dict_set_subset)

lemma dict_update_distinct: "distinct (map fst old) \<Longrightarrow> distinct (map fst (dict_update new old))"
  unfolding dict_update_def by (induction new arbitrary: old) (auto simp: distinct_dict_set)

lemma update_good:
  assumes "data_good d (PDict old)" "coerce_pool_fields (str_rp (d_resolver d)) b = Inr cs"
    "json_plain (float_repr (d_store d)) (PDict cs)"
  shows "data_good d (PDict (dict_update cs old))"
proof -
  have sub: "set (dict_update cs old) \<subseteq> set old \<union> set cs" by (rule dict_update_set)
  have "distinct (map fst (dict_update cs old))" using assms(1) by (intro dict_update_distinct) (simp add: data_good_def)
  moreover have "\<forall>(k, v)\<in>set (dict_update cs old). json_plain (float_repr (d_store d)) v"
    using assms(1,3) sub by (fastforce simp: data_good_def list_all_iff)
  moreover have "\<forall>(k, v)\<in>set (dict_update cs old). \<not> isl (coerce_value (str_rp (d_resolver d)) k v)"
    using assms(1) sub coerced_ok [OF assms(2)] unfolding data_good_def pyval.case coerce_ok by fastforce
  ultimately show ?thesis unfolding data_good_def pyval.case coerce_ok by (simp add: list_all_iff)
qed

section \<open>Good rows resolve\<close>

lemma set_field_errors: "set_field kv p = Inl err \<Longrightarrow> \<exists>m. err = TypeError m"
  by (auto simp: set_field_def split: prod.splits pyval.splits option.splits if_splits)

lemma set_fields_errors: "set_fields fs p = Inl err \<Longrightarrow> \<exists>m. err = TypeError m"
proof (induction fs arbitrary: p)
  case Nil
  then show ?case by simp
next
  case (Cons kv fs)
  then show ?case by (cases "set_field kv p") (auto dest: set_field_errors)
qed

lemma or_else_set_fields: "\<not> isl (or_else (set_fields fs p) q)"
  using set_fields_errors [of fs p] by (cases "set_fields fs p") (auto simp: or_else_def)

lemma or_else_new_pool: "\<not> isl (or_else (bind_result (new_pool_from name pat fs) f) q)" if "\<And>p. \<not> isl (f p)"
proof (cases "new_pool_from name pat fs")
  case (Inl err)
  then have "\<exists>m. err = TypeError m" by (auto simp: new_pool_from_def dest: set_fields_errors split: if_splits)
  with Inl show ?thesis by (auto simp: or_else_def)
next
  case (Inr p)
  then show ?thesis using that [of p] by (cases "f p") (auto simp: or_else_def)
qed

lemma apply_good: "data_good d v \<Longrightarrow> \<not> isl (apply_override (d_resolver d) base v)"
  using or_else_set_fields
  by (cases v; cases "coerce_pool_fields (str_rp (d_resolver d)) (dict_items v)")
    (auto simp: data_good_def apply_override_def as_items_def Let_def)

lemma build_good: "data_good d v \<Longrightarrow> \<not> isl (build_ui_pool (d_resolver d) name v)"
proof -
  assume g: "data_good d v"
  then obtain fs where v: "v = PDict fs" by (cases v) (auto simp: data_good_def)
  let ?kept = "filter (\<lambda>(k, v). k \<in> set (TUNABLE_FIELDS @ IDENTITY_FIELDS)) fs"
  have "\<not> isl (coerce_pool_fields (str_rp (d_resolver d)) ?kept)"
    using g unfolding v data_good_def pyval.case coerce_ok by auto
  then obtain cs where cs: "coerce_pool_fields (str_rp (d_resolver d)) ?kept = Inr cs" by (cases "coerce_pool_fields (str_rp (d_resolver d)) ?kept") auto
  obtain made where "or_else (bind_result (new_pool_from name (pat_of (d_resolver d) fs) (dict_del ''name'' cs)) (\<lambda>p. Inr (Some p))) None = Inr made"
    using or_else_new_pool [of "\<lambda>p. Inr (Some p)" name "pat_of (d_resolver d) fs" "dict_del ''name'' cs" None]
    by (cases "or_else (bind_result (new_pool_from name (pat_of (d_resolver d) fs) (dict_del ''name'' cs)) (\<lambda>p. Inr (Some p))) None") auto
  then show ?thesis using cs by (simp add: build_ui_pool_def v as_items_def Let_def)
qed

definition entries_good :: "'w Deps \<Rightarrow> (string, PoolOverride) dict \<Rightarrow> bool" where
  "entries_good d ov \<longleftrightarrow> (\<forall>(k, po)\<in>set ov. data_good d (po_data po))"

lemma overlay_bases_good: "entries_good d ov \<Longrightarrow> \<not> isl (overlay_bases (d_resolver d) bs ov)"
proof (induction bs arbitrary: ov)
  case Nil
  then show ?case by simp
next
  case (Cons b bs)
  have del: "entries_good d (dict_del (pool_name b) ov)"
    using Cons.prems set_dict_del [of "pool_name b" ov] by (fastforce simp: entries_good_def)
  show ?case
  proof (cases "map_of ov (pool_name b)")
    case None
    then show ?thesis using Cons.IH [OF Cons.prems] by (cases "overlay_bases (d_resolver d) bs ov") auto
  next
    case (Some en)
    then have "data_good d (po_data en)" using Cons.prems by (auto simp: entries_good_def dest!: map_of_SomeD)
    then have "\<not> isl (apply_override (d_resolver d) b (po_data en))" by (rule apply_good)
    then show ?thesis using Some Cons.IH [OF del]
      by (cases "apply_override (d_resolver d) b (po_data en)"; cases "overlay_bases (d_resolver d) bs (dict_del (pool_name b) ov)")
        (auto simp: Let_def)
  qed
qed

lemma created_pools_good: "entries_good d ov \<Longrightarrow> \<not> isl (created_pools (d_resolver d) ov)"
proof (induction ov)
  case Nil
  then show ?case by simp
next
  case (Cons kv ov)
  obtain k po where kv: "kv = (k, po)" by force
  have "\<not> isl (build_ui_pool (d_resolver d) k (po_data po))" "\<not> isl (created_pools (d_resolver d) ov)"
    using Cons kv build_good [of d "po_data po" k] by (auto simp: entries_good_def)
  then show ?case using kv
    by (cases "build_ui_pool (d_resolver d) k (po_data po)"; cases "created_pools (d_resolver d) ov") auto
qed

lemma overlay_good: "entries_good d ov \<Longrightarrow> \<not> isl (overlay (d_resolver d) ov)"
proof -
  assume g: "entries_good d ov"
  obtain ps rest where b: "overlay_bases (d_resolver d) (base_pools (d_resolver d)) ov = Inr (ps, rest)"
    using overlay_bases_good [OF g, of "base_pools (d_resolver d)"]
    by (cases "overlay_bases (d_resolver d) (base_pools (d_resolver d)) ov") auto
  have "entries_good d rest" using g overlay_bases_keys [OF b] by (auto simp: entries_good_def)
  from created_pools_good [OF this] show ?thesis by (cases "created_pools (d_resolver d) rest") (auto simp: overlay_def b)
qed

lemma override_rows_good: "rows_good d t \<Longrightarrow> entries_good d (override_rows t)"
proof -
  assume g: "rows_good d t"
  have "set (override_rows t) \<subseteq> set (List.map_filter read_override (t_pool_overrides t))"
    unfolding override_rows_def using fold_dict_set_subset [of "List.map_filter read_override (t_pool_overrides t)" "[]"] by simp
  moreover have "data_good d (po_data po)" if "(k, po) \<in> set (List.map_filter read_override (t_pool_overrides t))" for k po
  proof -
    from that have "\<exists>kr\<in>set (t_pool_overrides t). read_override kr = Some (k, po)" by (simp only: in_map_filter)
    then obtain kr where kr: "kr \<in> set (t_pool_overrides t)" "read_override kr = Some (k, po)" by blast
    from g kr(1) have "row_good d kr" by (simp add: rows_good_def list_all_iff)
    then show ?thesis by (simp add: row_good_def kr(2))
  qed
  ultimately show ?thesis by (auto simp: entries_good_def)
qed

lemma good_rows_resolve: "rows_good d t \<Longrightarrow> \<not> isl (config_of (d_resolver d) t)"
  using overlay_good [OF override_rows_good, of d t]
  by (cases "overlay (d_resolver d) (override_rows t)") (auto simp: config_of_def Let_def)

section \<open>What keeps the rows good\<close>

named_theorems good_intros "store operations that keep the override rows good"

lemma good_write: "(\<And>t. rows_good d t \<Longrightarrow> rows_good d (f t)) \<Longrightarrow> preserves (store_good d) (store_write e f)"
proof (rule preservesI)
  fix s :: "'a Store"
  assume s: "store_good d s" and f: "\<And>t. rows_good d t \<Longrightarrow> rows_good d (f t)"
  obtain r s' where run: "store_write e f s = (r, s')" by force
  note w = write_outcomes [OF run]
  have "rows_good d (live s')" using w s f [of "live s"] f [of "durable s"] by (auto simp only: store_good_def)
  then show "store_good d (snd (store_write e f s))" using w s run by (auto simp only: store_good_def snd_conv)
qed

lemma good_read [good_intros]: "preserves (store_good d) (store_read e q)"
proof (rule preservesI)
  fix s :: "'a Store"
  assume s: "store_good d s"
  obtain r s' where run: "store_read e q s = (r, s')" by force
  from read_outcomes [OF run] s show "store_good d (snd (store_read e q s))"
    unfolding run by (auto simp only: store_good_def snd_conv)
qed

lemma good_now [good_intros]: "preserves (store_good d) (store_now e)"
  by (auto simp: preserves_def store_now_def on_db_def store_good_def split: prod.splits)

lemma good_write_other [good_intros]:
  "(\<And>t. t_pool_overrides (f t) = t_pool_overrides t) \<Longrightarrow> preserves (store_good d) (store_write e f)"
  by (rule good_write) (simp add: rows_good_def)

lemma good_audit [good_intros]: "preserves (store_good d) (store_audit e a b c x)"
  unfolding store_audit_def by (intro preserves_intros good_intros) simp

lemma good_global [good_intros]: "preserves (store_good d) (set_global e k v)"
  unfolding set_global_def by (intro preserves_intros good_intros) simp

lemma good_pool_state [good_intros]: "preserves (store_good d) (set_pool_state e p a b)"
  unfolding set_pool_state_def by (intro good_intros) simp

lemma good_protected [good_intros]: "preserves (store_good d) (set_protected e c b)"
  unfolding set_protected_def by (intro preserves_intros good_intros) simp_all

lemma good_remember [good_intros]: "preserves (store_good d) (remember_response e k r)"
  unfolding remember_response_def by (intro preserves_intros good_intros) simp

lemma good_lookup [good_intros]: "preserves (store_good d) (idempotent_response e k)"
  unfolding idempotent_response_def by (intro good_intros)

lemma good_status [good_intros]: "preserves (store_good d) (runner_status_view e)"
  unfolding runner_status_view_def by (intro good_intros)

lemma good_overrides [good_intros]: "preserves (store_good d) (pool_overrides e)"
  unfolding pool_overrides_def by (intro preserves_intros good_intros)

lemma good_resolve [good_intros]: "preserves (store_good d) (resolve_store e r)"
  unfolding resolve_store_def global_overrides_def pool_states_def protected_containers_def
  by (intro preserves_intros good_intros)

lemma good_delete [good_intros]: "preserves (store_good d) (delete_pool_override e p)"
  unfolding delete_pool_override_def
  by (rule good_write) (use set_dict_del in \<open>fastforce simp: rows_good_def list_all_iff\<close>)

lemma row_good_dumps:
  "data_good d v \<Longrightarrow> row_good d (k, \<lparr>ov_data = dumps (float_repr (d_store d)) v, ov_origin = og, ov_disabled = n, ov_updated_at = ts\<rparr>)"
proof -
  assume g: "data_good d v"
  then have "json_plain (float_repr (d_store d)) v" by (cases v) (simp_all add: data_good_def)
  then have "loads (dumps (float_repr (d_store d)) v) = Inr v" by (rule loads_dumps)
  then show ?thesis using g by (simp add: row_good_def read_override_def del: dumps.simps)
qed

lemma good_set_override:
  assumes "data_good d v"
  shows "preserves (store_good d) (set_pool_override (d_store d) p v og dis)"
proof -
  have "rows_good d (t\<lparr>t_pool_overrides := dict_set p
      \<lparr>ov_data = dumps (float_repr (d_store d)) v, ov_origin = og, ov_disabled = bool_int dis, ov_updated_at = now\<rparr> (t_pool_overrides t)\<rparr>)"
    if "rows_good d t" for t now
    using that row_good_dumps [OF assms] set_dict_set_subset unfolding rows_good_def list_all_iff by fastforce
  then show ?thesis unfolding set_pool_override_def by (intro preserves_intros good_intros good_write)
qed

section \<open>Control actions\<close>

lemma good_on_store: "preserves (store_good d) m \<Longrightarrow> preserves (web_good d) (on_store m)"
  by (auto simp: preserves_def web_good_def on_store_def split: prod.splits)

named_theorems web_intros "request handling keeps the override rows good"

lemma good_web_time [web_intros]: "preserves (web_good d) (web_time x)"
  unfolding web_time_def by (intro good_on_store good_intros)

lemma good_web_audit [web_intros]: "preserves (web_good d) (web_audit x rq a b c)"
  unfolding web_audit_def by (intro good_on_store good_intros)

lemma good_web_resolve [web_intros]: "preserves (web_good d) (web_resolve x)"
  unfolding web_resolve_def by (intro good_on_store good_intros)

lemma good_pool_by_name [web_intros]: "preserves (web_good d) (pool_by_name x name)"
  unfolding pool_by_name_def by (intro preserves_intros good_on_store good_intros)

lemma good_guard [simp]: "web_good d (s\<lparr>guard_failures := g\<rparr>) = web_good d s" "web_good d (s\<lparr>in_flight := k\<rparr>) = web_good d s"
    "web_good d (release_key x s) = web_good d s"
  by (simp_all add: web_good_def release_key_def)

lemma good_authorize [web_intros]: "preserves (web_good d) (authorize x rq w)"
  unfolding authorize_def locked_until_def record_failure_def record_success_def Let_def
  by (rule preserves_intros web_intros preserves_prod | simp)+

lemma good_require_write [web_intros]: "preserves (web_good d) v \<Longrightarrow> preserves (web_good d) (require_write x rq v)"
  unfolding require_write_def authorized_def by (rule preserves_intros web_intros | assumption)+

lemma good_ensure: "preserves (web_good d) m \<Longrightarrow> preserves (web_good d) (ensure m (release_key k))"
  by (simp add: preserves_def)

lemma good_idempotent [web_intros]: "preserves (web_good d) v \<Longrightarrow> preserves (web_good d) (idempotent x rq v)"
  unfolding idempotent_def run_and_remember_def claim_key_def Let_def
  by (rule preserves_intros good_ensure good_on_store good_intros | assumption | simp)+

text \<open>What JSON can carry: the body, and what the body is coerced to.\<close>

definition plain_request :: "'w Deps \<Rightarrow> Request \<Rightarrow> bool" where
  "plain_request d rq \<longleftrightarrow> json_plain (float_repr (d_store d)) (PDict (json_body rq)) \<and>
     (case coerce_pool_fields (str_rp (d_resolver d)) (json_body rq) of
        Inr cs \<Rightarrow> json_plain (float_repr (d_store d)) (PDict cs) | Inl _ \<Rightarrow> True)"

text \<open>The Docker client leaves the override rows alone; it only records events.\<close>

definition docker_good :: "'w Deps \<Rightarrow> bool" where
  "docker_good d \<longleftrightarrow> (\<forall>p. preserves (store_good d) (sd_spawn (d_docker d) p)) \<and>
     (\<forall>c. preserves (store_good d) (sd_stop (d_docker d) c)) \<and> (\<forall>c. preserves (store_good d) (sd_details (d_docker d) c))"

lemma good_docker:
  assumes "docker_good d"
  shows "preserves (web_good d) (on_docker (sd_spawn (d_docker d) p))" "preserves (web_good d) (on_docker (sd_stop (d_docker d) c))"
    "preserves (web_good d) (on_docker (sd_details (d_docker d) c))"
  using assms by (simp_all add: on_docker_def good_on_store docker_good_def)

lemma stop_good: "docker_good d \<Longrightarrow> preserves (web_good d) (stop_view d rq name action)"
  unfolding stop_view_def Let_def by (rule preserves_intros web_intros good_docker good_on_store good_intros | assumption)+

lemma protect_good: "preserves (web_good d) (protect_view d rq name)"
  unfolding protect_view_def Let_def by (rule preserves_intros web_intros good_on_store good_intros)+

lemma pool_state_good: "preserves (web_good d) (pool_state_view d rq name)"
  unfolding pool_state_view_def Let_def by (rule preserves_intros web_intros good_on_store good_intros)+

lemma scale_good: "docker_good d \<Longrightarrow> preserves (web_good d) (scale_view d rq name)"
proof -
  assume d: "docker_good d"
  have step: "preserves (web_good d) (scale_by d rq name p n)" for p n
    unfolding scale_by_def idle_container_def Let_def
    by (rule preserves_intros web_intros good_docker good_on_store good_intros d)+
  have "preserves (web_good d) (case py_int_of v of Inl (TypeError _) \<Rightarrow> ret (failure 400 ''delta must be an integer'')
      | Inl (ValueError _) \<Rightarrow> ret (failure 400 ''delta must be an integer'') | Inl err \<Rightarrow> raise_error err
      | Inr delta \<Rightarrow> scale_by d rq name p delta)" for v p
    by (auto split: sum.split py_error.split intro: preserves_intros step)
  then show ?thesis unfolding scale_view_def by (intro preserves_intros web_intros) 
qed

lemma pause_good: "preserves (web_good d) (pause_view d rq)"
  unfolding pause_view_def Let_def by (rule preserves_intros web_intros good_on_store good_intros)+

lemma reset_good: "preserves (web_good d) (reset_pool_view d rq name)"
  unfolding reset_pool_view_def by (rule preserves_intros web_intros good_on_store good_intros)+

lemma apply_globals_good: "preserves (web_good d) (apply_globals d b)"
proof (induction b)
  case Nil
  show ?case unfolding apply_globals.simps by (rule preserves_ret)
next
  case (Cons kv b)
  obtain k v where kv: "kv = (k, v)" by force
  show ?case unfolding kv apply_globals.simps
    by (auto split: sum.split py_error.split intro!: preserves_intros good_on_store good_intros Cons)
qed

lemma globals_good: "preserves (web_good d) (patch_globals_view d rq)"
  unfolding patch_globals_view_def Let_def by (rule preserves_intros web_intros apply_globals_good)+

section \<open>Actions that write a row\<close>

lemma overrides_read: "web_good d s \<Longrightarrow> web_overrides d s = (Inr ov, s') \<Longrightarrow> entries_good d ov \<and> web_good d s'"
proof -
  assume s: "web_good d s" and run: "web_overrides d s = (Inr ov, s')"
  obtain r u where u: "store_read (d_store d) t_pool_overrides (w_store s) = (r, u)" by force
  have good: "store_good d u" using preservesD [OF good_read] s u unfolding web_good_def by (metis snd_conv)
  from run u obtain rs where r: "r = Inr rs" "ov = fold (\<lambda>(k, v). dict_set k v) (List.map_filter read_override rs) []" "w_store s' = u"
    by (cases r) (auto simp: web_overrides_def pool_overrides_def on_store_def andThen_def)
  from read_outcomes [OF u] r(1) have "rs = t_pool_overrides (live u)" by simp
  with r(2) have "ov = override_rows (live u)" by (simp add: override_rows_def)
  then show ?thesis using override_rows_good good r(3) by (auto simp: store_good_def web_good_def)
qed

lemma saved_good: "data_good d v \<Longrightarrow> preserves (web_good d) (on_store (set_pool_override (d_store d) p v og dis))"
  by (intro good_on_store good_set_override)

lemma checked_save_good: "data_good d (PDict fs) \<Longrightarrow> preserves (web_good d) (checked_save d rq name fs og bad act det r)"
  unfolding checked_save_def save_override_def by (rule preserves_intros web_intros saved_good | assumption)+

lemma candidate_coerces:
  "candidate_pool d name fs ''ui'' = Inr (Some p) \<Longrightarrow> \<not> isl (coerce_pool_fields (str_rp (d_resolver d)) (filter (\<lambda>(k, v). k \<noteq> ''pat_env'') fs))"
  by (auto simp: candidate_pool_def Let_def bind_result_Inr_iff split: if_splits)

text \<open>The data a \<open>PATCH\<close> starts from.\<close>

lemma old_data_good:
  assumes "entries_good d ov" "(case map_of ov name of None \<Rightarrow> Inr [] | Some x \<Rightarrow> dict_of (po_data x)) = Inr old"
  shows "data_good d (PDict old)"
proof (cases "map_of ov name")
  case None
  then show ?thesis using assms(2) by (simp add: data_good_def coerce_pool_fields_def)
next
  case (Some x)
  then have "data_good d (po_data x)" using assms(1) by (auto simp: entries_good_def dest: map_of_SomeD)
  then show ?thesis using assms(2) Some by (cases "po_data x") (auto simp: data_good_def)
qed

lemma patch_good:
  assumes "plain_request d rq"
  shows "preserves (web_good d) (patch_pool_view d rq name)"
proof -
  have save: "preserves (web_good d) (case coerce_pool_fields (str_rp (d_resolver d)) (json_body rq) of
      Inl (TypeError m) \<Rightarrow> ret (failure 400 (''invalid value: '' @ m)) | Inl (ValueError m) \<Rightarrow> ret (failure 400 (''invalid value: '' @ m))
    | Inl err \<Rightarrow> raise_error err
    | Inr coerced \<Rightarrow> checked_save d rq name (dict_update coerced old) og bad act det (r coerced))"
    if "data_good d (PDict old)" for old og bad act det r
    using assms that unfolding plain_request_def
    by (auto split: sum.split py_error.split intro!: preserves_intros checked_save_good update_good)
  show ?thesis unfolding patch_pool_view_def Let_def
    apply (intro preserves_if preserves_ret preserves_andThen_dep)
    subgoal by (simp add: web_overrides_def good_on_store good_overrides)
    subgoal for s ov s'
      apply (drule (1) overrides_read)
      apply (rule preservesD [where I = "web_good d"])
       apply (intro preserves_if preserves_ret preserves_andThen_dep preserves_lift)
       apply (auto simp: lift_result_def intro!: preservesD [OF save] old_data_good)
      done
    done
qed

lemma created_data_good:
  assumes "plain_request d rq" "candidate_pool d name (dict_del ''name'' (json_body rq)) ''ui'' = Inr (Some p)"
  shows "data_good d (PDict (dict_del ''name'' (json_body rq)))"
proof -
  let ?fs = "dict_del ''name'' (json_body rq)"
  have sub: "set ?fs \<subseteq> set (json_body rq)" using set_dict_del by fastforce
  have "distinct (map fst ?fs)" using assms(1) by (simp add: plain_request_def distinct_dict_del)
  moreover have "\<forall>(k, v)\<in>set ?fs. json_plain (float_repr (d_store d)) v"
    using assms(1) sub by (fastforce simp: plain_request_def list_all_iff)
  moreover have "\<not> isl (coerce_value (str_rp (d_resolver d)) k v)" if kv: "(k, v) \<in> set ?fs" for k v
  proof (cases "k = ''pat_env''")
    case True
    then show ?thesis by (simp add: coerce_value_def NUMERIC_INT_def)
  next
    case False
    then show ?thesis using candidate_coerces [OF assms(2)] kv unfolding coerce_ok by auto
  qed
  ultimately show ?thesis unfolding data_good_def pyval.case coerce_ok by (simp add: list_all_iff split_beta)
qed

lemma create_good:
  assumes "plain_request d rq"
  shows "preserves (web_good d) (create_pool_view d rq)"
proof -
  have "preserves (web_good d) (checked_save d rq name (dict_del ''name'' (json_body rq)) ''ui'' bad act det r)" for name bad act det r
    unfolding checked_save_def save_override_def
  proof (rule preserves_andThen_dep [OF preserves_lift])
    fix s c s'
    assume s: "web_good d s" and c: "lift_result (candidate_pool d name (dict_del ''name'' (json_body rq)) ''ui'') s = (Inr c, s')"
    show "web_good d (snd ((case candidate_error bad c of Some err \<Rightarrow> ret err
      | None \<Rightarrow> andThen (on_store (set_pool_override (d_store d) name (PDict (dict_del ''name'' (json_body rq))) ''ui'' False))
          (\<lambda>_. andThen (web_audit d rq act name det) (\<lambda>_. ret r))) s'))"
    proof (cases "candidate_error bad c")
      case None
      then obtain p where "c = Some p" by (cases c) (auto simp: candidate_error_def)
      with c have cand: "candidate_pool d name (dict_del ''name'' (json_body rq)) ''ui'' = Inr (Some p)" and s': "s' = s"
        by (auto simp: lift_result_def)
      show ?thesis unfolding None option.case s'
        by (rule preservesD [where I = "web_good d"]) (rule preserves_intros s web_intros saved_good created_data_good [OF assms cand])+
    next
      case (Some err)
      then show ?thesis using c s by (auto simp: lift_result_def)
    qed
  qed
  then show ?thesis unfolding create_pool_view_def Let_def by (intro preserves_intros web_intros)
qed

lemma remove_good: "preserves (web_good d) (remove_pool_view d rq name)"
proof -
  have data: "data_good d (case map_of ov name of None \<Rightarrow> PDict [] | Some x \<Rightarrow> po_data x)" if "entries_good d ov" for ov
    using that by (cases "map_of ov name") (auto simp: entries_good_def data_good_def coerce_pool_fields_def dest: map_of_SomeD)
  have del: "preserves (web_good d) (on_store (delete_pool_override (d_store d) name))" by (rule good_on_store [OF good_delete])
  show ?thesis unfolding remove_pool_view_def Let_def
  proof (rule preserves_andThen_dep)
    show "preserves (web_good d) (web_overrides d)" by (simp add: web_overrides_def good_on_store good_overrides)
  next
    fix s ov s'
    assume "web_good d s" "web_overrides d s = (Inr ov, s')"
    then have ov: "entries_good d ov" "web_good d s'" using overrides_read by blast+
    note save = saved_good [OF data [OF ov(1)]]
    show "web_good d (snd ((if (case map_of ov name of None \<Rightarrow> False | Some x \<Rightarrow> po_origin x = ''ui'')
        then andThen (on_store (delete_pool_override (d_store d) name)) (\<lambda>_. andThen (web_audit d rq ''config_remove_pool'' name [])
          (\<lambda>_. ret (ok_response [(''pool'', PStr name), (''removed'', PBool True)])))
        else if base_pool d name \<noteq> None
        then andThen (on_store (set_pool_override (d_store d) name (case map_of ov name of None \<Rightarrow> PDict [] | Some x \<Rightarrow> po_data x) ''yaml'' True))
          (\<lambda>_. andThen (web_audit d rq ''config_remove_pool'' name []) (\<lambda>_. ret (ok_response [(''pool'', PStr name), (''removed'', PBool True)])))
        else ret (unknown_pool name)) s'))"
      by (rule preservesD [where I = "web_good d"]) (rule preserves_if ov(2) del save preserves_andThen preserves_ret web_intros)+
  qed
qed

lemma control_good:
  assumes "plain_request d rq" "docker_good d"
  shows "preserves (web_good d) (control d rq c)"
  by (cases c) (simp_all add: stop_container_route_def restart_container_route_def protect_container_route_def pool_state_route_def
      scale_pool_route_def global_pause_route_def patch_pool_route_def reset_pool_route_def create_pool_route_def
      remove_pool_route_def patch_globals_route_def serialized_def good_require_write good_idempotent assms
      stop_good protect_good pool_state_good scale_good pause_good patch_good reset_good create_good remove_good globals_good)

text \<open>C15. No control action leaves an override the resolver chokes on: from rows that can be read
  and coerced, whatever a request does and however the database and Docker behave, the rows in
  sight and the committed rows can still be read and coerced, and the configuration they give
  resolves. The main loop resolves it outside any exception handler.\<close>

theorem control_keeps_config_resolvable:
  assumes "plain_request d rq" "docker_good d" "web_good d s" "control d rq c s = (x, s')"
  shows "web_good d s' \<and> (\<exists>cfg. config_of (d_resolver d) (live (w_store s')) = Inr cfg) \<and>
    (\<exists>cfg. config_of (d_resolver d) (durable (w_store s')) = Inr cfg)"
proof -
  have good: "web_good d s'" using preservesD [OF control_good [OF assms(1,2)] assms(3), of c] assms(4) by simp
  then have rows: "rows_good d (live (w_store s'))" "rows_good d (durable (w_store s'))" by (auto simp: web_good_def store_good_def)
  have "\<exists>cfg. config_of (d_resolver d) t = Inr cfg" if "rows_good d t" for t
    using good_rows_resolve [OF that] by (cases "config_of (d_resolver d) t") auto
  with rows good show ?thesis by blast
qed

definition demo_patch :: Request where
  "demo_patch = demo_request ''secret'' [] (PDict [(''max_runners'', PStr ''7''), (''runner_labels'', PStr ''linux'')])"

theorem control_keeps_config_resolvable_witness:
  "\<exists>x s'. control demo_deps demo_patch (PatchPool ''ci'') demo_web = (x, s') \<and>
     list_all (\<lambda>(k, v). k = ''ci'' \<and> loads (ov_data v) = Inr (PDict [(''max_runners'', PInt 7), (''runner_labels'', PStr ''linux'')]))
       (t_pool_overrides (durable (w_store s'))) \<and> t_pool_overrides (durable (w_store s')) \<noteq> [] \<and> web_good demo_deps s' \<and>
     (\<exists>cfg. config_of (d_resolver demo_deps) (live (w_store s')) = Inr cfg) \<and>
     (\<exists>cfg. config_of (d_resolver demo_deps) (durable (w_store s')) = Inr cfg)"
proof -
  have b: "json_body demo_patch = [(''max_runners'', PStr ''7''), (''runner_labels'', PStr ''linux'')]" by code_simp
  have "coerce_pool_fields (str_rp (d_resolver demo_deps)) (json_body demo_patch) =
      Inr [(''max_runners'', PInt 7), (''runner_labels'', PStr ''linux'')]" by code_simp
  then have plain: "plain_request demo_deps demo_patch" by (simp add: plain_request_def b)
  have docker: "docker_good demo_deps" by (simp add: docker_good_def demo_deps_def preserves_ret del: ret_def)
  have good: "web_good demo_deps demo_web" by (simp add: web_good_def store_good_def rows_good_def demo_web_def demo_store_def empty_tables_def)
  obtain x s' where run: "control demo_deps demo_patch (PatchPool ''ci'') demo_web = (x, s')" by force
  have "list_all (\<lambda>(k, v). k = ''ci'' \<and> loads (ov_data v) = Inr (PDict [(''max_runners'', PInt 7), (''runner_labels'', PStr ''linux'')]))
       (t_pool_overrides (durable (w_store (snd (control demo_deps demo_patch (PatchPool ''ci'') demo_web))))) \<and>
      t_pool_overrides (durable (w_store (snd (control demo_deps demo_patch (PatchPool ''ci'') demo_web)))) \<noteq> []" by code_simp
  with control_keeps_config_resolvable [OF plain docker good run] run show ?thesis by auto
qed

end
