(* ===== verification/PayloadFacts.thy ===== *)
theory PayloadFacts
  imports Payloads StoreFacts
begin

text \<open>
  Facts about the payloads: which pool a repository's snapshot is shown under, and the numbers of
  a pool without a tick of its own.
\<close>

definition claims :: "string list \<Rightarrow> string \<Rightarrow> string \<Rightarrow> bool" where
  "claims names key name \<longleftrightarrow> name \<in> set names \<and> starts_with key (name @ ''-'') \<and>
     list_all (\<lambda>n. starts_with key (n @ ''-'') \<longrightarrow> length n \<le> length name) names"

lemma find_sorted_first:
  assumes "sorted (map f xs)"
  shows "find P xs = Some y \<Longrightarrow> y \<in> set xs \<and> P y \<and> (\<forall>x\<in>set xs. P x \<longrightarrow> f y \<le> f x)"
  using assms by (induction xs) (auto split: if_splits)

lemma parent_claims: "parent_pool (longest_first names) key = Some n \<Longrightarrow> claims names key n"
  using find_sorted_first [of "\<lambda>n. - int (length n)" "longest_first names" "\<lambda>name. starts_with key (name @ ''-'')" n]
  by (auto simp: parent_pool_def longest_first_def claims_def list_all_iff)

lemma claims_unique: "claims names key a \<Longrightarrow> claims names key b \<Longrightarrow> a = b"
proof -
  assume a: "claims names key a" and b: "claims names key b"
  then have "length a = length b" by (auto simp: claims_def list_all_iff intro: order_antisym)
  moreover have "prefix (a @ ''-'') key" "prefix (b @ ''-'') key" using a b by (auto simp: claims_def)
  ultimately show "a = b" by (metis append_eq_append_conv prefix_def append.assoc)
qed

lemma parent_pool_iff: "parent_pool (longest_first names) key = Some n \<longleftrightarrow> claims names key n"
proof
  assume c: "claims names key n"
  then have "parent_pool (longest_first names) key \<noteq> None"
    by (auto simp: parent_pool_def longest_first_def claims_def find_None_iff)
  then obtain m where m: "parent_pool (longest_first names) key = Some m" by blast
  from claims_unique [OF parent_claims [OF m] c] m show "parent_pool (longest_first names) key = Some n" by simp
qed (rule parent_claims)

lemma attach_keys: "dom (map_of (attach names s d)) = dom (map_of d) \<union>
    (case s of (key, _) \<Rightarrow> if map_of d key = None then set_option (parent_pool names key) else {})"
  by (auto simp: attach_def split: prod.splits option.splits if_splits)

lemma fold_attach:
  assumes "dom (map_of d) = set names"
  shows "name \<in> set names \<Longrightarrow> map_of (fold (attach (longest_first names)) snaps d) name =
    Some (dict_get d name [] @ map snd (filter (\<lambda>(key, _). key \<notin> set names \<and> claims names key name) snaps))"
  using assms
proof (induction snaps arbitrary: d)
  case Nil
  then have "map_of d name \<noteq> None" by (metis domIff)
  then show ?case by auto
next
  case (Cons s snaps)
  obtain key r where s: "s = (key, r)" by force
  have member: "map_of d key = None \<longleftrightarrow> key \<notin> set names" using Cons.prems(2) by (metis domIff)
  have parent: "x \<in> set names" if "parent_pool (longest_first names) key = Some x" for x
    using parent_claims [OF that] by (simp add: claims_def)
  have keys: "dom (map_of (attach (longest_first names) s d)) = set names"
    unfolding attach_keys Cons.prems(2) using parent s by (auto simp: member split: option.splits)
  have "dict_get (attach (longest_first names) s d) name [] =
      dict_get d name [] @ (if key \<notin> set names \<and> claims names key name then [r] else [])"
    using member by (auto simp: s attach_def parent_pool_iff split: option.splits) (auto simp flip: parent_pool_iff)
  then show ?case using Cons.IH [OF Cons.prems(1) keys] s by simp
qed

lemma empty_children:
  "map_of (fold (\<lambda>n. dict_set n []) names d) name = (if name \<in> set names then Some [] else map_of d name)"
  by (induction names arbitrary: d) auto

text \<open>Every repository's numbers are shown under one pool: the snapshots attached to a pool are
  exactly those that are no pool's own and whose name extends the pool's by a dash, where no pool
  with a longer name could claim them, in the order of their names.\<close>

lemma snapshots_grouped:
  assumes "name \<in> set names"
  shows "map_of (group_snapshots names snapshots) name =
    Some (sort_key (\<lambda>r. ts_pool (tr_tick r))
      (map snd (filter (\<lambda>(key, _). key \<notin> set names \<and> claims names key name) snapshots)))"
proof -
  let ?d = "fold (\<lambda>n. dict_set n []) names []"
  have "dom (map_of ?d) = set names" "dict_get ?d name [] = []" using assms by (auto simp: empty_children split: if_splits)
  note grouped = fold_attach [OF this(1) assms, of snapshots, unfolded this(2) append_Nil]
  show ?thesis unfolding group_snapshots_def by (simp add: map_of_map grouped)
qed

definition demo_tick :: "string \<Rightarrow> int \<Rightarrow> TickRow" where
  "demo_tick pool n =
     \<lparr>tr_ts = 5, tr_tick = \<lparr>ts_pool = pool, ts_display = pool, ts_containers = n, ts_online = n, ts_idle = 0, ts_busy = n,
        ts_queued = 0, ts_duration = 2\<rparr>\<rparr>"

lemma snapshots_grouped_witness:
  "map_of (group_snapshots [''me'', ''me-web''] [(''me-web-b'', demo_tick ''me-web-b'' 1), (''me-web'', demo_tick ''me-web'' 2),
      (''me-web-a'', demo_tick ''me-web-a'' 3), (''me-api'', demo_tick ''me-api'' 4)]) ''me-web'' =
    Some [demo_tick ''me-web-a'' 3, demo_tick ''me-web-b'' 1]"
proof -
  have "sort_key (\<lambda>r. ts_pool (tr_tick r)) (map snd (filter (\<lambda>(key, _). key \<notin> set [''me'', ''me-web''] \<and> claims [''me'', ''me-web''] key ''me-web'')
      [(''me-web-b'', demo_tick ''me-web-b'' 1), (''me-web'', demo_tick ''me-web'' 2), (''me-web-a'', demo_tick ''me-web-a'' 3),
       (''me-api'', demo_tick ''me-api'' 4)])) = [demo_tick ''me-web-a'' 3, demo_tick ''me-web-b'' 1]" by code_simp
  then show ?thesis using snapshots_grouped [of "''me-web''" "[''me'', ''me-web'']"] by simp
qed

end
