(* ===== verification/ReadFacts.thy ===== *)
theory ReadFacts
  imports ReadRoutes ControlFacts PayloadFacts
begin

text \<open>
  Facts about the read endpoints: they leave the tables alone, the logs they give are those of
  runners, and the dashboard's cookie.
\<close>

section \<open>Reading only looks\<close>

text \<open>\<open>seen D L ks s\<close>: the committed tables are \<open>D\<close>, and those in sight are \<open>L\<close> or, after a reconnect,
  the committed ones.\<close>

definition store_seen :: "Tables \<Rightarrow> Tables \<Rightarrow> 'w Store \<Rightarrow> bool" where
  "store_seen D L s \<longleftrightarrow> durable s = D \<and> live s \<in> {L, D}"

definition seen :: "Tables \<Rightarrow> Tables \<Rightarrow> string list \<Rightarrow> 'w Web \<Rightarrow> bool" where
  "seen D L ks s \<longleftrightarrow> store_seen D L (w_store s) \<and> in_flight s = ks"

named_theorems look_intros "operations that only look at the tables"

lemma look_read [look_intros]: "preserves (store_seen D L) (store_read e q)"
proof (rule preservesI)
  fix s :: "'a Store"
  assume s: "store_seen D L s"
  obtain r s' where run: "store_read e q s = (r, s')" by force
  from read_outcomes [OF run] s show "store_seen D L (snd (store_read e q s))"
    unfolding run by (auto simp: store_seen_def)
qed

lemma look_now [look_intros]: "preserves (store_seen D L) (store_now e)"
  by (auto simp: preserves_def store_now_def on_db_def store_seen_def split: prod.splits)

lemmas store_lookers = latest_snapshots_def snapshots_since_def event_counts_since_def recent_events_def recent_audit_def
  recent_jobs_def jobs_by_runner_def runner_status_view_def pool_overrides_def global_overrides_def pool_states_def
  protected_containers_def resolve_store_def history_rows_def history_counts_def Let_def

lemma look_store [look_intros]:
  "preserves (store_seen D L) (latest_snapshots e)" "preserves (store_seen D L) (snapshots_since e h)"
  "preserves (store_seen D L) (event_counts_since e h)" "preserves (store_seen D L) (recent_events e n)"
  "preserves (store_seen D L) (recent_audit e n)" "preserves (store_seen D L) (recent_jobs e n)"
  "preserves (store_seen D L) (jobs_by_runner e)" "preserves (store_seen D L) (runner_status_view e)"
  "preserves (store_seen D L) (pool_overrides e)" "preserves (store_seen D L) (resolve_store e r)"
  unfolding store_lookers by (intro preserves_intros look_intros)+

lemma look_history [look_intros]:
  "preserves (store_seen D L) (history_rows e f)" "preserves (store_seen D L) (history_counts e f)"
  by (cases f; simp add: history_rows_def history_counts_def; intro preserves_intros look_intros)+

lemma seen_on_store: "preserves (store_seen D L) m \<Longrightarrow> preserves (seen D L ks) (on_store m)"
  by (auto simp: preserves_def seen_def on_store_def split: prod.splits)

text \<open>What the views use beside the store: Docker's listings and logs, the rate limit, the host.\<close>

definition outside_looks :: "'w Deps \<Rightarrow> bool" where
  "outside_looks d \<longleftrightarrow> (\<forall>D L. preserves (store_seen D L) (rate_limit_op d) \<and> preserves (store_seen D L) (host_state_op d) \<and>
     (\<forall>c. preserves (store_seen D L) (sd_details (d_docker d) c)) \<and> (\<forall>c n. preserves (store_seen D L) (sd_logs (d_docker d) c n)))"

lemma outsideD:
  assumes "outside_looks d"
  shows "preserves (store_seen D L) (rate_limit_op d)" "preserves (store_seen D L) (host_state_op d)"
    "preserves (store_seen D L) (sd_details (d_docker d) c)" "preserves (store_seen D L) (sd_logs (d_docker d) c n)"
  using assms by (auto simp: outside_looks_def)

lemma look_authorize: "preserves (seen D L ks) (authorize d rq w)"
  by (rule keeps_preserves [OF keeps_authorize, where J = "\<lambda>(l, u, ks'). u = D \<and> l \<in> {L, D} \<and> ks' = ks"])
    (auto simp: behind_auth_def seen_def store_seen_def)

lemma look_time [look_intros]: "preserves (seen D L ks) (web_time d)"
  unfolding web_time_def by (intro seen_on_store look_intros)

lemma look_view:
  assumes "outside_looks d"
  shows "preserves (seen D L ks) (read_view d e rq c)"
  by (cases c; simp only: read_view.simps dashboard_view_def state_view_def state_payload_def events_view_def audit_view_def
      jobs_view_def history_view_def container_logs_view_def metrics_view_def prometheus_def get_config_view_def
      export_config_view_def web_resolve_def web_overrides_def on_docker_def Let_def)
    (rule preserves_intros seen_on_store look_intros outsideD [OF assms] | simp)+

lemma seen_start: "seen (durable (w_store s)) (live (w_store s)) (in_flight s) s"
  by (simp add: seen_def store_seen_def)

lemma look_route:
  assumes "outside_looks d"
  shows "preserves (seen D L ks) (read_route d e rq c)"
  unfolding read_route_def require_auth_def authorized_def
  by (rule preserves_intros look_authorize look_view [OF assms])+

lemma reader_refused:
  assumes "scope_of d (supplied_token rq) \<notin> {Inr (Some Write), Inr (Some Read)}" "read_route d e rq c s = (Inr r, s')"
  shows "rsp_status r \<in> {401, 429}"
proof -
  obtain q u where q: "authorize d rq False s = (q, u)" by force
  obtain l v where l: "locked_until d (client_of rq) s = (l, v)" by force
  from authorize_cases [OF q l] assms(1) have "\<forall>x. q = Inr x \<longrightarrow> (\<exists>a. x = Some a \<and> rsp_status a \<in> {401, 429})"
    by (auto, metis scope.exhaust)
  then show ?thesis using assms(2) q by (cases q) (auto simp: read_route_def require_auth_def authorized_def)
qed

text \<open>C17. Reading only looks: a read endpoint, whoever asks and however it ends, changes no committed
  table and no change in sight except that a reconnect may drop an uncommitted one, and holds no
  idempotency key; without a valid token the answer is a refusal.\<close>

theorem reads_only_look:
  assumes "outside_looks d" "read_route d e rq c s = (x, s')"
  shows "durable (w_store s') = durable (w_store s) \<and> live (w_store s') \<in> {live (w_store s), durable (w_store s)} \<and>
    in_flight s' = in_flight s \<and>
    (scope_of d (supplied_token rq) \<notin> {Inr (Some Write), Inr (Some Read)} \<longrightarrow>
      (\<forall>r. x = Inr r \<longrightarrow> rsp_status r \<in> {401, 429}))"
proof -
  have "seen (durable (w_store s)) (live (w_store s)) (in_flight s) (snd (read_route d e rq c s))"
    by (rule preservesD [OF look_route [OF assms(1)] seen_start])
  then have look: "durable (w_store s') = durable (w_store s) \<and> live (w_store s') \<in> {live (w_store s), durable (w_store s)} \<and>
      in_flight s' = in_flight s" unfolding assms(2) by (simp add: seen_def store_seen_def)
  have "\<forall>r. x = Inr r \<longrightarrow> rsp_status r \<in> {401, 429}" if "scope_of d (supplied_token rq) \<notin> {Inr (Some Write), Inr (Some Read)}"
    using reader_refused [OF that] assms(2) by blast
  with look show ?thesis by blast
qed

definition demo_read_env :: ReadEnv where
  "demo_read_env =
     \<lparr>dashboard_html = Inr ''<html>'', cookie_text = (\<lambda>k v. k @ ''='' @ v), safe_dump = (\<lambda>_. []), the_version = ''1.2.3''\<rparr>"

definition visit :: "string \<Rightarrow> Request" where
  "visit token =
     \<lparr>rq_method = ''GET'', rq_path = ''/'', rq_header = (\<lambda>_. None), rq_arg = map_of [(''token'', token)],
      rq_cookie = (\<lambda>_. None), rq_remote = Some ''10.0.0.9'', rq_json = PNone\<rparr>"

lemma demo_outside: "outside_looks demo_deps"
  by (simp add: outside_looks_def demo_deps_def preserves_ret del: ret_def)

theorem reads_only_look_witness:
  "\<exists>r s'. read_route demo_deps demo_read_env (visit ''wrong'') Metrics demo_web = (Inr r, s') \<and> rsp_status r \<in> {401, 429} \<and>
     durable (w_store s') = durable (w_store demo_web)"
proof -
  have "case fst (read_route demo_deps demo_read_env (visit ''wrong'') Metrics demo_web) of Inr _ \<Rightarrow> True | Inl _ \<Rightarrow> False" by code_simp
  then obtain r s' where run: "read_route demo_deps demo_read_env (visit ''wrong'') Metrics demo_web = (Inr r, s')"
    by (cases "read_route demo_deps demo_read_env (visit ''wrong'') Metrics demo_web") (auto split: sum.splits)
  have "scope_of demo_deps (supplied_token (visit ''wrong'')) = Inr None" by code_simp
  with reads_only_look [OF demo_outside run] run show ?thesis by simp
qed

section \<open>The dashboard's cookie\<close>

text \<open>C19. A visit to the dashboard with the read-only token in its address is answered with a cookie
  that holds the control token: whoever has the read-only token gets to control, although
  \<open>Deps\<close> says that the read-only token grants no control action.\<close>

theorem readonly_visit_gets_control:
  assumes "scope_of d (supplied_token rq) = Inr (Some Read)" "or_empty (rq_arg rq ''token'') \<noteq> []"
    "list_all is_ascii (d_token d)" "d_token d \<noteq> []" "read_route d e rq Dashboard s = (Inr r, s')" "rsp_status r = 200"
  shows "rsp_headers r = [(''Set-Cookie'', cookie_text e AUTH_COOKIE (d_token d))] \<and>
    scope_of d (supplied_token (visit [] \<lparr>rq_cookie := map_of [(AUTH_COOKIE, d_token d)]\<rparr>)) = Inr (Some Write)"
proof -
  obtain q u where q: "authorize d rq False s = (q, u)" by force
  obtain l v where l: "locked_until d (client_of rq) s = (l, v)" by force
  obtain a where a: "q = Inr a" using assms(5) q by (cases q) (auto simp: read_route_def require_auth_def authorized_def)
  have "a = None" using authorize_cases [OF q l] assms(1,5,6) q a
    by (auto simp: read_route_def require_auth_def authorized_def)
  with a have "q = Inr None" by simp
  then have "dashboard_view d e rq u = (Inr r, s')" using assms(5) q
    by (simp add: read_route_def require_auth_def authorized_def)
  then have "rsp_headers r = [(''Set-Cookie'', cookie_text e AUTH_COOKIE (d_token d))]" using assms(2,4)
    by (cases "dashboard_html e") (auto simp: dashboard_view_def Let_def lift_result_def andThen_def)
  moreover have "supplied_token (visit [] \<lparr>rq_cookie := map_of [(AUTH_COOKIE, d_token d)]\<rparr>) = d_token d"
    by (simp add: supplied_token_def visit_def or_empty_def)
  ultimately show ?thesis using assms(3,4) by (simp add: scope_of_def same_token_def compare_digest_def)
qed

theorem readonly_visit_gets_control_witness:
  "\<exists>r s'. read_route demo_deps demo_read_env (visit ''look'') Dashboard demo_web = (Inr r, s') \<and>
     rsp_headers r = [(''Set-Cookie'', ''rorch_token=secret'')] \<and>
     scope_of demo_deps (supplied_token (visit [] \<lparr>rq_cookie := map_of [(AUTH_COOKIE, d_token demo_deps)]\<rparr>)) = Inr (Some Write)"
proof -
  have ok: "(case fst (read_route demo_deps demo_read_env (visit ''look'') Dashboard demo_web) of Inr r \<Rightarrow> rsp_status r = 200 | Inl _ \<Rightarrow> False)"
    by code_simp
  then obtain r s' where run: "read_route demo_deps demo_read_env (visit ''look'') Dashboard demo_web = (Inr r, s')" "rsp_status r = 200"
    by (cases "read_route demo_deps demo_read_env (visit ''look'') Dashboard demo_web") (auto split: sum.splits)
  have a: "scope_of demo_deps (supplied_token (visit ''look'')) = Inr (Some Read)" "or_empty (rq_arg (visit ''look'') ''token'') \<noteq> []"
    "list_all is_ascii (d_token demo_deps)" "d_token demo_deps \<noteq> []" by code_simp+
  have "cookie_text demo_read_env AUTH_COOKIE (d_token demo_deps) = ''rorch_token=secret''" by code_simp
  with readonly_visit_gets_control [OF a run] run show ?thesis by auto
qed

end
