(* ===== verification/ServeFacts.thy ===== *)
theory ServeFacts
  imports Dashboard LoopFacts ConfigRows ReadFacts
begin

text \<open>
  The API beside the main loop: what the wired Docker client and status callbacks do to the tables,
  and that no request makes the next turn of the loop fail.
\<close>

section \<open>What the wired callbacks do to the tables\<close>

text \<open>\<open>K\<close> speaks of the tables in sight and the committed ones; every layer keeps it if the store's
  own operations do.\<close>

definition tables_hold :: "(Tables \<Rightarrow> Tables \<Rightarrow> bool) \<Rightarrow> 'w Store \<Rightarrow> bool" where
  "tables_hold K st \<longleftrightarrow> K (live st) (durable st)"

definition core_holds :: "(Tables \<Rightarrow> Tables \<Rightarrow> bool) \<Rightarrow> 'w Core \<Rightarrow> bool" where
  "core_holds K c \<longleftrightarrow> (case sh_store (d_world c) of None \<Rightarrow> False | Some st \<Rightarrow> tables_hold K st)"

definition brain_holds :: "(Tables \<Rightarrow> Tables \<Rightarrow> bool) \<Rightarrow> 'w Brain \<Rightarrow> bool" where
  "brain_holds K b \<longleftrightarrow> core_holds K (world b)"

named_theorems layer_intros "layers of the process that keep what holds of the tables"

lemma holds_outside [layer_intros]: "preserves (core_holds K) (on_daemon (on_outside m))"
  by (auto simp: preserves_def core_holds_def on_daemon_def on_outside_def split: prod.splits)

lemma holds_clients [layer_intros]: "preserves (core_holds K) (on_daemon (on_clients m))"
  by (auto simp: preserves_def core_holds_def on_daemon_def on_clients_def split: prod.splits)

lemma tables_hold_world [simp]: "tables_hold K (st\<lparr>st_world := w\<rparr>) = tables_hold K st"
  by (simp add: tables_hold_def)

lemma holds_saved:
  assumes "preserves (tables_hold K) m"
  shows "preserves (core_holds K) (on_daemon (on_saved (if_stored d m)))"
proof (rule preservesI)
  fix c :: "'a Core"
  assume "core_holds K c"
  then obtain st where st: "sh_store (d_world c) = Some st" "tables_hold K st" by (auto simp: core_holds_def split: option.splits)
  obtain r st' where run: "m (st\<lparr>st_world := sh_world (d_world c)\<rparr>) = (r, st')" by force
  have "tables_hold K st'" using preservesD [OF assms, of "st\<lparr>st_world := sh_world (d_world c)\<rparr>"] st(2) run by simp
  then show "core_holds K (snd (on_daemon (on_saved (if_stored d m)) c))"
    using st(1) run by (simp add: core_holds_def on_daemon_def on_saved_def if_stored_def)
qed

lemma holds_capture [layer_intros]: "preserves (core_holds K) (docker_capture (docker_env o') args)"
  unfolding docker_capture_def docker_env_def Let_def DockerEnv.simps
  by (intro preserves_andThen layer_intros preserves_prod preserves_ret)

lemma holds_exec [layer_intros]: "preserves (core_holds K) (docker_exec (docker_env o') args)"
  unfolding docker_exec_def docker_env_def Let_def DockerEnv.simps
  by (intro preserves_andThen layer_intros preserves_prod preserves_ret)

lemma holds_ops [layer_intros]:
  "preserves (core_holds K) (on_daemon (docker_op (docker_env o') args))"
  "preserves (core_holds K) (on_daemon (docker_gid_op (docker_env o')))"
  "preserves (core_holds K) (on_daemon (d_mono_op (docker_env o')))"
  "preserves (core_holds K) (on_daemon (fresh_uid_op (docker_env o')))"
  "preserves (core_holds K) (on_daemon (has_dockerfile_op (docker_env o')))"
  unfolding docker_env_def Let_def DockerEnv.simps by (rule layer_intros)+

lemma holds_details [layer_intros]: "preserves (core_holds K) (container_details (docker_env o') pfx)"
  unfolding container_details_def by (intro preserves_andThen layer_intros preserves_prod preserves_ret)

lemma holds_logs [layer_intros]: "preserves (core_holds K) (container_logs (docker_env o') c n)"
  unfolding container_logs_def by (intro preserves_andThen layer_intros preserves_prod preserves_ret)

text \<open>With a store whose event log may grow.\<close>

definition events_allowed :: "(Tables \<Rightarrow> Tables \<Rightarrow> bool) \<Rightarrow> 'w StoreEnv \<Rightarrow> bool" where
  "events_allowed K e \<longleftrightarrow> (\<forall>ev c p r. preserves (tables_hold K) (store_record_event e ev c p r))"

lemma holds_record [layer_intros]:
  assumes "events_allowed K (o_store o')"
  shows "preserves (core_holds K) (docker_record (docker_env o') ev c p r)"
proof -
  have "preserves (core_holds K) (on_daemon (on_saved (if_stored () (store_record_event (o_store o') ev c p r))))"
    using assms by (intro holds_saved) (simp add: events_allowed_def)
  then show ?thesis by (simp add: docker_record_def docker_env_def Let_def preserves_swallow)
qed

lemma build_retry_holds [simp]: "core_holds K (s\<lparr>build_retry_at := x\<rparr>) = core_holds K s"
  by (simp add: core_holds_def)

lemma holds_stop:
  assumes "events_allowed K (o_store o')"
  shows "preserves (core_holds K) (stop_container (docker_env o') c)"
  unfolding stop_container_def running_containers_def
  by (intro preserves_andThen layer_intros preserves_prod preserves_ret preserves_if assms)

lemma holds_image: "preserves (core_holds K) (ensure_image (docker_env o') name)"
  unfolding ensure_image_def image_state_def pull_image_def build_image_def backing_off_def back_off_def Let_def
  by (intro preserves_andThen layer_intros preserves_prod preserves_ret preserves_if preserves_read preserves_update) simp_all

lemma holds_spawn:
  assumes "events_allowed K (o_store o')"
  shows "preserves (core_holds K) (spawn_runner (docker_env o') p)"
proof -
  have token: "preserves (core_holds K) (case registration_token_op (docker_env o') of None \<Rightarrow> ret None | Some f \<Rightarrow> on_daemon (f p))"
    unfolding docker_env_def Let_def DockerEnv.simps option.case by (rule layer_intros)
  show ?thesis unfolding spawn_runner_def launch_def Let_def
    by (intro preserves_andThen preserves_ret preserves_if preserves_case_option layer_intros assms holds_image token)
qed

lemma holds_docker: "preserves (core_holds K) m \<Longrightarrow> preserves (brain_holds K) (on_docker_client m)"
  by (auto simp: preserves_def brain_holds_def on_docker_client_def on_world_def split: prod.splits)

lemma holds_process:
  assumes "preserves (brain_holds K) m"
  shows "preserves (tables_hold K) (on_process m)"
proof (rule preservesI)
  fix s :: "'a Brain Store"
  assume s: "tables_hold K s"
  obtain r b where run: "m (attached s) = (r, b)" by force
  have "brain_holds K (attached s)" using s
    by (simp add: brain_holds_def core_holds_def attached_def put_saved_def Let_def tables_hold_def)
  then have "brain_holds K b" using preservesD [OF assms, of "attached s"] run by simp
  then obtain st where "saved_store b = Some st" "tables_hold K st"
    by (auto simp: brain_holds_def core_holds_def saved_store_def split: option.splits)
  then show "tables_hold K (snd (on_process m s))" using run by (simp add: on_process_def tables_hold_def detached_def)
qed

lemma holds_shared: "preserves (core_holds K) (on_daemon m) \<Longrightarrow> preserves (brain_holds K) (on_shared m)"
  by (auto simp: preserves_def brain_holds_def on_shared_def on_world_def split: prod.splits)

lemma holds_from_outside: "preserves (brain_holds K) (from_outside m)"
  unfolding from_outside_def by (intro holds_shared layer_intros)

lemma holds_host_state: "preserves (brain_holds K) (host_state o')"
  unfolding host_state_def own_host_def by (intro preserves_intros holds_from_outside)

section \<open>The hypotheses of the endpoints' theorems\<close>

lemma store_seen_tables: "store_seen D L = tables_hold (\<lambda>l u. u = D \<and> l \<in> {L, D})"
  by (simp add: fun_eq_iff store_seen_def tables_hold_def)

lemma store_good_tables: "store_good d = tables_hold (\<lambda>l u. rows_good d l \<and> rows_good d u)"
  by (simp add: fun_eq_iff store_good_def tables_hold_def)

lemma wired_looks: "outside_looks (dashboard_deps o' rt token txt)"
proof -
  have "preserves (store_seen D L) (rate_limit_op (dashboard_deps o' rt token txt))" for D L
    unfolding store_seen_tables dashboard_deps_def Deps.simps by (intro holds_process preserves_andThen holds_shared layer_intros preserves_ret)
  moreover have "preserves (store_seen D L) (host_state_op (dashboard_deps o' rt token txt))" for D L
    unfolding store_seen_tables dashboard_deps_def Deps.simps by (intro holds_process holds_host_state)
  moreover have "preserves (store_seen D L) (sd_details (d_docker (dashboard_deps o' rt token txt)) c)" for D L c
    unfolding store_seen_tables dashboard_deps_def Deps.simps api_docker_def Let_def ServerDocker.simps
    by (intro holds_process holds_docker layer_intros)
  moreover have "preserves (store_seen D L) (sd_logs (d_docker (dashboard_deps o' rt token txt)) c n)" for D L c n
    unfolding store_seen_tables dashboard_deps_def Deps.simps api_docker_def Let_def ServerDocker.simps
    by (intro holds_process holds_docker layer_intros)
  ultimately show ?thesis by (simp add: outside_looks_def)
qed

lemma both_write:
  assumes "\<And>t. P t \<Longrightarrow> P (f t)"
  shows "preserves (tables_hold (\<lambda>l u. P l \<and> P u)) (store_write e f)"
proof (rule preservesI)
  fix s :: "'a Store"
  assume s: "tables_hold (\<lambda>l u. P l \<and> P u) s"
  obtain r s' where run: "store_write e f s = (r, s')" by force
  show "tables_hold (\<lambda>l u. P l \<and> P u) (snd (store_write e f s))"
    using write_outcomes [OF run] s assms [of "live s"] assms [of "durable s"] run
    by (auto simp only: tables_hold_def snd_conv)
qed

lemma both_now: "preserves (tables_hold K) (store_now e)"
  by (auto simp: preserves_def store_now_def on_db_def tables_hold_def split: prod.splits)

lemma wired_events: "events_allowed (\<lambda>l u. rows_good d l \<and> rows_good d u) e"
  unfolding events_allowed_def store_record_event_def
  by (intro allI preserves_intros both_now both_write) (simp add: rows_good_def)

lemma wired_docker_good: "docker_good (dashboard_deps o' rt token txt)"
  unfolding docker_good_def store_good_tables dashboard_deps_def Deps.simps api_docker_def Let_def ServerDocker.simps
  by (intro allI conjI holds_process holds_docker holds_spawn holds_stop layer_intros wired_events)

section \<open>The API and the main loop\<close>

lemma good_as_tables: "web_good (dashboard_deps o' rt token txt) s \<longleftrightarrow>
    rows_good (dashboard_deps o' rt token txt) (live (w_store s)) \<and> rows_good (dashboard_deps o' rt token txt) (durable (w_store s))"
  by (simp add: web_good_def store_good_def)

lemma read_good:
  assumes "outside_looks d"
  shows "preserves (web_good d) (read_route d e rq c)"
proof (rule preservesI)
  fix s :: "'a Web"
  assume s: "web_good d s"
  have "seen (durable (w_store s)) (live (w_store s)) (in_flight s) (snd (read_route d e rq c s))"
    by (rule preservesD [OF look_route [OF assms] seen_start])
  with s show "web_good d (snd (read_route d e rq c s))" by (auto simp: seen_def store_seen_def web_good_def store_good_def)
qed

lemma endpoint_good:
  assumes "outside_looks d" "docker_good d" "plain_request d rq"
  shows "preserves (web_good d) (endpoint d e rq c)"
proof (cases c)
  case Health
  then show ?thesis by (simp add: health_route_def) (intro preserves_intros web_intros)
next
  case (Reading r)
  then show ?thesis by (simp add: read_good [OF assms(1)])
next
  case (Controlling r)
  then show ?thesis by (simp add: control_good [OF assms(3,2)])
qed

text \<open>C5. No request stops the main loop: whatever endpoint a request calls, with whatever token and answer,
  the override rows it leaves behind resolve, and the next turn of the loop raises nothing.\<close>

theorem api_cannot_stop_the_loop:
  assumes "serve o' rt token txt e rq c (dm_scaler s, guard, keys) = (r, b', guard', keys')"
    and "saved_store (dm_scaler s) = Some st" "rows_good (dashboard_deps o' rt token txt) (live st)"
      "rows_good (dashboard_deps o' rt token txt) (durable st)" "plain_request (dashboard_deps o' rt token txt) rq"
    and "healthy (o_store o')" "clock_runs o'" "busy_all {} s"
  shows "\<exists>st' s'. saved_store b' = Some st' \<and> rows_good (dashboard_deps o' rt token txt) (live st') \<and>
    rows_good (dashboard_deps o' rt token txt) (durable st') \<and> main_turn o' rt (s\<lparr>dm_scaler := b'\<rparr>) = (Inr (), s')"
proof -
  let ?d = "dashboard_deps o' rt token txt"
  let ?w = "\<lparr>w_store = detached (dm_scaler s) st, guard_failures = guard, in_flight = keys\<rparr>"
  obtain x w where run: "endpoint ?d e rq c ?w = (x, w)" by force
  have b': "b' = attached (w_store w)" using assms(1,2) run by (simp add: serve_def)
  have "web_good ?d ?w" using assms(3,4) by (simp add: good_as_tables detached_def)
  then have "web_good ?d w"
    using preservesD [OF endpoint_good [OF wired_looks wired_docker_good assms(5), where e = e and c = c], of ?w] run by simp
  then have rows: "rows_good ?d (live (w_store w))" "rows_good ?d (durable (w_store w))" by (simp_all add: good_as_tables)
  define st' where "st' = \<lparr>st_dsn = st_dsn (w_store w), live = live (w_store w), durable = durable (w_store w),
    st_world = world_of (st_world (w_store w))\<rparr>"
  have saved: "saved_store b' = Some st'" by (simp add: b' attached_def put_saved_def Let_def saved_store_def st'_def)
  obtain cfg where "config_of (d_resolver ?d) (live st') = Inr cfg"
    using good_rows_resolve [OF rows(1)] by (cases "config_of (d_resolver ?d) (live (w_store w))") (auto simp: st'_def)
  then have "configured o' rt (s\<lparr>dm_scaler := b'\<rparr>)"
    using saved assms(6) by (simp add: configured_def stored_in_def saved_store_def dashboard_deps_def)
  moreover have "busy_all {} (s\<lparr>dm_scaler := b'\<rparr>)" using assms(8) by (simp add: busy_all_def lanes_open_def)
  ultimately obtain s' where "main_turn o' rt (s\<lparr>dm_scaler := b'\<rparr>) = (Inr (), s')"
    using main_turn_runs [OF _ assms(7)] by blast
  with saved rows show ?thesis by (auto simp: st'_def)
qed

theorem api_cannot_stop_the_loop_witness:
  "\<exists>st' s'. saved_store (fst (snd (serve demo_world demo_runtime ''secret'' (\<lambda>_. []) demo_read_env demo_patch
       (Controlling (PatchPool ''ci'')) (dm_scaler demo_daemon_state, [], [])))) = Some st' \<and>
     rows_good (dashboard_deps demo_world demo_runtime ''secret'' (\<lambda>_. [])) (live st') \<and>
     main_turn demo_world demo_runtime (demo_daemon_state\<lparr>dm_scaler := fst (snd (serve demo_world demo_runtime ''secret'' (\<lambda>_. [])
       demo_read_env demo_patch (Controlling (PatchPool ''ci'')) (dm_scaler demo_daemon_state, [], [])))\<rparr>) = (Inr (), s')"
proof -
  let ?d = "dashboard_deps demo_world demo_runtime ''secret'' (\<lambda>_. [])"
  let ?serve = "serve demo_world demo_runtime ''secret'' (\<lambda>_. []) demo_read_env demo_patch (Controlling (PatchPool ''ci''))
    (dm_scaler demo_daemon_state, [], [])"
  obtain r b' guard' keys' where run: "?serve = (r, b', guard', keys')" by (cases ?serve)
  have saved: "saved_store (dm_scaler demo_daemon_state) = Some demo_store"
    by (simp add: saved_store_def demo_daemon_state_def new_daemon_def new_brain_def new_scaler_def)
  have rows: "rows_good ?d (live demo_store)" "rows_good ?d (durable demo_store)"
    by (simp_all add: rows_good_def demo_store_def empty_tables_def)
  have b: "json_body demo_patch = [(''max_runners'', PStr ''7''), (''runner_labels'', PStr ''linux'')]" by code_simp
  have "coerce_pool_fields (str_rp demo_resolver) (json_body demo_patch) =
      Inr [(''max_runners'', PInt 7), (''runner_labels'', PStr ''linux'')]" by code_simp
  then have plain: "plain_request ?d demo_patch" by (simp add: plain_request_def b dashboard_deps_def demo_runtime_def)
  have t: "clock_runs demo_world" by (simp add: clock_runs_def demo_world_def)
  have h: "healthy (o_store demo_world)" using demo_healthy by (simp add: demo_world_def)
  have "lanes_ok (new_lanes n)" for n by (rule lanes_reach_ok [OF lanes_reach.init])
  then have busy: "busy_all {} demo_daemon_state"
    by (simp add: busy_all_def lanes_open_def demo_daemon_state_def new_daemon_def, simp add: new_lanes_def)
  from api_cannot_stop_the_loop [OF run saved rows plain h t busy] run show ?thesis by auto
qed

end
