(* ===== verification/PatchFacts.thy ===== *)
theory PatchFacts
  imports ConfigRows
begin

text \<open>
  What a \<open>PATCH\<close> of a pool comes to: the pool the API checked is the pool the resolver makes of the
  row it saved, and its numbers are the ones the request gave.
\<close>

section \<open>Fields\<close>

lemma int_getters:
  "k \<in> set NUMERIC_INT \<Longrightarrow> map_of (pool_to_dict p) k =
    Some (PInt ((the (map_of [(''max_runners'', max_runners), (''min_idle'', min_idle), (''repo_discovery_ttl'', repo_discovery_ttl),
      (''github_poll_interval'', github_poll_interval), (''queued_min_age'', queued_min_age), (''stuck_timeout'', stuck_timeout),
      (''repo_check_workers'', repo_check_workers), (''runner_operation_workers'', runner_operation_workers)] k)) p))"
  unfolding NUMERIC_INT_def list.set insert_iff empty_iff simp_thms
  by (elim disjE) (simp_all add: pool_to_dict_def)

lemma set_field_int:
  assumes "set_field (k, v) p = Inr q" "i \<in> set NUMERIC_INT"
  shows "map_of (pool_to_dict q) i = (if k = i then Some v else map_of (pool_to_dict p) i)"
proof -
  have ints: "map_of (pool_to_dict (f n p)) i = (if k = i then Some (PInt n) else map_of (pool_to_dict p) i)"
    if "(k, f) \<in> set int_fields" for f n
    using that assms(2) unfolding int_getters [OF assms(2)] int_fields_def NUMERIC_INT_def list.set insert_iff empty_iff simp_thms prod.inject
    by (elim disjE conjE) simp_all
  have strs: "map_of (pool_to_dict (f s p)) i = map_of (pool_to_dict p) i" if "(k, f) \<in> set str_fields" for f s
    using that assms(2) unfolding int_getters [OF assms(2)] str_fields_def NUMERIC_INT_def list.set insert_iff empty_iff simp_thms prod.inject
    by (elim disjE conjE; simp)
  have str_key: "(i, f) \<notin> set str_fields" for f
    using assms(2) unfolding str_fields_def NUMERIC_INT_def list.set insert_iff empty_iff simp_thms prod.inject
    by (elim disjE; simp)
  have cpu: "map_of (pool_to_dict (p\<lparr>cpu_limit := x\<rparr>)) i = map_of (pool_to_dict p) i" "''cpu_limit'' \<noteq> i" for x
    using assms(2) unfolding int_getters [OF assms(2)] NUMERIC_INT_def list.set insert_iff empty_iff simp_thms
    by (elim disjE; simp)+
  show ?thesis using assms(1) ints strs str_key cpu
    by (auto simp: set_field_def split: pyval.splits option.splits if_splits dest!: map_of_SomeD)
qed

lemma set_fields_int:
  assumes "i \<in> set NUMERIC_INT"
  shows "set_fields fs p = Inr q \<Longrightarrow> distinct (map fst fs) \<Longrightarrow>
    map_of (pool_to_dict q) i = (case map_of fs i of None \<Rightarrow> map_of (pool_to_dict p) i | Some v \<Rightarrow> Some v)"
proof (induction fs arbitrary: p)
  case Nil
  then show ?case by simp
next
  case (Cons kv fs)
  obtain k v where kv: "kv = (k, v)" by force
  obtain p' where p': "set_field (k, v) p = Inr p'" "set_fields fs p' = Inr q" using Cons.prems(1) by (auto simp: kv bind_result_Inr_iff)
  have "map_of fs k = None" using Cons.prems(2) by (simp add: kv map_of_eq_None_iff)
  then show ?case using Cons.IH [OF p'(2)] Cons.prems(2) set_field_int [OF p'(1) assms]
    by (auto simp: kv split: option.splits)
qed

lemma coerce_fst: "coerce_pool_fields rp fs = Inr cs \<Longrightarrow> map fst cs = map fst fs"
  unfolding coerce_pool_fields_def
  by (induction fs arbitrary: cs) (auto simp: bind_result_Inr_iff)

lemma coerce_lookup:
  "coerce_pool_fields rp fs = Inr cs \<Longrightarrow> map_of fs k = Some v \<Longrightarrow> \<exists>w. coerce_value rp k v = Inr w \<and> map_of cs k = Some w"
  unfolding coerce_pool_fields_def
  by (induction fs arbitrary: cs) (auto simp: bind_result_Inr_iff split: if_splits)

lemma coerce_int_again: "k \<in> set NUMERIC_INT \<Longrightarrow> coerce_value rp k v = Inr w \<Longrightarrow> coerce_value rp k w = Inr w"
  by (auto simp: coerce_value_def bind_result_Inr_iff)

lemma map_of_dict_update: "map_of (dict_update new old) = map_of old ++ map_of (rev new)"
  unfolding dict_update_def by (rule map_of_fold_dict_set)

text \<open>Numbers of a request survive the merge, the second coercion and the choice of tunable fields.\<close>

lemma numbers_survive:
  assumes "coerce_pool_fields rp b = Inr cs" "distinct (map fst b)" "coerce_pool_fields rp (dict_update cs old) = Inr fs"
    "(k, v) \<in> set cs" "k \<in> set NUMERIC_INT"
  shows "map_of (tunables fs) k = Some v"
proof -
  have d: "distinct (map fst cs)" using assms(1,2) by (simp add: coerce_fst)
  then have rev: "map_of (rev cs) k = Some v" using assms(4) by (subst map_of_eq_Some_iff) (simp_all add: rev_map [symmetric])
  then have merged: "map_of (dict_update cs old) k = Some v" by (simp add: map_of_dict_update)
  obtain v0 where v0: "map_of b k = Some v0"
    using assms(4) coerce_fst [OF assms(1)] by (metis fst_conv image_iff list.set_map map_of_eq_None_iff not_None_eq)
  have "coerce_value rp k v0 = Inr v" using coerce_lookup [OF assms(1) v0] d assms(4) by (auto simp: map_of_eq_Some_iff)
  then have "coerce_value rp k v = Inr v" by (rule coerce_int_again [OF assms(5)])
  then have "map_of fs k = Some v" using coerce_lookup [OF assms(3) merged] by auto
  moreover have "k \<in> set TUNABLE_FIELDS" using assms(5) by (auto simp: NUMERIC_INT_def TUNABLE_FIELDS_def)
  ultimately show ?thesis unfolding tunables_def by (induction fs) auto
qed

section \<open>Rows and pools\<close>

lemma override_rows_view: "keyed_ok (t_pool_overrides t) \<Longrightarrow> map_of (override_rows t) = view_override (t_pool_overrides t)"
  using map_of_read_overrides by (auto simp: override_rows_def map_of_fold_dict_set fun_eq_iff)

lemma overlay_bases_at:
  "overlay_bases r bs ov = Inr (ps, rest) \<Longrightarrow> distinct (map pool_name bs) \<Longrightarrow> b \<in> set bs \<Longrightarrow>
   map_of ov (pool_name b) = Some en \<Longrightarrow> \<not> po_disabled en \<Longrightarrow> \<exists>p\<in>set ps. apply_override r b (po_data en) = Inr p"
proof (induction bs arbitrary: ov ps)
  case Nil
  then show ?case by simp
next
  case (Cons c bs)
  show ?case
  proof (cases "b = c")
    case True
    then show ?thesis using Cons.prems by (auto simp: Let_def bind_result_Inr_iff)
  next
    case False
    then have b: "b \<in> set bs" using Cons.prems(3) by simp
    have "pool_name c \<notin> pool_name ` set bs" using Cons.prems(2) by simp
    then have b: "b \<in> set bs" "pool_name b \<noteq> pool_name c" using b by (blast, metis imageI)
    have "map_of (dict_del (pool_name c) ov) (pool_name b) = Some en" using Cons.prems(4) b(2) by simp
    then have "\<exists>ps' ov'. overlay_bases r bs ov' = Inr (ps', rest) \<and> set ps' \<subseteq> set ps \<and> map_of ov' (pool_name b) = Some en"
      using Cons.prems(1,4) by (cases "map_of ov (pool_name c)") (fastforce simp: Let_def bind_result_Inr_iff split: if_splits)+
    then obtain ps' ov' where "overlay_bases r bs ov' = Inr (ps', rest)" "set ps' \<subseteq> set ps" "map_of ov' (pool_name b) = Some en" by blast
    then show ?thesis using Cons.IH [of ov' ps'] Cons.prems(2,5) b(1) by auto
  qed
qed

lemma candidate_applied:
  assumes "candidate_pool d name data origin = Inr (Some p)" "origin \<noteq> ''ui''" "base_pool d name = Some base"
  shows "apply_override (d_resolver d) base (PDict data) = Inr p \<and>
    (\<exists>fs. coerce_pool_fields (str_rp (d_resolver d)) data = Inr fs \<and> set_fields (tunables fs) base = Inr p)"
proof -
  obtain fs where fs: "coerce_pool_fields (str_rp (d_resolver d)) data = Inr fs"
      "or_else (bind_result (set_fields (tunables fs) base) (\<lambda>p. Inr (Some p))) None = Inr (Some p)"
    using assms by (auto simp: candidate_pool_def Let_def bind_result_Inr_iff)
  then have "set_fields (tunables fs) base = Inr p"
    by (auto simp: or_else_def bind_result_Inr_iff split: sum.splits py_error.splits)
  then show ?thesis using fs(1) by (auto simp: apply_override_def as_items_def Let_def or_else_def)
qed

section \<open>An accepted request\<close>

text \<open>No row for the pool was made by the API: it is a pool of \<open>config.yml\<close>.\<close>

definition not_created :: "string \<Rightarrow> Tables \<Rightarrow> bool" where
  "not_created name t \<longleftrightarrow> (case map_of (t_pool_overrides t) name of None \<Rightarrow> True | Some row \<Rightarrow> ov_origin row \<noteq> ''ui'')"

definition patchable :: "string \<Rightarrow> Tables \<Rightarrow> bool" where
  "patchable name t \<longleftrightarrow> keyed_ok (t_pool_overrides t) \<and> not_created name t"

lemma view_origin: "not_created name t \<Longrightarrow> view_override (t_pool_overrides t) name = Some po \<Longrightarrow> po_origin po \<noteq> ''ui''"
  by (auto simp: not_created_def view_override_def read_override_def split: option.splits sum.splits)

lemma saved_row:
  assumes "save_override d rq name data origin False action detail r s = (Inr x, s')"
    "patchable name (live (w_store s))" "patchable name (durable (w_store s))"
  shows "x = r \<and> (\<exists>rows now. keyed_ok rows \<and> t_pool_overrides (live (w_store s')) = dict_set name
    \<lparr>ov_data = dumps (float_repr (d_store d)) (PDict data), ov_origin = origin, ov_disabled = bool_int False, ov_updated_at = now\<rparr> rows)"
proof -
  let ?row = "\<lambda>now. \<lparr>ov_data = dumps (float_repr (d_store d)) (PDict data), ov_origin = origin, ov_disabled = bool_int False, ov_updated_at = now\<rparr>"
  obtain s1 where s1: "on_store (set_pool_override (d_store d) name (PDict data) origin False) s = (Inr (), s1)"
      "andThen (web_audit d rq action name detail) (\<lambda>_. ret r) s1 = (Inr x, s')"
    using andThen_InrD [OF assms(1) [unfolded save_override_def]] by auto
  obtain s2 where s2: "web_audit d rq action name detail s1 = (Inr (), s2)" "x = r" "s' = s2"
    using andThen_InrD [OF s1(2)] by auto
  obtain now u where u: "store_now (d_store d) (w_store s) = (Inr now, u)"
      "store_write (d_store d) (\<lambda>t. t\<lparr>t_pool_overrides := dict_set name (?row now) (t_pool_overrides t)\<rparr>) u = (Inr (), w_store s1)"
    using s1(1) by (auto simp: on_store_def set_pool_override_def andThen_def split: prod.splits sum.splits)
  have same: "live u = live (w_store s)" "durable u = durable (w_store s)" using u(1)
    by (auto simp: store_now_def on_db_def split: prod.splits)
  obtain rows where rows: "keyed_ok rows" "t_pool_overrides (live (w_store s1)) = dict_set name (?row now) rows" "durable (w_store s1) = live (w_store s1)"
    using write_done [OF u(2)] assms(2,3) unfolding same by (auto simp: patchable_def)
  obtain now2 u2 f where u2: "store_now (d_store d) (w_store s1) = (Inr now2, u2)" "store_write (d_store d) f u2 = (Inr (), w_store s2)"
      "\<And>t. t_pool_overrides (f t) = t_pool_overrides t"
    using s2(1) by (auto simp: web_audit_def on_store_def store_audit_def andThen_def split: prod.splits sum.splits)
  have "live u2 = live (w_store s1)" "durable u2 = durable (w_store s1)" using u2(1)
    by (auto simp: store_now_def on_db_def split: prod.splits)
  then have "t_pool_overrides (live (w_store s2)) = t_pool_overrides (live (w_store s1))"
    using write_done [OF u2(2)] u2(3) rows(3) by auto
  then show ?thesis using rows s2 by auto
qed

lemma overrides_seen:
  assumes "web_overrides d s = (Inr ov, u)" "patchable name (live (w_store s))" "patchable name (durable (w_store s))"
  shows "patchable name (live (w_store u)) \<and> patchable name (durable (w_store u)) \<and> ov = override_rows (live (w_store u))"
proof -
  obtain q v where v: "store_read (d_store d) t_pool_overrides (w_store s) = (q, v)" by force
  then obtain rs where "q = Inr rs" "ov = fold (\<lambda>(k, v). dict_set k v) (List.map_filter read_override rs) []" "w_store u = v"
    using assms(1) by (cases q) (auto simp: web_overrides_def pool_overrides_def on_store_def andThen_def)
  with read_outcomes [OF v] assms(2,3) show ?thesis by (auto simp: override_rows_def)
qed

text \<open>What a \<open>PATCH\<close> answered with 200 has saved.\<close>

lemma patch_saved:
  assumes "patch_pool_view d rq name s = (Inr r, s')" "rsp_status r = 200" "base_pool d name = Some base"
    and "patchable name (live (w_store s))" "patchable name (durable (w_store s))" "web_good d s" "plain_request d rq"
  shows "\<exists>cs old origin p rows now. coerce_pool_fields (str_rp (d_resolver d)) (json_body rq) = Inr cs \<and> origin \<noteq> ''ui'' \<and>
    candidate_pool d name (dict_update cs old) origin = Inr (Some p) \<and> validation_errors [p] = [] \<and> keyed_ok rows \<and>
    data_good d (PDict (dict_update cs old)) \<and>
    t_pool_overrides (live (w_store s')) = dict_set name \<lparr>ov_data = dumps (float_repr (d_store d)) (PDict (dict_update cs old)),
      ov_origin = origin, ov_disabled = bool_int False, ov_updated_at = now\<rparr> rows"
proof -
  have known: "unknown_fields (json_body rq) False = []"
    using assms(1,2) by (auto simp: patch_pool_view_def Let_def failure_def respond_def split: if_splits)
  obtain ov u where u: "web_overrides d s = (Inr ov, u)"
    using assms(1) known by (auto simp: patch_pool_view_def Let_def dest!: andThen_InrD)
  note seen = overrides_seen [OF u assms(4,5)]
  let ?origin = "case map_of ov name of None \<Rightarrow> ''yaml'' | Some x \<Rightarrow> po_origin x"
  have "map_of ov name = view_override (t_pool_overrides (live (w_store u))) name"
    using seen override_rows_view [of "live (w_store u)"] by (simp add: patchable_def)
  then have origin: "?origin \<noteq> ''ui''" using view_origin [of name "live (w_store u)"] seen
    by (auto simp: patchable_def split: option.splits)
  obtain old cs where old: "(case map_of ov name of None \<Rightarrow> Inr [] | Some x \<Rightarrow> dict_of (po_data x)) = Inr old"
    and run: "coerce_pool_fields (str_rp (d_resolver d)) (json_body rq) = Inr cs"
      "checked_save d rq name (dict_update cs old) ?origin ''override does not produce a usable pool'' ''config_patch'' (body_json d (json_body rq))
         (ok_response [(''pool'', PStr name), (''overrides'', PDict (dict_update cs old))]) u = (Inr r, s')"
    using assms(1-3) known u
    by (auto simp: patch_pool_view_def Let_def failure_def respond_def andThen_def lift_result_def
        split: sum.splits prod.splits py_error.splits)
  have "entries_good d ov" using overrides_read [OF assms(6) u] by simp
  from old_data_good [OF this old] have "data_good d (PDict (dict_update cs old))"
    using assms(7) run(1) by (intro update_good) (auto simp: plain_request_def)
  note good = this
  obtain c where c: "candidate_pool d name (dict_update cs old) ?origin = Inr c"
      "(case candidate_error ''override does not produce a usable pool'' c of Some err \<Rightarrow> ret err
        | None \<Rightarrow> save_override d rq name (dict_update cs old) ?origin False ''config_patch'' (body_json d (json_body rq))
            (ok_response [(''pool'', PStr name), (''overrides'', PDict (dict_update cs old))])) u = (Inr r, s')"
    using andThen_InrD [OF run(2) [unfolded checked_save_def]] by (auto simp: lift_result_def)
  obtain p where p: "c = Some p" "validation_errors [p] = []" "candidate_error ''override does not produce a usable pool'' c = None"
    using c(2) assms(2) by (auto simp: candidate_error_def failure_def respond_def split: option.splits if_splits)
  have "save_override d rq name (dict_update cs old) ?origin False ''config_patch'' (body_json d (json_body rq))
      (ok_response [(''pool'', PStr name), (''overrides'', PDict (dict_update cs old))]) u = (Inr r, s')"
    using c(2) p(3) by simp
  from saved_row [OF this] seen obtain rows now where "keyed_ok rows" "t_pool_overrides (live (w_store s')) = dict_set name
      \<lparr>ov_data = dumps (float_repr (d_store d)) (PDict (dict_update cs old)), ov_origin = ?origin, ov_disabled = bool_int False,
       ov_updated_at = now\<rparr> rows" by blast
  with run(1) origin c(1) p good show ?thesis by blast
qed

end
