(* ===== verification/EndToEnd.thy ===== *)
theory EndToEnd
  imports ServeFacts PatchFacts
begin

text \<open>
  From a request to the API to the next turn of the main loop: an accepted change of a pool is what
  the resolver gives the loop.
\<close>

lemma refusal_status: "authorize d rq w s = (Inr (Some a), s') \<Longrightarrow> rsp_status a \<in> {401, 403, 429}"
proof -
  assume run: "authorize d rq w s = (Inr (Some a), s')"
  obtain r u where u: "locked_until d (client_of rq) s = (r, u)" by force
  from authorize_cases [OF run u] show ?thesis by (auto simp: failure_def respond_def split: if_splits)
qed

lemma accepted_write:
  assumes "require_write d rq view s = (Inr r, s')" "rsp_status r = 200"
  shows "\<exists>u. authorize d rq True s = (Inr None, u) \<and> view u = (Inr r, s')"
proof -
  obtain denied u where u: "authorize d rq True s = (Inr denied, u)" "(case denied of Some a \<Rightarrow> ret a | None \<Rightarrow> view) u = (Inr r, s')"
    using andThen_InrD [OF assms(1) [unfolded require_write_def authorized_def]] by blast
  have "denied = None" using u refusal_status [of d rq True s _ u] assms(2) by (cases denied) auto
  with u show ?thesis by simp
qed

text \<open>The tables behind a saved row resolve to the pool that was checked.\<close>

lemma saved_pool_resolves:
  assumes "rows_good d t" "keyed_ok rs" "distinct (map pool_name (base_pools (d_resolver d)))" "base_pool d name = Some base"
    and "t_pool_overrides t = dict_set name \<lparr>ov_data = dumps (float_repr (d_store d)) (PDict data), ov_origin = origin,
      ov_disabled = bool_int False, ov_updated_at = now\<rparr> rs"
    and "json_plain (float_repr (d_store d)) (PDict data)" "candidate_pool d name data origin = Inr (Some p)" "origin \<noteq> ''ui''"
  shows "\<exists>c. config_of (d_resolver d) t = Inr c \<and> p \<in> set (eff_pools c)"
proof -
  obtain c where c: "config_of (d_resolver d) t = Inr c" using good_rows_resolve [OF assms(1)] by (cases "config_of (d_resolver d) t") auto
  obtain ps rest created where o: "overlay_bases (d_resolver d) (base_pools (d_resolver d)) (override_rows t) = Inr (ps, rest)"
      "eff_pools c = ps @ created"
    using c by (auto simp: config_of_def Let_def overlay_def bind_result_Inr_iff)
  have "keyed_ok (t_pool_overrides t)" unfolding assms(5) by (rule dict_set_ok [OF assms(2)])
  then have "map_of (override_rows t) name = Some \<lparr>po_data = PDict data, po_origin = origin, po_disabled = False\<rparr>"
    using override_rows_view [of t] view_set [OF assms(6), of name origin False now rs] by (simp only: assms(5) fun_upd_same)
  moreover have b: "base \<in> set (base_pools (d_resolver d))" "pool_name base = name"
    using assms(4) by (auto simp: base_pool_def find_Some_iff)
  ultimately obtain q where "q \<in> set ps" "apply_override (d_resolver d) base (PDict data) = Inr q"
    using overlay_bases_at [OF o(1) assms(3) b(1)] by fastforce
  then show ?thesis using candidate_applied [OF assms(7,8,4)] c o(2) by auto
qed

lemma daemon_resolves:
  assumes "healthy (o_store o')" "saved_store b = Some st" "config_of (rt_resolver rt) (live st) = Inr c"
  shows "\<exists>b'. daemon_resolve o' rt b = (Inr c, b')"
proof -
  define st' where "st' = st\<lparr>st_world := sh_world (d_world (world b))\<rparr>"
  have "config_of (rt_resolver rt) (live st') = Inr c" using assms(3) by (simp add: st'_def)
  then obtain w where "resolve_store (o_store o') (rt_resolver rt) st' = (Inr c, st'\<lparr>st_world := w\<rparr>)"
    using resolve_store_reads [OF assms(1), of "rt_resolver rt" st'] by (auto simp: reads_def)
  then show ?thesis using assms(2)
    by (simp add: daemon_resolve_def on_shared_def on_world_def on_daemon_def on_saved_def resolve_def saved_store_def st'_def)
qed

text \<open>C4. An accepted change takes effect: when the API answers a \<open>PATCH\<close> of a \<open>config.yml\<close> pool with 200, the
  configuration the main loop reads at its next turn has a pool of that name that passes the
  validation and has every number the request gave, as it was coerced.\<close>

theorem patch_takes_effect:
  assumes "serve o' rt token txt e rq (Controlling (PatchPool name)) (b, guard, keys) = (r, b', guard', keys')" "rsp_status r = 200"
    and "saved_store b = Some st" "rows_good (dashboard_deps o' rt token txt) (live st)"
      "rows_good (dashboard_deps o' rt token txt) (durable st)" "patchable name (live st)" "patchable name (durable st)"
    and "plain_request (dashboard_deps o' rt token txt) rq" "healthy (o_store o')"
      "distinct (map pool_name (base_pools (rt_resolver rt)))" "base_pool (dashboard_deps o' rt token txt) name = Some base"
  shows "\<exists>c b'' p cs. daemon_resolve o' rt b' = (Inr c, b'') \<and> p \<in> set (eff_pools c) \<and> pool_name p = name \<and>
    validation_errors [p] = [] \<and> coerce_pool_fields (str_rp (rt_resolver rt)) (json_body rq) = Inr cs \<and>
    list_all (\<lambda>(k, v). k \<in> set NUMERIC_INT \<longrightarrow> map_of (pool_to_dict p) k = Some v) cs"
proof -
  let ?d = "dashboard_deps o' rt token txt"
  let ?w = "\<lparr>w_store = detached b st, guard_failures = guard, in_flight = keys\<rparr>"
  have d: "d_resolver ?d = rt_resolver rt" by (simp add: dashboard_deps_def)
  obtain x w where run: "patch_pool_route ?d rq name ?w = (x, w)" by force
  have b': "b' = attached (w_store w)" and r: "r = answer x" using assms(1,3) run by (simp_all add: serve_def)
  have x: "x = Inr r" using r assms(2) by (cases x) (simp_all add: answer_def)
  have start: "web_good ?d ?w" using assms(4,5) by (simp add: good_as_tables detached_def)
  obtain u where u: "authorize ?d rq True ?w = (Inr None, u)" "patch_pool_view ?d rq name u = (Inr r, w)"
    using accepted_write [OF run [unfolded patch_pool_route_def serialized_def x] assms(2)] by blast
  have "seen (durable st) (live st) keys u"
    using preservesD [OF look_authorize, of "durable st" "live st" keys ?w ?d rq True] u(1)
    by (simp add: seen_def store_seen_def detached_def)
  then have ready: "patchable name (live (w_store u))" "patchable name (durable (w_store u))" "web_good ?d u"
    using assms(4-7) by (auto simp: seen_def store_seen_def good_as_tables)
  obtain cs old origin p rs now where saved: "coerce_pool_fields (str_rp (d_resolver ?d)) (json_body rq) = Inr cs" "origin \<noteq> ''ui''"
      "candidate_pool ?d name (dict_update cs old) origin = Inr (Some p)" "validation_errors [p] = []" "keyed_ok rs"
      "data_good ?d (PDict (dict_update cs old))"
      "t_pool_overrides (live (w_store w)) = dict_set name \<lparr>ov_data = dumps (float_repr (d_store ?d)) (PDict (dict_update cs old)),
        ov_origin = origin, ov_disabled = bool_int False, ov_updated_at = now\<rparr> rs"
    using patch_saved [OF u(2) assms(2,11) ready assms(8)] by blast
  have "web_good ?d w" using preservesD [OF patch_good [OF assms(8)] ready(3), of name] u(2) by simp
  then have good: "rows_good ?d (live (w_store w))" by (simp add: good_as_tables)
  have plain: "json_plain (float_repr (d_store ?d)) (PDict (dict_update cs old))" using saved(6) by (simp add: data_good_def)
  obtain c where c: "config_of (rt_resolver rt) (live (w_store w)) = Inr c" "p \<in> set (eff_pools c)"
    using saved_pool_resolves [OF good saved(5) _ assms(11) saved(7) plain saved(3,2)] assms(10) d by auto
  obtain b'' where b'': "daemon_resolve o' rt b' = (Inr c, b'')"
    using daemon_resolves [OF assms(9), of b' "\<lparr>st_dsn = st_dsn (w_store w), live = live (w_store w), durable = durable (w_store w),
      st_world = world_of (st_world (w_store w))\<rparr>"] c(1) by (auto simp: b' attached_def put_saved_def Let_def saved_store_def)
  obtain fs where fs: "coerce_pool_fields (str_rp (rt_resolver rt)) (dict_update cs old) = Inr fs" "set_fields (tunables fs) base = Inr p"
    using candidate_applied [OF saved(3,2) assms(11)] d by auto
  have "same_identity p base" using candidate_applied [OF saved(3,2) assms(11)] by (blast intro: apply_override_identity)
  then have name: "pool_name p = name" using assms(11) by (auto simp: same_identity_def base_pool_def find_Some_iff)
  have distinct: "distinct (map fst (json_body rq))" using assms(8) by (simp add: plain_request_def)
  have fsd: "distinct (map fst (tunables fs))"
    using saved(6) coerce_fst [OF fs(1)] by (simp add: data_good_def tunables_def distinct_map_filter)
  have "map_of (pool_to_dict p) k = Some v" if "(k, v) \<in> set cs" "k \<in> set NUMERIC_INT" for k v
    using set_fields_int [OF that(2) fs(2) fsd] numbers_survive [OF _ distinct fs(1) that] saved(1) d by simp
  with b'' c(2) name saved(1,4) d show ?thesis by (auto simp: list_all_iff)
qed

section \<open>A request to try it on\<close>

text \<open>A \<open>PATCH\<close> uses the store, the resolver and the tokens only.\<close>

definition bare :: "'w Deps \<Rightarrow> 'w Deps" where
  "bare d = \<lparr>d_store = d_store d, d_resolver = d_resolver d,
     d_docker = \<lparr>sd_spawn = (\<lambda>_. ret False), sd_stop = (\<lambda>_. ret False), sd_details = (\<lambda>_. ret []), sd_logs = (\<lambda>_ _. ret [])\<rparr>,
     d_token = d_token d, d_readonly = d_readonly d, rate_limit_op = ret PNone, host_state_op = ret [], body_text = (\<lambda>_. [])\<rparr>"

lemma bare_fields: "d_store (bare d) = d_store d" "d_resolver (bare d) = d_resolver d" "d_token (bare d) = d_token d"
  "d_readonly (bare d) = d_readonly d"
  by (simp_all add: bare_def)

lemma patch_bare: "patch_pool_route (bare d) rq name = patch_pool_route d rq name"
  unfolding patch_pool_route_def require_write_def authorized_def authorize_def locked_until_def record_failure_def web_time_def scope_of_def
    serialized_def patch_pool_view_def checked_save_def save_override_def candidate_pool_def base_pool_def web_audit_def web_overrides_def
    body_json_def bare_fields ..

text \<open>A store whose clock stands still.\<close>

definition calm_store :: "'w StoreEnv" where
  "calm_store = \<lparr>time_op = ret 1000, store_mono_op = ret 1000, store_sleep_op = (\<lambda>_. ret ()), statement_op = ret (), commit_op = ret (),
     connect_op = (\<lambda>_. ret ()), parent_dir_op = (\<lambda>_. ret ()), contents = (\<lambda>_ _. empty_tables), float_repr = (\<lambda>_. ''0.0''), open_fuel = 40\<rparr>"

definition calm_world :: "nat Outside" where
  "calm_world = demo_world\<lparr>o_store := calm_store\<rparr>"

lemma from_outside_ret: "from_outside (ret x) = ret x"
  by (simp add: fun_eq_iff from_outside_def on_shared_def on_world_def on_daemon_def on_outside_def)

lemma calm_api: "api_store_env calm_world = calm_store"
  by (simp add: api_store_env_def calm_world_def calm_store_def Let_def from_outside_ret del: ret_apply)

definition calm_deps :: "nat Brain Deps" where
  "calm_deps = \<lparr>d_store = calm_store, d_resolver = demo_resolver,
     d_docker = \<lparr>sd_spawn = (\<lambda>_. ret False), sd_stop = (\<lambda>_. ret False), sd_details = (\<lambda>_. ret []), sd_logs = (\<lambda>_ _. ret [])\<rparr>,
     d_token = ''secret'', d_readonly = [], rate_limit_op = ret PNone, host_state_op = ret [], body_text = (\<lambda>_. [])\<rparr>"

lemma calm_patch: "case fst (patch_pool_route calm_deps demo_patch ''ci''
    \<lparr>w_store = \<lparr>st_dsn = st_dsn demo_store, live = live demo_store, durable = durable demo_store, st_world = b\<rparr>, guard_failures = [], in_flight = []\<rparr>) of
    Inr r \<Rightarrow> rsp_status r = 200 | Inl _ \<Rightarrow> False"
  by code_simp

theorem patch_takes_effect_witness:
  "\<exists>b' c b'' p. fst (snd (serve calm_world demo_runtime ''secret'' (\<lambda>_. []) demo_read_env demo_patch (Controlling (PatchPool ''ci''))
      (dm_scaler demo_daemon_state, [], []))) = b' \<and>
     daemon_resolve calm_world demo_runtime b' = (Inr c, b'') \<and> p \<in> set (eff_pools c) \<and> pool_name p = ''ci'' \<and>
     map_of (pool_to_dict p) ''max_runners'' = Some (PInt 7)"
proof -
  let ?d = "dashboard_deps calm_world demo_runtime ''secret'' (\<lambda>_. [])" and ?b = "dm_scaler demo_daemon_state"
  let ?serve = "serve calm_world demo_runtime ''secret'' (\<lambda>_. []) demo_read_env demo_patch (Controlling (PatchPool ''ci'')) (?b, [], [])"
  obtain r b' guard' keys' where run: "?serve = (r, b', guard', keys')" by (cases ?serve)
  have saved: "saved_store ?b = Some demo_store"
    by (simp add: saved_store_def demo_daemon_state_def new_daemon_def new_brain_def new_scaler_def)
  have "resolve_readonly_token (o_env calm_world) = []" by code_simp
  then have "bare ?d = bare calm_deps"
    using calm_api by (simp add: bare_def dashboard_deps_def calm_deps_def demo_runtime_def)
  then have "patch_pool_route ?d demo_patch ''ci'' = patch_pool_route calm_deps demo_patch ''ci''"
    using patch_bare [of ?d] patch_bare [of calm_deps] by metis
  moreover obtain x w where x: "patch_pool_route calm_deps demo_patch ''ci''
      \<lparr>w_store = detached ?b demo_store, guard_failures = [], in_flight = []\<rparr> = (x, w)" by force
  ultimately have ok: "rsp_status r = 200"
    using run calm_patch [of ?b] saved by (auto simp: serve_def detached_def answer_def split: sum.splits)
  have rows: "rows_good ?d (live demo_store)" "rows_good ?d (durable demo_store)"
    "patchable ''ci'' (live demo_store)" "patchable ''ci'' (durable demo_store)"
    by (simp_all add: rows_good_def patchable_def not_created_def keyed_ok_def demo_store_def empty_tables_def)
  have b: "json_body demo_patch = [(''max_runners'', PStr ''7''), (''runner_labels'', PStr ''linux'')]" by code_simp
  have cs: "coerce_pool_fields (str_rp demo_resolver) (json_body demo_patch) =
      Inr [(''max_runners'', PInt 7), (''runner_labels'', PStr ''linux'')]" by code_simp
  then have plain: "plain_request ?d demo_patch" by (simp add: plain_request_def b dashboard_deps_def demo_runtime_def)
  have h: "healthy (o_store calm_world)" by (simp add: healthy_def calm_world_def calm_store_def)
  have names: "distinct (map pool_name (base_pools (rt_resolver demo_runtime)))" by code_simp
  have "find (\<lambda>p. pool_name p = ''ci'') (base_pools demo_resolver) \<noteq> None" by code_simp
  then obtain base where base: "base_pool ?d ''ci'' = Some base"
    by (auto simp: base_pool_def dashboard_deps_def demo_runtime_def)
  have "''max_runners'' \<in> set NUMERIC_INT" by (simp add: NUMERIC_INT_def)
  then show ?thesis using patch_takes_effect [OF run ok saved rows plain h names base] run cs
    by (auto simp: demo_runtime_def)
qed

end
