(* ===== verification/FederationFacts.thy ===== *)
theory FederationFacts
  imports Federation
begin

text \<open>
  Correctness of the federated split and of snapshot validation. The split is analysed
  through one invariant of its loop (\<open>split_inv\<close>): no host is past its capacity, and the
  hosts the loop has dropped are full. From it come the exact total, the bounds, the
  proportionality of the result and its independence of the order of the slots.
\<close>

section \<open>Shares as a function\<close>

lemma share_of_dict_set [simp]: "share_of (dict_set n v d) = (share_of d)(n := v)"
  by (auto simp: share_of_def)

definition cap_of :: "Slot \<Rightarrow> int" where
  "cap_of s = max 0 (slot_capacity s)"

definition total_shares :: "(string, int) dict \<Rightarrow> Slot list \<Rightarrow> int" where
  "total_shares d slots = sum_list (map (share_of d) (map slot_name slots))"

definition total_capacity :: "Slot list \<Rightarrow> int" where
  "total_capacity slots = sum_list (map cap_of slots)"

lemma total_shares_set:
  assumes "distinct (map slot_name slots)" and "b \<in> set slots"
  shows "total_shares (dict_set (slot_name b) (share_of d (slot_name b) + 1) d) slots
    = total_shares d slots + 1"
  using assms unfolding total_shares_def share_of_dict_set
  by (subst sum_list_map_fun_upd) auto

lemma total_shares_le_capacity:
  "(\<And>s. s \<in> set slots \<Longrightarrow> share_of d (slot_name s) \<le> cap_of s) \<Longrightarrow>
   total_shares d slots \<le> total_capacity slots"
  by (simp add: total_shares_def total_capacity_def sum_list_mono comp_def)

section \<open>The loop invariant\<close>

definition split_inv :: "Slot list \<Rightarrow> Slot list \<Rightarrow> (string, int) dict \<Rightarrow> bool" where
  "split_inv slots open_slots d \<longleftrightarrow>
     set open_slots \<subseteq> set slots \<and>
     (\<forall>s \<in> set slots. 0 \<le> share_of d (slot_name s) \<and> share_of d (slot_name s) \<le> cap_of s) \<and>
     (\<forall>s \<in> set slots. s \<notin> set open_slots \<longrightarrow> slot_capacity s \<le> share_of d (slot_name s))"

definition still_open :: "(string, int) dict \<Rightarrow> Slot list \<Rightarrow> Slot list" where
  "still_open d slots = filter (\<lambda>s. share_of d (slot_name s) < slot_capacity s) slots"

lemma split_inv_still_open: "split_inv slots os d \<Longrightarrow> split_inv slots (still_open d os) d"
  by (auto simp: split_inv_def still_open_def not_less)

lemma split_inv_in_still_open:
  "split_inv slots os d \<Longrightarrow> s \<in> set slots \<Longrightarrow> share_of d (slot_name s) < slot_capacity s \<Longrightarrow>
   s \<in> set (still_open d os)"
  by (force simp: split_inv_def still_open_def)

lemma split_inv_step:
  assumes inv: "split_inv slots os d" and b: "b \<in> set (still_open d os)"
    and dist: "distinct (map slot_name slots)"
  shows "split_inv slots (still_open d os) (dict_set (slot_name b) (share_of d (slot_name b) + 1) d)"
proof -
  have bs: "b \<in> set slots" and lt: "share_of d (slot_name b) < slot_capacity b"
    using inv b by (auto simp: split_inv_def still_open_def)
  have same: "s = b" if "s \<in> set slots" "slot_name s = slot_name b" for s
    using dist bs that by (metis distinct_map inj_onD)
  have "0 \<le> share_of d (slot_name b)" using inv bs by (simp add: split_inv_def)
  moreover have "share_of d (slot_name b) + 1 \<le> cap_of b" using lt by (simp add: cap_of_def)
  ultimately show ?thesis
    using split_inv_still_open [OF inv] same b unfolding split_inv_def share_of_dict_set
    by (auto dest!: same)
qed

lemma split_rounds_Suc:
  "split_rounds (Suc n) os d =
     (case still_open d os of
        [] \<Rightarrow> d
      | s # ss \<Rightarrow>
          let best = slot_name (max_by (slot_key d) s ss)
          in split_rounds n (s # ss) (dict_set best (share_of d best + 1) d))"
  by (simp add: still_open_def Let_def split: list.splits)

declare split_rounds.simps(2) [simp del]

lemma split_inv_all_full:
  "split_inv slots os d \<Longrightarrow> still_open d os = [] \<Longrightarrow> s \<in> set slots \<Longrightarrow>
   share_of d (slot_name s) = cap_of s"
  using split_inv_in_still_open [of slots os d s]
  by (force simp: split_inv_def cap_of_def)

text \<open>Induction over the rounds: what every step keeps holds of the result.\<close>

lemma split_rounds_induct:
  assumes inv: "split_inv slots os d" and P: "P d" and dist: "distinct (map slot_name slots)"
    and step: "\<And>os d b. split_inv slots os d \<Longrightarrow> P d \<Longrightarrow> b \<in> set (still_open d os) \<Longrightarrow>
       (\<And>s. s \<in> set (still_open d os) \<Longrightarrow> slot_key d s \<le> slot_key d b) \<Longrightarrow>
       P (dict_set (slot_name b) (share_of d (slot_name b) + 1) d)"
  shows "P (split_rounds n os d)"
  using inv P
proof (induction n arbitrary: os d)
  case 0
  then show ?case by simp
next
  case (Suc n)
  show ?case
  proof (cases "still_open d os")
    case Nil
    with Suc.prems show ?thesis by (simp add: split_rounds_Suc)
  next
    case (Cons s ss)
    let ?b = "max_by (slot_key d) s ss"
    have b: "?b \<in> set (still_open d os)" using max_by_in [of "slot_key d" s ss] Cons by simp
    have "P (dict_set (slot_name ?b) (share_of d (slot_name ?b) + 1) d)"
      using Suc.prems b by (rule step) (simp add: Cons max_by_ge)
    with Suc.IH split_inv_step [OF Suc.prems(1) b dist] Cons show ?thesis
      by (simp add: split_rounds_Suc Let_def)
  qed
qed

section \<open>The total\<close>

lemma total_split_rounds:
  assumes "split_inv slots os d" and dist: "distinct (map slot_name slots)"
  shows "total_shares (split_rounds n os d) slots = min (total_shares d slots + int n) (total_capacity slots)"
  using assms(1)
proof (induction n arbitrary: os d)
  case 0
  then have "total_shares d slots \<le> total_capacity slots"
    by (intro total_shares_le_capacity) (simp add: split_inv_def)
  then show ?case by simp
next
  case (Suc n)
  show ?case
  proof (cases "still_open d os")
    case Nil
    have "map (\<lambda>s. share_of d (slot_name s)) slots = map cap_of slots"
      using split_inv_all_full [OF Suc.prems Nil] by simp
    then have "total_shares d slots = total_capacity slots"
      by (simp only: total_shares_def total_capacity_def map_map comp_def)
    with Nil show ?thesis by (simp add: split_rounds_Suc)
  next
    case (Cons s ss)
    let ?b = "max_by (slot_key d) s ss"
    have b: "?b \<in> set (still_open d os)" using max_by_in [of "slot_key d" s ss] Cons by simp
    then have bs: "?b \<in> set slots" using Suc.prems by (auto simp: split_inv_def still_open_def)
    from Suc.IH [OF split_inv_step [OF Suc.prems b dist]] total_shares_set [OF dist bs] Cons
    show ?thesis by (simp add: split_rounds_Suc Let_def)
  qed
qed

section \<open>The initial state\<close>

lemma map_of_initial_shares:
  "map_of (initial_shares slots) n = (if n \<in> slot_name ` set slots then Some 0 else None)"
proof -
  have "map_of (fold (\<lambda>s d. dict_set (slot_name s) (0::int) d) slots d) n =
      (if n \<in> slot_name ` set slots then Some 0 else map_of d n)" for d
    by (induction slots arbitrary: d) auto
  from this [of "[]"] show ?thesis by (simp add: initial_shares_def)
qed

lemma share_of_initial [simp]: "share_of (initial_shares slots) n = 0"
  by (simp add: share_of_def map_of_initial_shares)

lemma split_inv_initial: "split_inv slots (sort_key slot_name slots) (initial_shares slots)"
  by (simp add: split_inv_def cap_of_def)

lemma total_initial [simp]: "total_shares (initial_shares slots) slots = 0"
proof -
  have "map (share_of (initial_shares slots)) ns = map (\<lambda>_. 0) ns" for ns by simp
  then show ?thesis by (simp only: total_shares_def) (simp add: comp_def)
qed

lemma total_split:
  "distinct (map slot_name slots) \<Longrightarrow>
   total_shares (split queued slots) slots = min (max 0 queued) (total_capacity slots)"
  by (simp add: split_def total_split_rounds [OF split_inv_initial])

lemma split_bounds:
  assumes dist: "distinct (map slot_name slots)" and s: "s \<in> set slots"
  shows "0 \<le> share_of (split queued slots) (slot_name s) \<and>
    share_of (split queued slots) (slot_name s) \<le> cap_of s"
proof -
  let ?P = "\<lambda>d. \<forall>s \<in> set slots. 0 \<le> share_of d (slot_name s) \<and> share_of d (slot_name s) \<le> cap_of s"
  have "?P (split queued slots)"
    unfolding split_def
  proof (rule split_rounds_induct [OF split_inv_initial _ dist, where P = ?P])
    show "?P (initial_shares slots)" by (simp add: cap_of_def)
  next
    fix os d b assume "split_inv slots os d" "b \<in> set (still_open d os)"
    from split_inv_step [OF this dist]
    show "?P (dict_set (slot_name b) (share_of d (slot_name b) + 1) d)"
      by (simp add: split_inv_def)
  qed
  with s show ?thesis by blast
qed

section \<open>Proportionality\<close>

text \<open>
  The loop hands each job to the host with the highest quotient of free cores per job held
  (the highest-averages rule). Whenever one host may still take a job and another holds
  one, the quotient the first would get for one more job is at most the quotient at which
  the second got its last.
\<close>

definition proportional :: "Slot list \<Rightarrow> (string, int) dict \<Rightarrow> bool" where
  "proportional slots d \<longleftrightarrow>
     (\<forall>i \<in> set slots. \<forall>j \<in> set slots.
        share_of d (slot_name i) < slot_capacity i \<longrightarrow> 0 < share_of d (slot_name j) \<longrightarrow>
        slot_key d i \<le> of_int (slot_free_cores j + 1) / of_int (share_of d (slot_name j)))"

lemma quotient_antimono:
  "0 \<le> f \<Longrightarrow> 0 < a \<Longrightarrow> a \<le> b \<Longrightarrow> of_int f / of_int b \<le> (of_int f / of_int a :: rat)"
  by (intro divide_left_mono) (auto intro: mult_pos_pos)

lemma proportional_step:
  assumes inv: "split_inv slots os d" and fair: "proportional slots d"
    and b: "b \<in> set (still_open d os)" and dist: "distinct (map slot_name slots)"
    and best: "\<And>s. s \<in> set (still_open d os) \<Longrightarrow> slot_key d s \<le> slot_key d b"
    and free: "\<forall>s \<in> set slots. 0 \<le> slot_free_cores s"
  shows "proportional slots (dict_set (slot_name b) (share_of d (slot_name b) + 1) d)"
    (is "proportional slots ?d")
  unfolding proportional_def
proof (intro ballI impI)
  fix i j
  assume i: "i \<in> set slots" and j: "j \<in> set slots"
    and iopen: "share_of ?d (slot_name i) < slot_capacity i" and jpos: "0 < share_of ?d (slot_name j)"
  have bs: "b \<in> set slots" and bopen: "share_of d (slot_name b) < slot_capacity b"
    using inv b by (auto simp: split_inv_def still_open_def)
  have nn: "0 \<le> share_of d (slot_name s)" if "s \<in> set slots" for s
    using inv that by (simp add: split_inv_def)
  have same: "s = b" if "s \<in> set slots" "slot_name s = slot_name b" for s
    using dist bs that by (metis distinct_map inj_onD)
  have iopen_d: "share_of d (slot_name i) < slot_capacity i" using iopen by (auto split: if_splits)
  have key_i: "slot_key ?d i \<le> slot_key d i"
    using quotient_antimono [of "slot_free_cores i + 1" "share_of d (slot_name i) + 1" "share_of ?d (slot_name i) + 1"]
      free i nn [OF i] by (auto simp: slot_key_def split: if_splits)
  show "slot_key ?d i \<le> of_int (slot_free_cores j + 1) / of_int (share_of ?d (slot_name j))"
  proof (cases "j = b")
    case True
    have "slot_key d i \<le> slot_key d b"
      by (rule best) (rule split_inv_in_still_open [OF inv i iopen_d])
    also have "slot_key d b = of_int (slot_free_cores j + 1) / of_int (share_of ?d (slot_name j))"
      using True by (simp add: slot_key_def)
    finally show ?thesis using key_i by simp
  next
    case False
    then have "slot_name j \<noteq> slot_name b" using same j by blast
    then have sj: "share_of ?d (slot_name j) = share_of d (slot_name j)" by simp
    with jpos fair i j iopen_d
    have "slot_key d i \<le> of_int (slot_free_cores j + 1) / of_int (share_of ?d (slot_name j))"
      by (simp add: proportional_def)
    with key_i show ?thesis by simp
  qed
qed

lemma split_proportional:
  assumes dist: "distinct (map slot_name slots)" and free: "\<forall>s \<in> set slots. 0 \<le> slot_free_cores s"
  shows "proportional slots (split queued slots)"
  unfolding split_def
proof (rule split_rounds_induct [OF split_inv_initial _ dist, where P = "proportional slots"])
  show "proportional slots (initial_shares slots)" by (simp add: proportional_def)
qed (rule proportional_step [OF _ _ _ dist _ free])

section \<open>Every host computes the same split\<close>

lemma share_of_cong: "map_of d = map_of d' \<Longrightarrow> share_of d = share_of d'"
  by (simp add: share_of_def fun_eq_iff)

lemma split_rounds_cong: "map_of d = map_of d' \<Longrightarrow> map_of (split_rounds n os d) = map_of (split_rounds n os d')"
proof (induction n arbitrary: os d d')
  case 0
  then show ?case by simp
next
  case (Suc n)
  have sh: "share_of d = share_of d'" using Suc.prems by (rule share_of_cong)
  then have "still_open d os = still_open d' os" "slot_key d = slot_key d'"
    by (simp_all add: still_open_def slot_key_def fun_eq_iff)
  with sh Suc.prems show ?case
    by (cases "still_open d' os") (simp_all add: split_rounds_Suc Let_def Suc.IH)
qed

lemma sort_key_perm:
  assumes "mset xs = mset ys" and "distinct (map f xs)"
  shows "sort_key f xs = sort_key f ys"
proof (rule sort_key_inj_key_eq)
  show "mset xs = mset (sort_key f ys)" using assms(1) by simp
  show "inj_on f (set xs)" using assms(2) by (simp add: distinct_map)
qed simp

lemma split_order_independent:
  assumes "mset slots = mset slots'" and "distinct (map slot_name slots)"
  shows "map_of (split queued slots) = map_of (split queued slots')"
proof -
  have "set slots = set slots'" using assms(1) by (metis set_mset_mset)
  then have "map_of (initial_shares slots) = map_of (initial_shares slots')"
    by (simp add: map_of_initial_shares fun_eq_iff)
  then show ?thesis
    unfolding split_def sort_key_perm [OF assms] by (rule split_rounds_cong)
qed

section \<open>What a host feeds into its scaling formula\<close>

lemma share_of_split_rounds_le: "share_of (split_rounds n os d) m \<le> share_of d m + int n"
proof (induction n arbitrary: os d)
  case 0
  then show ?case by simp
next
  case (Suc n)
  show ?case
  proof (cases "still_open d os")
    case Nil
    then show ?thesis by (simp add: split_rounds_Suc)
  next
    case (Cons s ss)
    let ?b = "slot_name (max_by (slot_key d) s ss)"
    have "share_of (split_rounds n (s # ss) (dict_set ?b (share_of d ?b + 1) d)) m
        \<le> share_of (dict_set ?b (share_of d ?b + 1) d) m + int n" by (rule Suc.IH)
    also have "\<dots> \<le> share_of d m + 1 + int n" by simp
    finally show ?thesis using Cons by (simp add: split_rounds_Suc Let_def)
  qed
qed

lemma share_of_split_le: "share_of (split queued slots) m \<le> max 0 queued"
  using share_of_split_rounds_le [of "nat (max 0 queued)" _ "initial_shares slots" m]
  by (simp add: split_def)

lemma rescue_count_bounds: "0 \<le> rescue_count f ages \<and> rescue_count f ages \<le> int (length ages)"
  by (simp add: rescue_count_def)

lemma queue_input_bounds:
  "0 \<le> fst (queue_input f pool ages now) \<and> fst (queue_input f pool ages now) \<le> int (length ages)"
  using rescue_count_bounds [of f ages] share_of_split_le [of "int (length ages)"]
  by (auto simp: queue_input_def Let_def)

lemma queue_input_rescues:
  "\<not> is_hot f \<Longrightarrow> rescue_count f ages \<le> fst (queue_input f pool ages now)"
  by (simp add: queue_input_def Let_def)

lemma no_fresh_peer_not_covered: "fresh_peers f now = [] \<Longrightarrow> \<not> covers f pool now"
  by (simp add: covers_def split: option.splits)

lemma covered_stops_when_stale:
  assumes "list_all (\<lambda>v. pv_ok_at v + of_int (stale_after_seconds (fed_config f)) < now) (map snd (fed_views f))"
  shows "\<not> covers f pool now"
proof -
  have "\<not> view_fresh f now v" if "v \<in> set (map snd (fed_views f))" for v
    using assms that by (auto simp: view_fresh_def list_all_iff split: option.splits)
  then have "filter (view_fresh f now) (map snd (fed_views f)) = []" by (simp add: filter_empty_conv)
  then have "fresh_peers f now = []" by (simp add: fresh_peers_def map_filter_simps)
  then show ?thesis by (rule no_fresh_peer_not_covered)
qed

section \<open>Validated snapshots\<close>

definition counts_ok :: "string \<times> PoolCounts \<Rightarrow> bool" where
  "counts_ok nc \<longleftrightarrow> length (fst nc) \<le> 200 \<and> cnt_running (snd nc) \<in> {0..MAX_COUNT} \<and>
     cnt_busy (snd nc) \<in> {0..MAX_COUNT} \<and> cnt_max_runners (snd nc) \<in> {0..MAX_COUNT}"

definition host_ok :: "HostView \<Rightarrow> bool" where
  "host_ok h \<longleftrightarrow>
     hv_cores h \<in> {1..MAX_CORES} \<and> hv_cpu_count h \<in> {1..MAX_CORES} \<and>
     pf_le (Fin 0) (hv_load1 h) \<and> pf_le (hv_load1 h) (Fin 100000) \<and>
     hv_mem_total_mb h \<in> {0..2 ^ 30} \<and> hv_mem_available_mb h \<in> {0..2 ^ 30} \<and>
     pred_option (\<lambda>t. - 50 \<le> t \<and> t \<le> 150) (hv_temp_c h) \<and> hv_free_cores h \<in> {0..MAX_CORES}"

definition snapshot_ok :: "Snapshot \<Rightarrow> bool" where
  "snapshot_ok s \<longleftrightarrow>
     (sn_instance s = [] \<or> name_ok (sn_instance s)) \<and> length (sn_version s) \<le> 64 \<and>
     0 \<le> sn_ts s \<and> sn_ts s \<le> 10 ^ 11 \<and> host_ok (sn_host s) \<and>
     int (length (sn_pools s)) \<le> MAX_COUNT \<and> list_all counts_ok (sn_pools s) \<and>
     pred_option (\<lambda>g. g \<in> {0..MAX_COUNT}) (sn_global_free s)"

text \<open>The JSON object a host publishes for a snapshot.\<close>

definition counts_dict :: "PoolCounts \<Rightarrow> pyval" where
  "counts_dict c = PDict [(''running'', PInt (cnt_running c)), (''busy'', PInt (cnt_busy c)),
     (''max_runners'', PInt (cnt_max_runners c))]"

definition host_dict :: "HostView \<Rightarrow> pyval" where
  "host_dict h = PDict [(''cores'', PInt (hv_cores h)), (''cpu_count'', PInt (hv_cpu_count h)),
     (''load1'', PFloat (hv_load1 h)), (''mem_total_mb'', PInt (hv_mem_total_mb h)),
     (''mem_available_mb'', PInt (hv_mem_available_mb h)),
     (''temp_c'', case hv_temp_c h of None \<Rightarrow> PNone | Some t \<Rightarrow> PFloat (Fin t)),
     (''free_cores'', PInt (hv_free_cores h))]"

definition snapshot_dict :: "Snapshot \<Rightarrow> pyval" where
  "snapshot_dict s = PDict [(''instance'', PStr (sn_instance s)), (''version'', PStr (sn_version s)),
     (''ts'', PFloat (Fin (sn_ts s))), (''host'', host_dict (sn_host s)),
     (''pools'', PDict (map (\<lambda>(n, c). (n, counts_dict c)) (sn_pools s))),
     (''global_free'', case sn_global_free s of None \<Rightarrow> PNone | Some g \<Rightarrow> PInt g)]"

lemma number_bounds: "number v low high what = Inr r \<Longrightarrow> low \<le> r \<and> r \<le> high"
  by (auto simp: number_def check_range_def split: pyval.splits pyfloat.splits if_splits)

lemma int_number_bounds:
  assumes "int_number v (of_int a) (of_int b) what = Inr n" and "0 \<le> a"
  shows "a \<le> n \<and> n \<le> b"
  using assms number_bounds [of v "of_int a" "of_int b" what] trunc_rat_mono_bounds
  by (auto simp: int_number_def bind_result_Inr_iff)

lemmas int_number_bounds_0 = int_number_bounds [of _ 0, simplified]
lemmas int_number_bounds_1 = int_number_bounds [of _ 1, simplified]

lemma int_number_PInt:
  assumes "a \<le> n" and "n \<le> b" and "0 \<le> a" and "b \<le> 2 ^ 30"
  shows "int_number (PInt n) (of_int a) (of_int b) what = Inr n"
proof -
  have "\<bar>n\<bar> \<le> 2 ^ 30" using assms by simp
  also have "(2 ^ 30 :: int) < 2 ^ 1024 - 2 ^ 970" by simp
  finally show ?thesis
    using assms by (simp add: int_number_def number_def int_fits_float_def check_range_def)
qed

lemma int_number_PInt_numeral:
  "0 \<le> n \<Longrightarrow> n \<le> numeral k \<Longrightarrow> (numeral k :: int) \<le> 2 ^ 30 \<Longrightarrow>
   int_number (PInt n) 0 (numeral k) what = Inr n"
  "1 \<le> n \<Longrightarrow> n \<le> numeral k \<Longrightarrow> (numeral k :: int) \<le> 2 ^ 30 \<Longrightarrow>
   int_number (PInt n) 1 (numeral k) what = Inr n"
  using int_number_PInt [of 0 n "numeral k"] int_number_PInt [of 1 n "numeral k"] by simp_all

lemma clean_counts_ok: "clean_counts e = Inr nc \<Longrightarrow> counts_ok nc"
  by (cases e) (auto simp: clean_counts_def counts_ok_def bind_result_Inr_iff
      dest!: int_number_bounds_0 split: pyval.splits if_splits)

lemma clean_counts_dict:
  "counts_ok (n, c) \<Longrightarrow> clean_counts (n, counts_dict c) = Inr (n, c)"
  by (simp add: clean_counts_def counts_dict_def counts_ok_def pget_def int_number_PInt_numeral MAX_COUNT_def)

lemma clean_host_ok: "clean_host d = Inr h \<Longrightarrow> host_ok h"
  using int_number_bounds_0 [of _ "2 ^ 30"]
  by (auto simp: clean_host_def host_ok_def bind_result_Inr_iff
      dest!: int_number_bounds_0 int_number_bounds_1 number_bounds split: pyval.splits)

lemma clean_host_dict: "host_ok h \<Longrightarrow> clean_host (dict_items (host_dict h)) = Inr h"
  by (cases "hv_temp_c h"; cases "hv_load1 h")
    (simp_all add: clean_host_def host_dict_def host_ok_def pget_def
      int_number_PInt_numeral MAX_CORES_def number_def check_range_def)

lemma validate_snapshot_ok: "validate_snapshot rp v = Inr s \<Longrightarrow> snapshot_ok s"
proof -
  assume a: "validate_snapshot rp v = Inr s"
  then obtain d inst host pools where
    v: "v = PDict d" "pget d ''instance'' PNone = PStr inst" "inst = [] \<or> name_ok inst"
      "pget d ''host'' PNone = PDict host" "pget d ''pools'' PNone = PDict pools"
      "\<not> MAX_COUNT < int (length pools)"
    by (auto simp: validate_snapshot_def split: pyval.splits if_splits)
  with a obtain cp ts h gf where
    parts: "map_result clean_counts pools = Inr cp" "number (pget d ''ts'' (PInt 0)) 0 (10 ^ 11) ''ts'' = Inr ts"
      "clean_host host = Inr h"
      "(case pget d ''global_free'' PNone of PNone \<Rightarrow> Inr None
        | g \<Rightarrow> bind_result (int_number g 0 (of_int MAX_COUNT) ''global_free'') (\<lambda>n. Inr (Some n))) = Inr gf"
    and s: "s = \<lparr>sn_instance = inst, sn_version = take 64 (py_str_of rp (pget d ''version'' (PStr []))),
               sn_ts = ts, sn_host = h, sn_pools = cp, sn_global_free = gf\<rparr>"
    by (auto simp: validate_snapshot_def bind_result_Inr_iff)
  have "list_all counts_ok cp"
    using parts(1) clean_counts_ok by (rule map_result_list_all)
  moreover have "length cp = length pools" using parts(1) by (rule map_result_Inr_length)
  moreover have "pred_option (\<lambda>g. g \<in> {0..MAX_COUNT}) gf"
    using parts(4) by (auto simp: bind_result_Inr_iff dest!: int_number_bounds_0 split: pyval.splits)
  ultimately show ?thesis
    using v s clean_host_ok [OF parts(3)] number_bounds [OF parts(2)] by (simp add: snapshot_ok_def)
qed

lemma validate_snapshot_dict:
  assumes "snapshot_ok s"
  shows "validate_snapshot rp (snapshot_dict s) = Inr s"
proof -
  have "map_result clean_counts (map (\<lambda>(n, c). (n, counts_dict c)) (sn_pools s)) = Inr (sn_pools s)"
    using assms unfolding map_result_Inr_iff
    by (auto simp: snapshot_ok_def list_all_iff clean_counts_dict)
  moreover obtain hd where hd: "host_dict (sn_host s) = PDict hd" "clean_host hd = Inr (sn_host s)"
    using assms clean_host_dict [of "sn_host s"] by (simp add: snapshot_ok_def host_dict_def)
  ultimately show ?thesis
    using assms
    by (cases "sn_global_free s")
      (simp_all add: validate_snapshot_def snapshot_dict_def snapshot_ok_def pget_def number_def
        check_range_def int_number_PInt_numeral MAX_COUNT_def)
qed

section \<open>Properties\<close>

definition demo_slots :: "Slot list" where
  "demo_slots = [\<lparr>slot_name = ''b'', slot_free_cores = 7, slot_capacity = 3\<rparr>,
     \<lparr>slot_name = ''a'', slot_free_cores = 3, slot_capacity = 9\<rparr>]"

text \<open>C36. The federated split hands out every queued job it can: on hosts with different
  names the shares add up to the queue, or to the hosts' joint capacity when the queue is
  longer, and no host gets more than its own capacity.\<close>

theorem federated_split_total:
  assumes "distinct (map slot_name slots)"
  shows "sum_list (map (\<lambda>s. share_of (split queued slots) (slot_name s)) slots) =
      min (max 0 queued) (sum_list (map (\<lambda>s. max 0 (slot_capacity s)) slots)) \<and>
    (\<forall>s\<in>set slots. 0 \<le> share_of (split queued slots) (slot_name s) \<and>
       share_of (split queued slots) (slot_name s) \<le> max 0 (slot_capacity s))"
  using total_split [OF assms, of queued] split_bounds [OF assms, of _ queued]
  by (simp add: total_shares_def total_capacity_def cap_of_def [abs_def] comp_def)

theorem federated_split_total_witness:
  "sum_list (map (\<lambda>s. share_of (split 5 demo_slots) (slot_name s)) demo_slots) = 5"
proof -
  have "distinct (map slot_name demo_slots)" by code_simp
  from federated_split_total [OF this, of 5]
  have "sum_list (map (\<lambda>s. share_of (split 5 demo_slots) (slot_name s)) demo_slots) =
      min (max 0 5) (sum_list (map (\<lambda>s. max 0 (slot_capacity s)) demo_slots))" by blast
  moreover have "min (max 0 5) (sum_list (map (\<lambda>s. max 0 (slot_capacity s)) demo_slots)) = (5::int)"
    by code_simp
  ultimately show ?thesis by simp
qed

text \<open>C37. The split is proportional to free cores, in the sense of the highest-averages
  rule: when host i could still take a job, the free cores per job it would have with one
  more are at most what host j had when it got its last job.\<close>

theorem federated_split_fair:
  assumes "distinct (map slot_name slots)" "\<forall>s\<in>set slots. 0 \<le> slot_free_cores s" "i \<in> set slots" "j \<in> set slots"
    "share_of (split queued slots) (slot_name i) < slot_capacity i" "0 < share_of (split queued slots) (slot_name j)"
  shows "(of_int (slot_free_cores i + 1) / of_int (share_of (split queued slots) (slot_name i) + 1) :: rat)
     \<le> of_int (slot_free_cores j + 1) / of_int (share_of (split queued slots) (slot_name j))"
  using split_proportional [OF assms(1,2), of queued] assms(3-) by (simp add: proportional_def slot_key_def)

theorem federated_split_fair_witness:
  "(of_int (3 + 1) / of_int (share_of (split 5 demo_slots) ''a'' + 1) :: rat)
     \<le> of_int (7 + 1) / of_int (share_of (split 5 demo_slots) ''b'')"
proof -
  have "distinct (map slot_name demo_slots)" "\<forall>s\<in>set demo_slots. 0 \<le> slot_free_cores s"
    "demo_slots ! 1 \<in> set demo_slots" "demo_slots ! 0 \<in> set demo_slots"
    "share_of (split 5 demo_slots) (slot_name (demo_slots ! 1)) < slot_capacity (demo_slots ! 1)"
    "0 < share_of (split 5 demo_slots) (slot_name (demo_slots ! 0))"
    by code_simp+
  from federated_split_fair [OF this] show ?thesis by (simp add: demo_slots_def)
qed

text \<open>Every host of the federation computes the same split: the shares do not depend on
  the order in which a host lists the slots.\<close>

lemma federated_split_agrees:
  assumes "mset slots = mset slots'" "distinct (map slot_name slots)"
  shows "share_of (split queued slots) = share_of (split queued slots')"
  by (rule share_of_cong) (rule split_order_independent [OF assms])

lemma federated_split_agrees_witness:
  "share_of (split 5 demo_slots) = share_of (split 5 (rev demo_slots))"
proof -
  have "distinct (map slot_name demo_slots)" by code_simp
  with federated_split_agrees [of demo_slots "rev demo_slots" 5] show ?thesis by simp
qed


text \<open>A host alone scales alone: when no peer answered within \<open>stale_after_seconds\<close>
  the pool is not covered by the federation, whatever the peers said before.\<close>

lemma stale_peers_uncovered:
  assumes "\<forall>(n, v)\<in>set (fed_views f). pv_ok_at v + of_int (stale_after_seconds (fed_config f)) < now"
  shows "fresh_peers f now = [] \<and> \<not> covers f pool now"
proof -
  have "list_all (\<lambda>v. pv_ok_at v + of_int (stale_after_seconds (fed_config f)) < now) (map snd (fed_views f))"
    using assms by (auto simp: list_all_iff)
  moreover from this have "filter (view_fresh f now) (map snd (fed_views f)) = []"
    by (auto simp: view_fresh_def list_all_iff filter_empty_conv split: option.splits)
  then have "fresh_peers f now = []" by (simp add: fresh_peers_def map_filter_simps)
  ultimately show ?thesis using covered_stops_when_stale by blast
qed

definition demo_federation :: Federation where
  "demo_federation = (new_federation default_federation_config ''tok'')
     \<lparr>fed_views := [(''peer'', \<lparr>pv_snapshot = None, pv_ok_at = 10, pv_error = ''''\<rparr>)]\<rparr>"

lemma stale_peers_uncovered_witness: "\<not> covers demo_federation ''ci'' 71"
proof -
  have "\<forall>(n, v)\<in>set (fed_views demo_federation).
      pv_ok_at v + of_int (stale_after_seconds (fed_config demo_federation)) < (71::rat)"
    by (simp add: demo_federation_def new_federation_def default_federation_config_def)
  from stale_peers_uncovered [OF this] show ?thesis by blast
qed

text \<open>C39. A peer's snapshot is taken in only within its bounds, and what was taken in
  survives being published again: validating the JSON of an accepted snapshot gives the
  same snapshot.\<close>

theorem peer_snapshot_sound:
  assumes "validate_snapshot rp v = Inr s"
  shows "snapshot_ok s \<and> validate_snapshot rp (snapshot_dict s) = Inr s"
  using validate_snapshot_ok [OF assms] validate_snapshot_dict by blast

definition demo_snapshot :: Snapshot where
  "demo_snapshot = \<lparr>sn_instance = ''b'', sn_version = ''1.4.0'', sn_ts = 1000,
     sn_host = \<lparr>hv_cores = 8, hv_cpu_count = 8, hv_load1 = Fin 2, hv_mem_total_mb = 32000,
       hv_mem_available_mb = 20000, hv_temp_c = Some 61, hv_free_cores = 6\<rparr>,
     sn_pools = [(''ci'', \<lparr>cnt_running = 2, cnt_busy = 1, cnt_max_runners = 4\<rparr>)], sn_global_free = Some 3\<rparr>"

theorem peer_snapshot_sound_witness: "snapshot_ok demo_snapshot"
proof -
  have "validate_snapshot (\<lambda>_. ''?'') (snapshot_dict demo_snapshot) = Inr demo_snapshot" by code_simp
  from peer_snapshot_sound [OF this] show ?thesis by blast
qed

text \<open>A federation block is used only when every setting is in range; with any message the
  configuration returned is the default one, in which the federation is off.\<close>

lemma federation_config_checked:
  assumes "parse_config rp raw = Inr (cfg, errors)"
  shows "if errors \<noteq> [] then cfg = default_federation_config \<and> \<not> fed_enabled cfg
    else (fed_enabled cfg \<longrightarrow> fed_peers cfg \<noteq> []) \<and> 30 \<le> max_temp_c cfg \<and> max_temp_c cfg \<le> 110 \<and>
      0 \<le> rescue_after_seconds cfg \<and> 0 < stale_after_seconds cfg \<and>
      0 < timeout_seconds cfg \<and> timeout_seconds cfg \<le> 10 \<and>
      distinct (map peer_name (fed_peers cfg)) \<and>
      (\<forall>p\<in>set (fed_peers cfg). name_ok (peer_name p) \<and> url_ok (peer_url p))"
proof (cases "errors = []")
  case False
  then have "cfg = default_federation_config" using assms
    by (auto simp: parse_config_def Let_def split: pyval.splits sum.splits if_splits)
  then show ?thesis using False by (simp add: default_federation_config_def)
next
  case errs: True
  show ?thesis
  proof (cases "raw = PNone")
    case True
    then have "cfg = default_federation_config" using assms by (simp add: parse_config_def)
    then show ?thesis using errs by (simp add: default_federation_config_def)
  next
    case False
    then obtain d enabled temp rescue stale timeout ps where
      d: "raw = PDict d" "raw_config rp d = Inr (enabled, temp, rescue, stale, timeout, ps)"
      "config_errors enabled temp rescue stale timeout ps = []"
      "cfg = \<lparr>fed_enabled = enabled, max_temp_c = fin temp, rescue_after_seconds = rescue,
         stale_after_seconds = stale, timeout_seconds = fin timeout, fed_peers = ps\<rparr>"
      using assms errs by (auto simp: parse_config_def Let_def split: pyval.splits sum.splits if_splits)
    from d(3) have ok: "pf_le (Fin 30) temp" "pf_le temp (Fin 110)" "0 \<le> rescue" "0 < stale"
      "pf_lt (Fin 0) timeout" "pf_le timeout (Fin 10)" "distinct (map peer_name ps)" "enabled \<longrightarrow> ps \<noteq> []"
      "\<forall>p\<in>set ps. name_ok (peer_name p) \<and> url_ok (peer_url p)"
      by (auto simp: config_errors_def duplicate_names_def split: if_splits)
    then show ?thesis using d(4) errs by (cases temp; cases timeout) (auto simp: fin_def)
  qed
qed

definition demo_block :: pyval where
  "demo_block = PDict [(''enabled'', PBool True),
     (''peers'', PList [PDict [(''name'', PStr ''b''), (''url'', PStr ''http://b:8091/'')]])]"

lemma federation_config_checked_witness:
  "\<exists>cfg. parse_config (\<lambda>_. ''?'') demo_block = Inr (cfg, []) \<and> fed_enabled cfg \<and> fed_peers cfg \<noteq> []"
proof -
  define cfg where "cfg = fst (projr (parse_config (\<lambda>_. ''?'') demo_block))"
  have p: "parse_config (\<lambda>_. ''?'') demo_block = Inr (cfg, [])" unfolding cfg_def by code_simp
  moreover have "fed_enabled cfg" unfolding cfg_def by code_simp
  ultimately show ?thesis using federation_config_checked [OF p] by auto
qed

text \<open>The promise that any error in the block only disables the federation has a gap: an
  infinite number of seconds makes \<open>int()\<close> raise \<open>OverflowError\<close>, which is not caught.\<close>

lemma infinite_seconds_escape:
  "\<exists>m. parse_config rp (PDict [(''enabled'', PBool False), (''rescue_after_seconds'', PFloat PosInf)]) =
     Inl (OverflowError m)"
  by (simp add: parse_config_def raw_config_def pget_def)

end
