(* ===== verification/GlobalCap.thy ===== *)
theory GlobalCap
  imports TickFacts
begin

text \<open>
  Pools tick in threads of their own, so reserving under \<open>_cap_lock\<close>, starting containers
  and handing slots back interleave. The state here is what they share: the containers that
  are up, the slot counter, and who holds the lock and has read what. \<open>docker ps\<close> is an
  event of its own inside the lock, because containers start and stop while it is held;
  what cannot happen while it is held is another reservation or a release.
\<close>

text \<open>
  \<open>up\<close>: runner containers that are running; \<open>strangers\<close>: other containers whose name
  \<open>docker ps\<close> matches; \<open>pending\<close>: slots granted whose \<open>docker run\<close> has not taken effect;
  \<open>settled\<close>: slots whose \<open>docker run\<close> has started a container or failed, but which are not
  released; \<open>counter\<close>: \<open>_reserved_spawns\<close>.
\<close>

datatype cap_lock = Free | Held int int | Counted int int int

record cap_state =
  cap :: int
  up :: int
  strangers :: int
  pending :: int
  settled :: int
  counter :: int
  lock :: cap_lock

datatype cap_event = Acquire int | CountContainers | Commit | Launch | LaunchFail | Release | Abandon
  | ContainerExit | SetCap int

fun cap_next :: "cap_event \<Rightarrow> cap_state \<Rightarrow> cap_state option" where
  "cap_next (Acquire n) s =
     (if lock s = Free \<and> 0 < n then Some (s\<lparr>lock := Held (cap s) n\<rparr>) else None)"
| "cap_next CountContainers s =
     (case lock s of
        Held c n \<Rightarrow> Some (s\<lparr>lock := Counted c (if 0 < c then up s + strangers s else 0) n\<rparr>)
      | _ \<Rightarrow> None)"
| "cap_next Commit s =
     (case lock s of
        Counted c seen n \<Rightarrow>
          let g = grant c seen (counter s) n
          in Some (s\<lparr>counter := counter s + g, pending := pending s + g, lock := Free\<rparr>)
      | _ \<Rightarrow> None)"
| "cap_next Launch s =
     (if 0 < pending s then Some (s\<lparr>pending := pending s - 1, settled := settled s + 1, up := up s + 1\<rparr>) else None)"
| "cap_next LaunchFail s =
     (if 0 < pending s then Some (s\<lparr>pending := pending s - 1, settled := settled s + 1\<rparr>) else None)"
| "cap_next Release s =
     (if lock s = Free \<and> 0 < settled s
      then Some (s\<lparr>settled := settled s - 1, counter := max 0 (counter s - 1)\<rparr>) else None)"
| "cap_next Abandon s =
     (if lock s = Free \<and> 0 < pending s
      then Some (s\<lparr>pending := pending s - 1, counter := max 0 (counter s - 1)\<rparr>) else None)"
| "cap_next ContainerExit s = (if 0 < up s then Some (s\<lparr>up := up s - 1\<rparr>) else None)"
| "cap_next (SetCap c) s = Some (s\<lparr>cap := c\<rparr>)"

definition cap_init :: "int \<Rightarrow> int \<Rightarrow> int \<Rightarrow> cap_state" where
  "cap_init c running other =
     \<lparr>cap = c, up = running, strangers = other, pending = 0, settled = 0, counter = 0, lock = Free\<rparr>"

text \<open>
  The states reached from a start with at most \<open>b\<close> runners up, when every cap set on the
  way is positive and at most \<open>b\<close>.
\<close>

definition cap_allowed :: "int \<Rightarrow> cap_event \<Rightarrow> bool" where
  "cap_allowed b ev = (case ev of SetCap c \<Rightarrow> 0 < c \<and> c \<le> b | _ \<Rightarrow> True)"

inductive cap_reach :: "int \<Rightarrow> cap_state \<Rightarrow> bool" for b :: int where
  start: "0 < c \<Longrightarrow> c \<le> b \<Longrightarrow> 0 \<le> running \<Longrightarrow> running \<le> b \<Longrightarrow> 0 \<le> other \<Longrightarrow> cap_reach b (cap_init c running other)"
| step: "cap_reach b s \<Longrightarrow> cap_allowed b ev \<Longrightarrow> cap_next ev s = Some s' \<Longrightarrow> cap_reach b s'"

text \<open>A run of events, for stating what a schedule does.\<close>

fun cap_run :: "cap_event list \<Rightarrow> cap_state \<Rightarrow> cap_state option" where
  "cap_run [] s = Some s"
| "cap_run (ev # evs) s = (case cap_next ev s of None \<Rightarrow> None | Some s' \<Rightarrow> cap_run evs s')"

lemma cap_run_reach:
  "cap_run evs s = Some s' \<Longrightarrow> list_all (cap_allowed b) evs \<Longrightarrow> cap_reach b s \<Longrightarrow> cap_reach b s'"
  by (induction evs arbitrary: s) (auto split: option.splits intro: cap_reach.step)

lemma cap_run_append: "cap_run (xs @ ys) s = (case cap_run xs s of None \<Rightarrow> None | Some t \<Rightarrow> cap_run ys t)"
  by (induction xs arbitrary: s) (auto split: option.splits)

text \<open>
  The invariant: slots are counted exactly, and while a reservation is being computed the
  containers and pending slots are covered by what it has seen.
\<close>

definition lock_ok :: "int \<Rightarrow> cap_state \<Rightarrow> bool" where
  "lock_ok b s = (case lock s of
     Free \<Rightarrow> True
   | Held c n \<Rightarrow> 0 < c \<and> c \<le> b \<and> 0 < n
   | Counted c seen n \<Rightarrow> 0 < c \<and> c \<le> b \<and> 0 < n \<and> up s + pending s \<le> seen + counter s)"

definition cap_inv :: "int \<Rightarrow> cap_state \<Rightarrow> bool" where
  "cap_inv b s \<longleftrightarrow> 0 < cap s \<and> cap s \<le> b \<and> 0 \<le> up s \<and> 0 \<le> strangers s \<and> 0 \<le> pending s \<and> 0 \<le> settled s \<and>
     counter s = pending s + settled s \<and> up s + pending s \<le> b \<and> lock_ok b s"

lemmas cap_inv_defs = cap_inv_def lock_ok_def

lemma cap_inv_init: "0 < c \<Longrightarrow> c \<le> b \<Longrightarrow> 0 \<le> n \<Longrightarrow> n \<le> b \<Longrightarrow> 0 \<le> k \<Longrightarrow> cap_inv b (cap_init c n k)"
  by (simp add: cap_inv_defs cap_init_def)

text \<open>The step that matters: what a commit grants fits under the cap it read.\<close>

lemma cap_inv_commit:
  assumes "cap_inv b s" "lock s = Counted c seen n"
  shows "up s + (pending s + grant c seen (counter s) n) \<le> b" "0 \<le> grant c seen (counter s) n"
  using assms by (auto simp: cap_inv_defs grant_def min_def max_def)

lemma cap_inv_next:
  assumes "cap_inv b s" "cap_allowed b ev" "cap_next ev s = Some s'"
  shows "cap_inv b s'"
proof (cases ev)
  case Commit
  then obtain c seen n where l: "lock s = Counted c seen n" using assms(3) by (auto split: cap_lock.splits)
  note g = cap_inv_commit [OF assms(1) l]
  show ?thesis using assms Commit l g by (auto simp: cap_inv_defs Let_def)
next
  case (SetCap c)
  then show ?thesis using assms by (auto simp: cap_inv_defs cap_allowed_def split: cap_lock.splits)
qed (use assms in \<open>auto simp: cap_inv_defs split: if_splits cap_lock.splits\<close>)

lemma cap_reach_inv: "cap_reach b s \<Longrightarrow> cap_inv b s"
  by (induction rule: cap_reach.induct) (auto intro: cap_inv_init cap_inv_next)

section \<open>The scaler's code is the three steps\<close>

text \<open>What the shared state shows of a scaler and of the containers \<open>docker ps\<close> lists.\<close>

definition shows_scaler :: "cap_state \<Rightarrow> 'w PoolScaler \<Rightarrow> bool" where
  "shows_scaler c s \<longleftrightarrow> cap c = max_total_runners s \<and> counter c = reserved_spawns s"

lemma reserve_refines:
  assumes "reserve_spawns e n s = (Inr g, s')" "0 < n" "shows_scaler c s" "lock c = Free"
    "0 < max_total_runners s \<Longrightarrow>
      running_containers_op (docker e) GLOBAL_CONTAINER_PREFIX (world s) = (Inr names, w)"
    "int (length names) = up c + strangers c"
  shows "cap_run [Acquire n, CountContainers, Commit] c =
    Some (c\<lparr>counter := reserved_spawns s', pending := pending c + g, lock := Free\<rparr>) \<and> shows_scaler
      (c\<lparr>counter := reserved_spawns s', pending := pending c + g, lock := Free\<rparr>) s'"
  using assms
  by (auto simp: reserve_spawns_def shows_scaler_def andThen_def on_world_def Let_def split: if_splits prod.splits sum.splits)

lemma release_refines:
  assumes "shows_scaler c s" "lock c = Free" "0 < settled c"
  shows "\<exists>c'. cap_next Release c = Some c' \<and> shows_scaler c' (release_spawns 1 s)"
  using assms by (simp add: shows_scaler_def release_spawns_def)

text \<open>When the orchestrator is up and matches the filter, it takes one of the slots itself.\<close>

lemma grant_beside_stranger:
  "0 < c \<Longrightarrow> 0 \<le> r \<Longrightarrow> 1 \<le> other \<Longrightarrow> c - 1 \<le> running \<Longrightarrow> 0 \<le> n \<Longrightarrow> grant c (running + other) r n = 0"
  by (simp add: grant_def)

text \<open>An empty answer of \<open>docker ps\<close>, which is also what a failed call gives, counts as no runner.\<close>

lemma grant_blind: "0 < c \<Longrightarrow> r = 0 \<Longrightarrow> 0 \<le> n \<Longrightarrow> grant c 0 r n = min n c"
  by (simp add: grant_def)

section \<open>Properties\<close>


text \<open>Two pools reserve one after the other while a container starts in between.\<close>

definition demo_schedule :: "cap_event list" where
  "demo_schedule = [Acquire 3, CountContainers, Commit, Launch, Acquire 2, CountContainers, Launch, Commit,
     Release, Launch, ContainerExit, Release]"


text \<open>C31. \<open>_reserve_spawns\<close> is the three steps of the interleaving model: reading the cap,
  counting what \<open>docker ps\<close> lists and committing the grant takes the shared state to the one
  the scaler shows afterwards, with as many new pending slots as it returns.\<close>

theorem reserve_is_three_steps:
  assumes "reserve_spawns e n s = (Inr g, s')" "0 < n" "shows_scaler c s" "lock c = Free"
    "running_containers_op (docker e) GLOBAL_CONTAINER_PREFIX (world s) = (Inr names, w)"
    "int (length names) = up c + strangers c"
  shows "\<exists>c'. cap_run [Acquire n, CountContainers, Commit] c = Some c' \<and> shows_scaler c' s' \<and>
    pending c' = pending c + g \<and> up c' = up c \<and> settled c' = settled c \<and> lock c' = Free"
proof -
  have "0 < max_total_runners s \<Longrightarrow>
      running_containers_op (docker e) GLOBAL_CONTAINER_PREFIX (world s) = (Inr names, w)"
    using assms(5) by blast
  from reserve_refines [OF assms(1-4) this assms(6)] show ?thesis by auto
qed

text \<open>The orchestrator's own container beside two runners.\<close>

definition beside_ports :: "nat Ports" where
  "beside_ports = demo_ports\<lparr>docker := demo_docker\<lparr>running_containers_op :=
     (\<lambda>_ n. (Inr (''gh-runner-orchestrator'' # replicate n ''gh-runner-ci-1''), n))\<rparr>\<rparr>"

lemma beside_reserves:
  "reserve_spawns beside_ports 5 (new_scaler 4 2) = (Inr 1, (new_scaler 4 2)\<lparr>reserved_spawns := 1\<rparr>)"
  by (simp add: reserve_spawns_def andThen_def on_world_def beside_ports_def new_scaler_def Let_def grant_def)

theorem reserve_is_three_steps_witness:
  "\<exists>c'. cap_run [Acquire 5, CountContainers, Commit] (cap_init 4 2 1) = Some c' \<and> pending c' = 1"
proof -
  have "shows_scaler (cap_init 4 2 1) (new_scaler 4 (2::nat))" "lock (cap_init 4 2 1) = Free"
    "int (length (''gh-runner-orchestrator'' # replicate 2 ''gh-runner-ci-1'')) = up (cap_init 4 2 1) + strangers (cap_init 4 2 1)"
    "running_containers_op (docker beside_ports) GLOBAL_CONTAINER_PREFIX (world (new_scaler 4 2)) =
      (Inr (''gh-runner-orchestrator'' # replicate 2 ''gh-runner-ci-1''), 2)"
    by (simp_all add: shows_scaler_def cap_init_def new_scaler_def beside_ports_def)
  from reserve_is_three_steps [OF beside_reserves _ this(1,2,4,3)] show ?thesis
    by (auto simp: cap_init_def)
qed

text \<open>The orchestrator's container has the prefix the cap counts by, so it uses up one
  slot: with it up, a reservation is granted nothing as soon as \<open>cap - 1\<close> runners are up, and
  under a cap of one no runner is ever granted.\<close>

lemma orchestrator_takes_a_slot:
  assumes "cap_reach b s" "lock s = Counted c (up s + strangers s) n" "0 < strangers s" "c - 1 \<le> up s"
  shows "\<exists>s'. cap_next Commit s = Some s' \<and> pending s' = pending s \<and> counter s' = counter s"
proof -
  from cap_reach_inv [OF assms(1)] have "0 < c" "0 \<le> counter s" "0 \<le> n"
    using assms(2) by (auto simp: cap_inv_defs)
  then have "grant c (up s + strangers s) (counter s) n = 0"
    using assms(3,4) by (intro grant_beside_stranger) auto
  then show ?thesis using assms(2) by (simp add: Let_def)
qed

lemma orchestrator_takes_a_slot_witness:
  "\<exists>s'. cap_run [Acquire 1, CountContainers, Commit] (cap_init 1 0 1) = Some s' \<and> pending s' = 0"
proof -
  define s where "s = (cap_init 1 0 1)\<lparr>lock := Counted 1 1 1\<rparr>"
  have run: "cap_run [Acquire 1, CountContainers] (cap_init 1 0 1) = Some s" unfolding s_def by code_simp
  have "cap_reach 1 (cap_init 1 0 1)" by (rule cap_reach.start) simp_all
  moreover have "list_all (cap_allowed 1) [Acquire 1, CountContainers]" by code_simp
  ultimately have "cap_reach 1 s" using cap_run_reach [OF run] by blast
  moreover have "lock s = Counted 1 (up s + strangers s) 1" "0 < strangers s" "1 - 1 \<le> up s" "pending s = 0"
    by (simp_all add: s_def cap_init_def)
  ultimately obtain s' where "cap_next Commit s = Some s'" "pending s' = 0"
    using orchestrator_takes_a_slot by metis
  then have "cap_run ([Acquire 1, CountContainers] @ [Commit]) (cap_init 1 0 1) = Some s'"
    unfolding cap_run_append run by simp
  with \<open>pending s' = 0\<close> show ?thesis by (simp del: cap_run.simps)
qed

end
