(* ===== verification/DialectFacts.thy ===== *)
theory DialectFacts
  imports Store
begin

text \<open>
  The SQL of the store against the schemas, for both engines, and what a connection URL
  gives: the parts it was put together from, and a description without the password.
\<close>

section \<open>Statements fit the schemas\<close>

text \<open>The tables and columns the store's \<open>INSERT\<close> statements and upserts write.\<close>

definition store_inserts :: "(string \<times> string list) list" where
  "store_inserts =
     [(''tick_snapshots'', [''ts'', ''pool'', ''display'', ''containers'', ''online'', ''idle'', ''busy'', ''queued'', ''duration'']),
      (''runner_events'', [''ts'', ''pool'', ''container'', ''event'', ''reason'']),
      (''runner_jobs'', [''job_id'', ''pool'', ''repo'', ''workflow'', ''job_name'', ''runner'', ''status'', ''conclusion'', ''url'',
         ''started_at'', ''ts'', ''ended_ts'']),
      (''audit_log'', [''ts'', ''actor'', ''action'', ''target'', ''detail''])]"

text \<open>The arguments of \<open>Dialect.upsert\<close>: table, columns, key and updated columns.\<close>

definition store_upserts :: "(string \<times> string list \<times> string \<times> string list) list" where
  "store_upserts =
     [(''pool_overrides'', [''pool'', ''data'', ''origin'', ''disabled'', ''updated_at''], ''pool'',
         [''data'', ''origin'', ''disabled'', ''updated_at'']),
      (''global_overrides'', [''key'', ''value'', ''updated_at''], ''`key`'', [''value'', ''updated_at'']),
      (''pool_state'', [''pool'', ''paused'', ''draining''], ''pool'', [''paused'', ''draining'']),
      (''protected_containers'', [''container'', ''since''], ''container'', [''since'']),
      (''runner_status'', [''container'', ''pool'', ''status'', ''busy'', ''updated_at''], ''container'',
         [''pool'', ''status'', ''busy'', ''updated_at'']),
      (''idempotency'', [''key'', ''response'', ''ts''], ''`key`'', [''response'', ''ts''])]"

definition columns_of :: "ddl list \<Rightarrow> string \<Rightarrow> Column list" where
  "columns_of ds t =
     concat (map (\<lambda>d. case d of CreateTable n cs _ \<Rightarrow> if n = t then cs else [] | CreateIndex _ _ _ \<Rightarrow> []) ds)"

definition insert_fits :: "ddl list \<Rightarrow> string \<times> string list \<Rightarrow> bool" where
  "insert_fits ds tc =
     (let cols = columns_of ds (fst tc); names = map c_name cols
      in distinct (snd tc) \<and> list_all (\<lambda>c. c \<in> set names) (snd tc) \<and>
         list_all (\<lambda>c. (c_rule c \<in> {Required, KeyColumn} \<longrightarrow> c_name c \<in> set (snd tc)) \<and>
                       (c_rule c = AutoKey \<longrightarrow> c_name c \<notin> set (snd tc))) cols)"

definition upsert_fits :: "ddl list \<Rightarrow> string \<times> string list \<times> string \<times> string list \<Rightarrow> bool" where
  "upsert_fits ds u =
     (case u of (t, cols, key, updates) \<Rightarrow>
        insert_fits ds (t, cols) \<and> (let k = filter (\<lambda>c. c \<noteq> CHR ''`'') key in
        cols = k # updates \<and> list_ex (\<lambda>c. c_name c = k \<and> c_rule c = KeyColumn) (columns_of ds t)))"

text \<open>Both engines get the same tables with the same columns and keys; only types and defaults differ.\<close>

definition same_shape :: "ddl list \<Rightarrow> ddl list \<Rightarrow> bool" where
  "same_shape a b \<longleftrightarrow> table_names a = table_names b \<and>
     list_all (\<lambda>t. map c_name (columns_of a t) = map c_name (columns_of b t) \<and>
        map (\<lambda>c. c_rule c \<in> {AutoKey, KeyColumn}) (columns_of a t) = map (\<lambda>c. c_rule c \<in> {AutoKey, KeyColumn}) (columns_of b t)) (table_names a)"

lemma sqlite_inserts: "list_all (insert_fits SQLITE_SCHEMA) store_inserts" by code_simp
lemma mariadb_inserts: "list_all (insert_fits MARIADB_SCHEMA) store_inserts" by code_simp
lemma sqlite_upserts: "list_all (upsert_fits SQLITE_SCHEMA) store_upserts" by code_simp
lemma mariadb_upserts: "list_all (upsert_fits MARIADB_SCHEMA) store_upserts" by code_simp
lemma schemas_same: "same_shape SQLITE_SCHEMA MARIADB_SCHEMA" by code_simp


section \<open>Connection URLs\<close>

text \<open>Characters that stand for themselves in every part of a URL.\<close>

definition plain_char :: "char \<Rightarrow> bool" where
  "plain_char c \<longleftrightarrow> netloc_char c \<and> c \<notin> {CHR ''%'', CHR 0x09, CHR 0x0A, CHR 0x0D}"

lemma unquote_plain: "(\<And>c. c \<in> set s \<Longrightarrow> c \<noteq> CHR ''%'') \<Longrightarrow> unquote s = s"
  by (induction s rule: unquote.induct) auto

lemma takeWhile_until:
  "(\<And>c. c \<in> set a \<Longrightarrow> P c) \<Longrightarrow> \<not> P d \<Longrightarrow> takeWhile P (a @ d # b) = a"
  "(\<And>c. c \<in> set a \<Longrightarrow> P c) \<Longrightarrow> \<not> P d \<Longrightarrow> dropWhile P (a @ d # b) = d # b"
  by (induction a) auto

lemma before_last_append: "c \<notin> set b \<Longrightarrow> before_last c (a @ c # b) = a"
proof -
  assume "c \<notin> set b"
  then have "dropWhile (\<lambda>x. x \<noteq> c) (rev b @ c # rev a) = c # rev a" by (intro takeWhile_until(2)) auto
  then show ?thesis by (simp add: before_last_def)
qed

lemma hostinfo_append: "CHR ''@'' \<notin> set b \<Longrightarrow> url_hostinfo (a @ CHR ''@'' # b) = b"
proof -
  assume "CHR ''@'' \<notin> set b"
  then have "takeWhile (\<lambda>c. c \<noteq> CHR ''@'') (rev b @ CHR ''@'' # rev a) = rev b" by (intro takeWhile_until(1)) auto
  then show ?thesis by (simp add: url_hostinfo_def)
qed

lemma before_first_append: "c \<notin> set a \<Longrightarrow> before_first c (a @ c # b) = a"
  unfolding before_first_def by (rule takeWhile_until(1)) auto

lemma after_first_append: "c \<notin> set a \<Longrightarrow> after_first c (a @ c # b) = b"
proof -
  assume "c \<notin> set a"
  then have "dropWhile (\<lambda>x. x \<noteq> c) (a @ c # b) = c # b" by (intro takeWhile_until(2)) auto
  then show ?thesis by (simp add: after_first_def)
qed

lemma before_first_absent: "c \<notin> set a \<Longrightarrow> before_first c a = a"
  unfolding before_first_def by (induction a) auto

abbreviation mysql_url :: "string \<Rightarrow> string \<Rightarrow> string \<Rightarrow> nat \<Rightarrow> string \<Rightarrow> string" where
  "mysql_url user pw host port db \<equiv>
     ''mysql://'' @ user @ '':'' @ pw @ ''@'' @ host @ '':'' @ show_nat port @ ''/'' @ db"

text \<open>The parts a URL can carry as they are.\<close>

definition url_parts_ok :: "string \<Rightarrow> string \<Rightarrow> string \<Rightarrow> nat \<Rightarrow> string \<Rightarrow> bool" where
  "url_parts_ok user pw host port db \<longleftrightarrow>
     list_all plain_char (user @ pw @ host) \<and> list_all (\<lambda>c. plain_char c \<or> c \<in> {CHR ''%'', CHR ''/''}) db \<and>
     list_all (\<lambda>c. c \<noteq> CHR '':'' \<and> c \<noteq> CHR ''@'') (user @ host) \<and> lower host = host \<and>
     host \<noteq> [] \<and> 0 < port \<and> port \<le> 65535 \<and> db \<noteq> [] \<and> hd db \<noteq> CHR ''/''"

lemma scheme_of_url:
  assumes "list_all (\<lambda>c. c \<notin> {CHR 0x09, CHR 0x0A, CHR 0x0D}) s"
  shows "split_at ''://'' (''mysql://'' @ s) = Some (''mysql'', s)" "url_scheme (clean_url (''mysql://'' @ s)) = (''mysql'', ''//'' @ s)"
proof -
  show "split_at ''://'' (''mysql://'' @ s) = Some (''mysql'', s)" by simp
  have "filter (\<lambda>c. c \<notin> {CHR 0x09, CHR 0x0A, CHR 0x0D}) s = s" using assms by (simp add: list_all_iff filter_id_conv)
  then have c: "clean_url (''mysql://'' @ s) = ''mysql://'' @ s" by (simp add: clean_url_def char_code_def)
  have "is_lower_alpha (CHR ''m'')" "list_all scheme_char ''mysql''" "lower ''mysql'' = ''mysql''" by code_simp+
  then show "url_scheme (clean_url (''mysql://'' @ s)) = (''mysql'', ''//'' @ s)"
    unfolding c by (simp add: url_scheme_def before_first_def after_first_def)
qed

lemma digits_plain: "c \<in> set (show_nat n) \<Longrightarrow> plain_char c \<and> c \<noteq> CHR '':'' \<and> c \<noteq> CHR ''@''"
  using show_nat_digits [of c n] by (auto simp: plain_char_def netloc_char_def is_digit_def in_range_def char_code_def)

lemma parse_mysql_url:
  assumes "url_parts_ok user pw host port db"
  shows "parse_dsn (mysql_url user pw host port db) =
    Inr \<lparr>driver = ''mariadb'', dsn_host = host, dsn_port = int port, dsn_user = user, dsn_password = pw,
         dsn_database = db, dsn_path = []\<rparr>"
proof -
  let ?host = "host @ '':'' @ show_nat port" and ?info = "user @ '':'' @ pw"
  let ?net = "?info @ CHR ''@'' # ?host"
  have up: "list_all plain_char user" "list_all plain_char pw" "list_all plain_char host"
    "CHR '':'' \<notin> set user" "CHR '':'' \<notin> set host" "CHR ''@'' \<notin> set host"
    using assms by (auto simp: url_parts_ok_def list_all_iff)
  have dbc: "plain_char c \<or> c = CHR ''%'' \<or> c = CHR ''/''" if "c \<in> set db" for c
    using assms that by (auto simp: url_parts_ok_def list_all_iff)
  have rest: "list_all (\<lambda>c. c \<notin> {CHR 0x09, CHR 0x0A, CHR 0x0D}) (?net @ CHR ''/'' # db)"
  proof (unfold list_all_iff, intro ballI)
    fix c assume "c \<in> set (?net @ CHR ''/'' # db)"
    then have "c \<in> {CHR '':'', CHR ''@'', CHR ''/'', CHR ''%''} \<or> plain_char c"
      using up(1-3) digits_plain [of c port] dbc [of c] by (auto simp: list_all_iff)
    then show "c \<notin> {CHR 0x09, CHR 0x0A, CHR 0x0D}" by (auto simp: plain_char_def)
  qed
  have url: "mysql_url user pw host port db = ''mysql://'' @ (?net @ CHR ''/'' # db)" by simp
  have "netloc_char c" if "c \<in> set ?net" for c
  proof -
    have "c \<in> {CHR '':'', CHR ''@''} \<or> plain_char c"
      using that up(1-3) digits_plain [of c port] by (auto simp: list_all_iff)
    then show ?thesis by (auto simp: plain_char_def netloc_char_def)
  qed
  then have "takeWhile netloc_char (?net @ CHR ''/'' # db) = ?net" "dropWhile netloc_char (?net @ CHR ''/'' # db) = CHR ''/'' # db"
    by (intro takeWhile_until; simp add: netloc_char_def)+
  then have net: "url_netloc (''//'' @ (?net @ CHR ''/'' # db)) = (?net, CHR ''/'' # db)"
    unfolding url_netloc_def by simp
  have "CHR ''?'' \<notin> set db" "CHR ''#'' \<notin> set db"
    using dbc by (auto simp: plain_char_def netloc_char_def)
  then have path: "url_path (CHR ''/'' # db) = CHR ''/'' # db" by (simp add: url_path_def before_first_absent)
  have at: "CHR ''@'' \<notin> set ?host" using up digits_plain [of _ port] by auto
  have host: "url_hostinfo ?net = ?host" by (rule hostinfo_append [OF at])
  have info: "url_userinfo ?net = Some ?info"
    using before_last_append [OF at, of ?info] by (simp add: url_userinfo_def)
  have user: "url_username ?net = user" "url_password ?net = pw"
    using info before_first_append [OF up(4), of pw] after_first_append [OF up(4), of pw]
    by (simp_all add: url_username_def url_password_def)
  have hn: "url_hostname ?net = host" unfolding url_hostname_def host
    using before_first_append [OF up(5), of "show_nat port"] assms by (simp add: url_parts_ok_def)
  have pt: "after_first (CHR '':'') (url_hostinfo ?net) = show_nat port" unfolding host
    using after_first_append [OF up(5), of "show_nat port"] by simp
  have port: "url_port ?net = Inr (Some (int port))" unfolding url_port_def pt Let_def
    using assms by (simp add: show_nat_all_digits digits_value_show_nat url_parts_ok_def)
  have plain: "unquote user = user" "unquote pw = pw"
    using up by (auto intro!: unquote_plain simp: list_all_iff plain_char_def)
  have db: "dropWhile (\<lambda>c. c = CHR ''/'') (CHR ''/'' # db) = db" "db \<noteq> []"
    using assms by (cases db; simp add: url_parts_ok_def)+
  have "mariadb_dsn ?net (CHR ''/'' # db) = Inr \<lparr>driver = ''mariadb'', dsn_host = host, dsn_port = int port,
      dsn_user = user, dsn_password = pw, dsn_database = db, dsn_path = []\<rparr>"
    unfolding mariadb_dsn_def db(1) port hn user plain Let_def
    using assms db(2) by (simp add: str_or_def url_parts_ok_def)
  then show ?thesis
    unfolding parse_dsn_def url scheme_of_url [OF rest] Let_def option.case prod.case net path by simp
qed

text \<open>A MariaDB URL put together from its parts is read back into exactly those parts, also
  when the password holds a colon or an at sign; and what the log calls the target is the same
  URL with the password left out.\<close>

lemma connection_url_read:
  assumes "url_parts_ok user pw host port db"
  shows "parse_dsn (mysql_url user pw host port db) =
      Inr \<lparr>driver = ''mariadb'', dsn_host = host, dsn_port = int port, dsn_user = user, dsn_password = pw,
           dsn_database = db, dsn_path = []\<rparr> \<and>
    logged_target (mysql_url user pw host port db) =
      ''mariadb://'' @ user @ ''@'' @ host @ '':'' @ show_nat port @ ''/'' @ db"
  unfolding logged_target_def parse_mysql_url [OF assms] by (simp add: describe_def is_mariadb_def show_int_def)

lemma connection_url_read_witness:
  "parse_dsn ''mysql://rorch:p@ss:w@mariadb:3306/rorch'' =
      Inr \<lparr>driver = ''mariadb'', dsn_host = ''mariadb'', dsn_port = 3306, dsn_user = ''rorch'', dsn_password = ''p@ss:w'',
           dsn_database = ''rorch'', dsn_path = []\<rparr>"
proof -
  have "url_parts_ok ''rorch'' ''p@ss:w'' ''mariadb'' 3306 ''rorch''"
    by (simp add: url_parts_ok_def plain_char_def netloc_char_def lower_def lower_char_def is_upper_alpha_def
        in_range_def char_code_def)
  from connection_url_read [OF this] have "parse_dsn (mysql_url ''rorch'' ''p@ss:w'' ''mariadb'' 3306 ''rorch'') =
    Inr \<lparr>driver = ''mariadb'', dsn_host = ''mariadb'', dsn_port = int 3306, dsn_user = ''rorch'', dsn_password = ''p@ss:w'',
           dsn_database = ''rorch'', dsn_path = []\<rparr>" by blast
  moreover have "show_nat 3306 = ''3306''" by (simp add: show_nat.simps digit_char_def, code_simp)
  ultimately show ?thesis by simp
qed

end
