(* ===== verification/Migration.thy ===== *)
theory Migration
  imports DialectFacts
begin

text \<open>
  \<open>scripts/migrate-sqlite-to-mariadb.py\<close>: copying a SQLite store into MariaDB, row by row. The
  source is what the file holds: its tables, and for each whether the file has it at all (a file
  of an older release may lack some; a table it has is taken to have all its columns). Every row
  is one \<open>_write\<close> of the target store; the printed table is left out.
\<close>

definition KEYED :: "(string \<times> string) list" where
  "KEYED =
     [(''pool_overrides'', ''pool''), (''global_overrides'', ''key''), (''pool_state'', ''pool''),
      (''protected_containers'', ''container''), (''runner_status'', ''container''), (''runner_jobs'', ''job_id''),
      (''idempotency'', ''key'')]"

definition HISTORY :: "string list" where
  "HISTORY = [''tick_snapshots'', ''runner_events'', ''audit_log'']"

record Source =
  src_has :: "string \<Rightarrow> bool"
  src_tables :: Tables

text \<open>\<open>columns\<close>: \<open>PRAGMA table_info\<close> of a table that is not there has no rows.\<close>

definition source_columns :: "Source \<Rightarrow> string \<Rightarrow> string list" where
  "source_columns src table = (if src_has src table then map c_name (columns_of SQLITE_SCHEMA table) else [])"

definition copied_columns :: "Source \<Rightarrow> string \<Rightarrow> string list" where
  "copied_columns src table = filter (\<lambda>c. \<not> (table \<in> set HISTORY \<and> c = ''id'')) (source_columns src table)"

definition updated_columns :: "string list \<Rightarrow> string \<Rightarrow> string list" where
  "updated_columns cols key = (let updates = filter (\<lambda>c. c \<noteq> key) cols in if updates = [] then cols else updates)"

definition copy_statement :: "Dsn \<Rightarrow> string \<Rightarrow> string list \<Rightarrow> string option \<Rightarrow> string" where
  "copy_statement d table cols key =
     (case key of
        Some k \<Rightarrow> upsert d table cols (backticked k) (updated_columns cols k)
      | None \<Rightarrow> sql d (''INSERT INTO '' @ table @ '' ('' @ join '', '' (map backticked cols) @ '') VALUES ('' @
          join '', '' (replicate (length cols) ''?'') @ '')''))"

text \<open>What the statement does to the target for each row of the source: an upsert under the row's key, or
  a new row at the end of a history.\<close>

definition row_writes :: "Tables \<Rightarrow> string \<Rightarrow> (Tables \<Rightarrow> Tables) list" where
  "row_writes src table =
     (if table = ''pool_overrides''
      then map (\<lambda>(k, r) t. t\<lparr>t_pool_overrides := dict_set k r (t_pool_overrides t)\<rparr>) (t_pool_overrides src)
      else if table = ''global_overrides''
      then map (\<lambda>(k, r) t. t\<lparr>t_global_overrides := dict_set k r (t_global_overrides t)\<rparr>) (t_global_overrides src)
      else if table = ''pool_state''
      then map (\<lambda>(k, r) t. t\<lparr>t_pool_state := dict_set k r (t_pool_state t)\<rparr>) (t_pool_state src)
      else if table = ''protected_containers''
      then map (\<lambda>(k, r) t. t\<lparr>protected := dict_set k r (protected t)\<rparr>) (protected src)
      else if table = ''runner_status''
      then map (\<lambda>(k, r) t. t\<lparr>t_runner_status := dict_set k r (t_runner_status t)\<rparr>) (t_runner_status src)
      else if table = ''runner_jobs''
      then map (\<lambda>(k, r) t. t\<lparr>runner_jobs := dict_set k r (runner_jobs t)\<rparr>) (runner_jobs src)
      else if table = ''idempotency''
      then map (\<lambda>(k, r) t. t\<lparr>idempotency := dict_set k r (idempotency t)\<rparr>) (idempotency src)
      else if table = ''tick_snapshots''
      then map (\<lambda>(_, r) t. t\<lparr>tick_snapshots := insert_row r (tick_snapshots t)\<rparr>) (rows (tick_snapshots src))
      else if table = ''runner_events''
      then map (\<lambda>(_, r) t. t\<lparr>runner_events := insert_row r (runner_events t)\<rparr>) (rows (runner_events src))
      else if table = ''audit_log''
      then map (\<lambda>(_, r) t. t\<lparr>audit_log := insert_row r (audit_log t)\<rparr>) (rows (audit_log src))
      else [])"

definition copy_table :: "'w StoreEnv \<Rightarrow> Source \<Rightarrow> string \<Rightarrow> ('w, nat) db" where
  "copy_table e src table =
     (if copied_columns src table = [] then ret 0
      else let ws = row_writes (src_tables src) table
           in andThen (each (store_write e) ws) (\<lambda>_. ret (length ws)))"

fun copy_tables :: "'w StoreEnv \<Rightarrow> Source \<Rightarrow> string list \<Rightarrow> ('w, nat) db" where
  "copy_tables e src [] = ret 0"
| "copy_tables e src (t # ts) =
     andThen (copy_table e src t) (\<lambda>n. andThen (copy_tables e src ts) (\<lambda>m. ret (n + m)))"

definition migrated_tables :: "bool \<Rightarrow> string list" where
  "migrated_tables skip_history = map fst KEYED @ (if skip_history then [] else HISTORY)"

text \<open>\<open>main\<close>: the exit code, and the rows moved where it is 0.\<close>

definition migrate :: "'w StoreEnv \<Rightarrow> Source option \<Rightarrow> string \<Rightarrow> bool \<Rightarrow> ('w, int \<times> nat) eff" where
  "migrate e source url skip_history =
     (case source of
        None \<Rightarrow> ret (1, 0)
      | Some src \<Rightarrow>
          andThen (new_store e url) (\<lambda>st w.
            if \<not> is_mariadb (st_dsn st) then (Inr (1, 0), w)
            else (case copy_tables e src (migrated_tables skip_history) (st\<lparr>st_world := w\<rparr>) of
                    (Inl err, st') \<Rightarrow> (Inl err, st_world st')
                  | (Inr n, st') \<Rightarrow> (Inr (0, n), st_world st'))))"

end
