(* ===== verification/MigrationFacts.thy ===== *)
theory MigrationFacts
  imports Migration StoreFacts Replay
begin

text \<open>
  A migration can be broken off and repeated: whatever earlier runs got to, one that ends without an
  error leaves the target as if it had been the only one.
\<close>

section \<open>Cells of the keyed tables\<close>

datatype cell =
    PoolCell string | GlobalCell string | StateCell string | ProtectedCell string | StatusCell string
  | JobCell int | ReplayCell string

datatype content =
    PoolRow OverrideRow | GlobalRow "string \<times> rat" | StateRow "int \<times> int" | ProtectedRow rat | RunnerRow StatusRow
  | JobContent JobRow | ReplayRow "string \<times> rat"

text \<open>The keyed tables as one map.\<close>

fun keyed :: "Tables \<Rightarrow> cell \<Rightarrow> content option" where
  "keyed t (PoolCell k) = map_option PoolRow (map_of (t_pool_overrides t) k)"
| "keyed t (GlobalCell k) = map_option GlobalRow (map_of (t_global_overrides t) k)"
| "keyed t (StateCell k) = map_option StateRow (map_of (t_pool_state t) k)"
| "keyed t (ProtectedCell k) = map_option ProtectedRow (map_of (protected t) k)"
| "keyed t (StatusCell k) = map_option RunnerRow (map_of (t_runner_status t) k)"
| "keyed t (JobCell k) = map_option JobContent (map_of (runner_jobs t) k)"
| "keyed t (ReplayCell k) = map_option ReplayRow (map_of (idempotency t) k)"

definition histories :: "Tables \<Rightarrow> TickRow Numbered \<times> EventRow Numbered \<times> AuditRow Numbered" where
  "histories t = (tick_snapshots t, runner_events t, audit_log t)"

text \<open>A write of one cell.\<close>

definition sets_cell :: "cell \<Rightarrow> content \<Rightarrow> (Tables \<Rightarrow> Tables) \<Rightarrow> bool" where
  "sets_cell c v f \<longleftrightarrow> (\<forall>t. keyed (f t) = (keyed t)(c \<mapsto> v) \<and> histories (f t) = histories t)"

lemma sets_cells:
  "sets_cell (PoolCell k) (PoolRow r1) (\<lambda>t. t\<lparr>t_pool_overrides := dict_set k r1 (t_pool_overrides t)\<rparr>)"
  "sets_cell (GlobalCell k) (GlobalRow r2) (\<lambda>t. t\<lparr>t_global_overrides := dict_set k r2 (t_global_overrides t)\<rparr>)"
  "sets_cell (StateCell k) (StateRow r3) (\<lambda>t. t\<lparr>t_pool_state := dict_set k r3 (t_pool_state t)\<rparr>)"
  "sets_cell (ProtectedCell k) (ProtectedRow r4) (\<lambda>t. t\<lparr>protected := dict_set k r4 (protected t)\<rparr>)"
  "sets_cell (StatusCell k) (RunnerRow r5) (\<lambda>t. t\<lparr>t_runner_status := dict_set k r5 (t_runner_status t)\<rparr>)"
  "sets_cell (JobCell i) (JobContent r6) (\<lambda>t. t\<lparr>runner_jobs := dict_set i r6 (runner_jobs t)\<rparr>)"
  "sets_cell (ReplayCell k) (ReplayRow r7) (\<lambda>t. t\<lparr>idempotency := dict_set k r7 (idempotency t)\<rparr>)"
  by (simp_all add: sets_cell_def fun_eq_iff histories_def, safe)
    (rename_tac x, case_tac x, simp_all add: map_of_dict_set)+

lemma each_set: "list_all2 (\<lambda>f (c, v). sets_cell c v f) (map (\<lambda>(k, r). f k r) d) (map (\<lambda>(k, r). (c k, v r)) d)"
  if "\<And>k r. sets_cell (c k) (v r) (f k r)"
  using that by (induction d) auto

text \<open>The cells of a table, and of all of them.\<close>

definition table_cells :: "Tables \<Rightarrow> string \<Rightarrow> (cell \<times> content) list" where
  "table_cells t table =
     (if table = ''pool_overrides'' then map (\<lambda>(k, r). (PoolCell k, PoolRow r)) (t_pool_overrides t)
      else if table = ''global_overrides'' then map (\<lambda>(k, r). (GlobalCell k, GlobalRow r)) (t_global_overrides t)
      else if table = ''pool_state'' then map (\<lambda>(k, r). (StateCell k, StateRow r)) (t_pool_state t)
      else if table = ''protected_containers'' then map (\<lambda>(k, r). (ProtectedCell k, ProtectedRow r)) (protected t)
      else if table = ''runner_status'' then map (\<lambda>(k, r). (StatusCell k, RunnerRow r)) (t_runner_status t)
      else if table = ''runner_jobs'' then map (\<lambda>(k, r). (JobCell k, JobContent r)) (runner_jobs t)
      else map (\<lambda>(k, r). (ReplayCell k, ReplayRow r)) (idempotency t))"

definition keyed_names :: "string list" where
  "keyed_names = map fst KEYED"

lemma keyed_names_simp: "keyed_names = [''pool_overrides'', ''global_overrides'', ''pool_state'', ''protected_containers'',
    ''runner_status'', ''runner_jobs'', ''idempotency'']"
  by (simp add: keyed_names_def KEYED_def)

lemma row_writes_set:
  assumes "table \<in> set keyed_names"
  shows "list_all2 (\<lambda>f (c, v). sets_cell c v f) (row_writes t table) (table_cells t table)"
  using assms unfolding keyed_names_simp list.set insert_iff empty_iff simp_thms
  by (elim disjE; simp add: row_writes_def table_cells_def; intro each_set sets_cells)

definition keys_unique :: "Tables \<Rightarrow> bool" where
  "keys_unique t \<longleftrightarrow> distinct (map fst (t_pool_overrides t)) \<and> distinct (map fst (t_global_overrides t)) \<and>
     distinct (map fst (t_pool_state t)) \<and> distinct (map fst (protected t)) \<and> distinct (map fst (t_runner_status t)) \<and>
     distinct (map fst (runner_jobs t)) \<and> distinct (map fst (idempotency t))"

text \<open>A file: keys are unique, and a table it does not have holds no rows.\<close>

definition source_ok :: "Source \<Rightarrow> bool" where
  "source_ok src \<longleftrightarrow> keys_unique (src_tables src) \<and>
     list_all (\<lambda>table. src_has src table \<or> row_writes (src_tables src) table = []) keyed_names"

lemma cells_keyed:
  assumes "keys_unique t" "table \<in> set keyed_names" "(c, v) \<in> set (table_cells t table)"
  shows "keyed t c = Some v"
  using assms unfolding keyed_names_simp list.set insert_iff empty_iff simp_thms keys_unique_def
  by (elim disjE; auto simp: table_cells_def)

lemma keyed_cells:
  assumes "keyed t c = Some v"
  shows "\<exists>table\<in>set keyed_names. c \<in> fst ` set (table_cells t table)"
  unfolding keyed_names_simp using assms
  by (cases c) (auto simp: table_cells_def image_iff dest!: map_of_SomeD split: prod.splits)

section \<open>Writing cells\<close>

text \<open>What the target holds beside the source's cells, with its histories.\<close>

definition beside :: "Tables \<Rightarrow> Tables \<Rightarrow> (cell \<Rightarrow> content option) \<times> TickRow Numbered \<times> EventRow Numbered \<times> AuditRow Numbered" where
  "beside src t = (keyed t ++ keyed src, histories t)"

definition copied :: "Tables \<Rightarrow> cell set \<Rightarrow> Tables \<Rightarrow> bool" where
  "copied src X t \<longleftrightarrow> (\<forall>c\<in>X. keyed t c = keyed src c)"

lemma sets_beside: "sets_cell c v f \<Longrightarrow> keyed src c = Some v \<Longrightarrow> beside src (f t) = beside src t"
  by (auto simp: beside_def sets_cell_def fun_eq_iff map_add_def split: option.splits)

lemma sets_copied: "sets_cell c v f \<Longrightarrow> keyed src c = Some v \<Longrightarrow> copied src X t \<Longrightarrow> copied src (insert c X) (f t)"
  by (auto simp: copied_def sets_cell_def)

definition both :: "(Tables \<Rightarrow> bool) \<Rightarrow> 'w Store \<Rightarrow> bool" where
  "both P s \<longleftrightarrow> P (live s) \<and> P (durable s)"

lemma writes_cells:
  assumes "list_all2 (\<lambda>f (c, v). sets_cell c v f) fs cvs" "\<forall>(c, v)\<in>set cvs. keyed src c = Some v"
    "each (store_write e) fs s = (r, s')" "both (\<lambda>t. beside src t = b) s"
  shows "both (\<lambda>t. beside src t = b) s' \<and>
    (\<forall>X. r = Inr () \<longrightarrow> both (copied src X) s \<longrightarrow> both (copied src (X \<union> fst ` set cvs)) s')"
  using assms
proof (induction fs cvs arbitrary: s rule: list_all2_induct)
  case Nil
  then show ?case by simp
next
  case (Cons f fs cv cvs)
  obtain c v where cv: "cv = (c, v)" by force
  have f: "sets_cell c v f" "keyed src c = Some v" using Cons by (auto simp: cv)
  obtain q u where u: "store_write e f s = (q, u)" by force
  have kept: "both (\<lambda>t. beside src t = b) u" using write_outcomes [OF u] Cons.prems(3) sets_beside [OF f]
    by (auto simp: both_def)
  show ?case
  proof (cases q)
    case (Inl err)
    then show ?thesis using Cons.prems(2) u kept by (auto simp: andThen_def)
  next
    case (Inr x)
    then have rest: "each (store_write e) fs u = (r, s')" using Cons.prems(2) u by (simp add: andThen_def)
    note ih = Cons.IH [OF _ rest kept]
    have "both (copied src (insert c X)) u" if "both (copied src X) s" for X
      using write_done [of e f s u] u Inr that sets_copied [OF f] by (auto simp: both_def)
    then show ?thesis using ih Cons.prems(1) by (fastforce simp: cv)
  qed
qed

section \<open>Copying the tables\<close>

lemma keyed_columns: "table \<in> set keyed_names \<Longrightarrow> src_has src table \<Longrightarrow> copied_columns src table \<noteq> []"
proof -
  assume t: "table \<in> set keyed_names" "src_has src table"
  have "list_all (\<lambda>t. filter (\<lambda>c. \<not> (t \<in> set HISTORY \<and> c = ''id'')) (map c_name (columns_of SQLITE_SCHEMA t)) \<noteq> []) keyed_names"
    by code_simp
  then show ?thesis using t by (auto simp: list_all_iff copied_columns_def source_columns_def)
qed

lemma copy_table_writes:
  assumes "source_ok src" "table \<in> set keyed_names"
  shows "copy_table e src table =
    andThen (each (store_write e) (row_writes (src_tables src) table)) (\<lambda>_. ret (length (row_writes (src_tables src) table)))"
proof (cases "src_has src table")
  case True
  then show ?thesis using keyed_columns [OF assms(2)] by (simp add: copy_table_def Let_def)
next
  case False
  then have "row_writes (src_tables src) table = []" using assms by (auto simp: source_ok_def list_all_iff)
  moreover have "copied_columns src table = []" using False by (simp add: copied_columns_def source_columns_def)
  ultimately show ?thesis by (simp add: copy_table_def andThen_def fun_eq_iff)
qed

lemma copy_tables_beside:
  assumes "source_ok src" "set ts \<subseteq> set keyed_names" "copy_tables e src ts s = (r, s')" "both (\<lambda>t. beside (src_tables src) t = b) s"
  shows "both (\<lambda>t. beside (src_tables src) t = b) s' \<and>
    (\<forall>X. \<not> isl r \<longrightarrow> both (copied (src_tables src) X) s \<longrightarrow>
      both (copied (src_tables src) (X \<union> (\<Union>table\<in>set ts. fst ` set (table_cells (src_tables src) table)))) s')"
  using assms(2-)
proof (induction ts arbitrary: s r)
  case Nil
  then show ?case by auto
next
  case (Cons table ts)
  let ?S = "src_tables src"
  have table: "table \<in> set keyed_names" using Cons.prems(1) by simp
  have cells: "\<forall>(c, v)\<in>set (table_cells ?S table). keyed ?S c = Some v"
    using cells_keyed [OF _ table] assms(1) by (auto simp: source_ok_def)
  obtain q u where u: "each (store_write e) (row_writes ?S table) s = (q, u)" by force
  note w = writes_cells [OF row_writes_set [OF table] cells u Cons.prems(3)]
  have step: "copy_table e src table s = (case q of Inl err \<Rightarrow> Inl err | Inr _ \<Rightarrow> Inr (length (row_writes ?S table)), u)"
    using u by (auto simp: copy_table_writes [OF assms(1) table] andThen_def split: sum.splits)
  show ?case
  proof (cases q)
    case (Inl err)
    then show ?thesis using Cons.prems(2) step w by (auto simp: andThen_def)
  next
    case (Inr x)
    obtain r2 where rest: "copy_tables e src ts u = (r2, s')" and r: "isl r = isl r2"
      using Cons.prems(2) step Inr by (auto simp: andThen_def split: prod.splits sum.splits)
    have ih: "both (\<lambda>t. beside ?S t = b) s'"
        "\<And>X. \<not> isl r2 \<Longrightarrow> both (copied ?S X) u \<Longrightarrow> both (copied ?S (X \<union> (\<Union>table\<in>set ts. fst ` set (table_cells ?S table)))) s'"
      using Cons.IH [OF _ rest] w Cons.prems(1) by auto
    have "both (copied ?S (X \<union> fst ` set (table_cells ?S table))) u" if "both (copied ?S X) s" for X
      using w Inr that by simp
    then show ?thesis using ih r by (fastforce simp: Un_assoc)
  qed
qed


definition demo_source :: Source where
  "demo_source = \<lparr>src_has = (\<lambda>t. t \<noteq> ''runner_jobs''),
     src_tables = empty_tables\<lparr>t_global_overrides := [(''paused'', ''1'', 5)], protected := [(''gh-runner-ci-a'', 7)]\<rparr>\<rparr>"


section \<open>The copied columns fit MariaDB's schema\<close>

lemma migration_fits_schema:
  "list_all (\<lambda>(table, key). let cols = map c_name (columns_of SQLITE_SCHEMA table)
       in upsert_fits MARIADB_SCHEMA (table, cols, backticked key, updated_columns cols key)) KEYED \<and>
   list_all (\<lambda>table. insert_fits MARIADB_SCHEMA (table, filter (\<lambda>c. c \<noteq> ''id'') (map c_name (columns_of SQLITE_SCHEMA table)))) HISTORY \<and>
   set (map fst KEYED @ HISTORY) = set (table_names SQLITE_SCHEMA)"
  by code_simp

end
