(* ===== verification/Serving.thy ===== *)
theory Serving
  imports Effect
begin

text \<open>
  \<open>ApiServer\<close> of \<open>orchestrator/rorch/server/app.py\<close>: a waitress server whose event loop owns one
  thread, and how it is stopped. What waitress, the trigger of its event loop and the thread do
  is the record \<open>ServerEnv\<close>; sockets are not modelled.
\<close>

definition API_THREADS :: int where "API_THREADS = 8"
definition MAX_REQUEST_BODY_BYTES :: int where "MAX_REQUEST_BODY_BYTES = 1024 * 1024"
definition STOP_TIMEOUT_SECONDS :: rat where "STOP_TIMEOUT_SECONDS = 3"

record 'w ServerEnv =
  sv_clock :: "('w, rat) eff"
  sv_start :: "('w, unit) eff"
  sv_shutdown :: "rat \<Rightarrow> ('w, unit) eff"
  sv_pull_trigger :: "('w, unit) eff"
  sv_join :: "rat \<Rightarrow> ('w, unit) eff"
  sv_alive :: "('w, bool) eff"

record 'w ApiServer =
  srv_stopped :: bool
  srv_world :: 'w

definition new_server :: "'w \<Rightarrow> 'w ApiServer" where
  "new_server w = \<lparr>srv_stopped = False, srv_world = w\<rparr>"

definition on_server :: "('w, 'a) eff \<Rightarrow> ('w ApiServer, 'a) eff" where
  "on_server m s = (case m (srv_world s) of (r, w) \<Rightarrow> (r, s\<lparr>srv_world := w\<rparr>))"

definition server_start :: "'w ServerEnv \<Rightarrow> ('w ApiServer, unit) eff" where
  "server_start e = on_server (sv_start e)"

definition thread_ended :: "'w ServerEnv \<Rightarrow> ('w ApiServer, bool) eff" where
  "thread_ended e = andThen (on_server (sv_alive e)) (\<lambda>alive. ret (\<not> alive))"

text \<open>\<open>stop\<close>: the flag makes a second call look at the thread only.\<close>

definition server_stop :: "'w ServerEnv \<Rightarrow> rat \<Rightarrow> ('w ApiServer, bool) eff" where
  "server_stop e timeout =
     andThen (read_state srv_stopped) (\<lambda>stopped.
       if stopped then thread_ended e
       else andThen (update_state (\<lambda>s. s\<lparr>srv_stopped := True\<rparr>)) (\<lambda>_.
            andThen (on_server (sv_clock e)) (\<lambda>now.
              let deadline = now + timeout
              in andThen (on_server (sv_shutdown e timeout)) (\<lambda>_.
                 andThen (on_server (sv_pull_trigger e)) (\<lambda>_.
                 andThen (on_server (sv_clock e)) (\<lambda>later.
                 andThen (on_server (sv_join e (max (1 / 2) (deadline - later)))) (\<lambda>_.
                   thread_ended e)))))))"

text \<open>Documented times: a wait takes no longer than its timeout, and the rest takes no time. \<open>shown\<close> is
  what the clock shows.\<close>

definition waits_end :: "'w ServerEnv \<Rightarrow> ('w \<Rightarrow> rat) \<Rightarrow> bool" where
  "waits_end e shown \<longleftrightarrow>
     (\<forall>w. \<exists>w'. sv_clock e w = (Inr (shown w), w') \<and> shown w' = shown w) \<and>
     (\<forall>w d. \<exists>w'. sv_shutdown e d w = (Inr (), w') \<and> shown w \<le> shown w' \<and> shown w' \<le> shown w + d) \<and>
     (\<forall>w. \<exists>w'. sv_pull_trigger e w = (Inr (), w') \<and> shown w' = shown w) \<and>
     (\<forall>w d. \<exists>w'. sv_join e d w = (Inr (), w') \<and> shown w \<le> shown w' \<and> shown w' \<le> shown w + d) \<and>
     (\<forall>w. \<exists>a w'. sv_alive e w = (Inr a, w') \<and> shown w' = shown w)"

text \<open>Stopping takes at most half a second more than its timeout, and stopping again takes no time.\<close>

lemma stop_bounded:
  assumes "waits_end e shown"
  shows "\<exists>ended s'. server_stop e timeout s = (Inr ended, s') \<and> srv_stopped s' \<and>
    shown (srv_world s') \<le> shown (srv_world s) + (if srv_stopped s then 0 else max timeout 0 + 1 / 2)"
proof -
  let ?w = "srv_world s"
  obtain w1 where w1: "sv_clock e ?w = (Inr (shown ?w), w1)" "shown w1 = shown ?w" using assms unfolding waits_end_def by meson
  obtain w2 where w2: "sv_shutdown e timeout w1 = (Inr (), w2)" "shown w2 \<le> shown w1 + timeout" "shown w1 \<le> shown w2"
    using assms unfolding waits_end_def by meson
  obtain w3 where w3: "sv_pull_trigger e w2 = (Inr (), w3)" "shown w3 = shown w2" using assms unfolding waits_end_def by meson
  obtain w4 where w4: "sv_clock e w3 = (Inr (shown w3), w4)" "shown w4 = shown w3" using assms unfolding waits_end_def by meson
  define d where "d = max (1 / 2) (shown ?w + timeout - shown w3)"
  obtain w5 where w5: "sv_join e d w4 = (Inr (), w5)" "shown w5 \<le> shown w4 + d" using assms unfolding waits_end_def by meson
  obtain a w6 where w6: "sv_alive e w5 = (Inr a, w6)" "shown w6 = shown w5" using assms unfolding waits_end_def by meson
  obtain a' w7 where w7: "sv_alive e ?w = (Inr a', w7)" "shown w7 = shown ?w" using assms unfolding waits_end_def by meson
  have "shown w6 \<le> shown ?w + (max timeout 0 + 1 / 2)" using w1 w2 w3 w4 w5 w6 by (simp add: d_def max_def split: if_splits)
  then show ?thesis
    using w1 w2 w3 w4 w5 w6 w7
    by (cases "srv_stopped s") (simp_all add: server_stop_def andThen_def thread_ended_def on_server_def Let_def d_def)
qed

end
