(* ===== verification/StartupFacts.thy ===== *)
theory StartupFacts
  imports DaemonFacts ForgeFacts
begin

text \<open>
  What can keep the daemon from starting.
\<close>

section \<open>The look for public repositories\<close>

definition repo_url :: "PoolConfig \<Rightarrow> string" where
  "repo_url p = api_base (forge_for 0 p) @ rewrite_path (forge_for 0 p) (''/repos/'' @ pool_owner p @ ''/'' @ pool_repo p)"

text \<open>The forge of a pool answers every request for the pool's repository with 429.\<close>

definition too_many_requests :: "'w HttpEnv \<Rightarrow> PoolConfig \<Rightarrow> bool" where
  "too_many_requests e p \<longleftrightarrow>
     (\<forall>c v. \<exists>h body v'. http_op e ''GET'' (repo_url p) (pool_pat p) c v = (HttpFault 429 h body, v'))"

lemma limited_request_raises:
  assumes "\<And>c v. \<exists>h body v'. http_op e ''GET'' (api_base fg @ rewrite_path fg path) pat c v = (HttpFault 429 h body, v')"
  shows "\<exists>t reason s'. request e fg pat path ''GET'' s = (Inl (GitHubRateLimitError t reason), s')"
proof (cases "dict_get (blocked_until s) (digest e pat) 0 \<le> fst (wall_op e (gh_world s))")
  case False
  then show ?thesis
    using request_blocked [where e = e and pat = pat and s = s and now = "fst (wall_op e (gh_world s))" and w = "snd (wall_op e (gh_world s))"] by fastforce
next
  case True
  obtain h body w' where "http_op e ''GET'' (api_base fg @ rewrite_path fg path) pat
      (map_option cr_etag (map_of (conditional_cache s) (digest e pat, rewrite_path fg path))) (snd (wall_op e (gh_world s))) = (HttpFault 429 h body, w')"
    using assms by blast
  from rate_limited_token_silent [OF _ True this] show ?thesis by auto
qed

lemma rewrite_path_reserve: "rewrite_path (forge_for r p) = rewrite_path (forge_for 0 p)"
  by (simp add: forge_for_def github_forge_def)

lemma public_check_raises:
  assumes "pool_repo p \<noteq> []" "too_many_requests (o_http o') p"
  shows "isl (fst (on_shared (on_clients (forge_is_public (o_http o') p)) b))"
proof -
  let ?s = "(sh_forge (d_world (world b)))\<lparr>fc_world := sh_world (d_world (world b))\<rparr>"
  have url: "\<And>c v. \<exists>h body v'. http_op (o_http o') ''GET'' (api_base (forge_for (fc_reserve ?s) p) @
      rewrite_path (forge_for (fc_reserve ?s) p) (''/repos/'' @ pool_owner p @ ''/'' @ pool_repo p)) (pool_pat p) c v = (HttpFault 429 h body, v')"
    using assms(2) by (simp only: too_many_requests_def repo_url_def api_base_forge_for [of "fc_reserve _"] rewrite_path_reserve [of "fc_reserve _"])
  from limited_request_raises [OF url, of "(client_for p ?s)\<lparr>gh_world := fc_world ?s\<rparr>"]
  show ?thesis using assms(1)
    by (auto simp: on_shared_def on_world_def on_daemon_def on_clients_def forge_is_public_def on_forge_def is_public_repo_def
        get_request_def andThen_def)
qed

lemma andThen_isl: "isl (fst (m s)) \<Longrightarrow> isl (fst (andThen m f s))"
  by (auto simp: andThen_def split: prod.splits sum.splits)

lemma andThen_isl_later: "(\<And>x s'. isl (fst (f x s'))) \<Longrightarrow> isl (fst (andThen m f s))"
  by (auto simp: andThen_def split: prod.splits sum.splits)

lemma public_repo_pools_raises:
  assumes "p \<in> set ps" "pool_repo p \<noteq> []" "too_many_requests (o_http o') p"
  shows "isl (fst (public_repo_pools o' ps b))"
  using assms(1)
proof (induction ps arbitrary: b)
  case Nil
  then show ?case by simp
next
  case (Cons q ps)
  show ?case
  proof (cases "q = p")
    case True
    then show ?thesis using assms(2) by (simp add: andThen_isl [OF public_check_raises [OF assms(2,3)]])
  next
    case False
    then have "isl (fst (public_repo_pools o' ps s))" for s using Cons by simp
    then show ?thesis unfolding public_repo_pools.simps by (intro andThen_isl_later andThen_isl)
  qed
qed

text \<open>C20. A rate limit keeps the daemon from starting: while GitHub answers the token of some
  repository-level pool with 429, the look for public repositories raises out of \<open>main()\<close> before
  the API and the loop start, although it is only there to warn and is documented never to stop a
  deployment from starting.\<close>

theorem rate_limit_stops_startup:
  assumes "build_runtime o' w = (Inr (rt, b), w1)" "p \<in> set (rt_pools rt)" "pool_repo p \<noteq> []"
    and "too_many_requests (o_http o') p"
  shows "isl (fst (start_daemon o' g txt w))"
proof -
  have "isl (fst (prepare o' rt g txt b))" unfolding prepare_def
    by (rule andThen_isl [OF public_repo_pools_raises [OF assms(2-4)]])
  then show ?thesis using assms(1) by (auto simp: start_daemon_def andThen_def split: prod.splits sum.splits)
qed

definition limited_world :: "nat Outside" where
  "limited_world = demo_world
     \<lparr>o_http := (o_http demo_world)\<lparr>http_op := (\<lambda>_ _ _ _ w. (HttpFault 429 [(''Retry-After'', ''60'')] ''slow down'', w))\<rparr>,
      o_env := map_of [(''GITHUB_PAT'', ''ghp_x''), (''GITHUB_OWNER'', ''acme''), (''GITHUB_REPO'', ''app''), (''RORCH_DB'', ''off'')]\<rparr>"

theorem rate_limit_stops_startup_witness:
  "(case fst (build_runtime limited_world 0) of Inl _ \<Rightarrow> False | Inr (rt, b) \<Rightarrow> map pool_repo (rt_pools rt) = [''app'']) \<and>
   isl (fst (start_daemon limited_world ''t'' (\<lambda>_. []) 0))"
proof -
  have run: "case fst (build_runtime limited_world 0) of Inl _ \<Rightarrow> False | Inr (rt, b) \<Rightarrow> map pool_repo (rt_pools rt) = [''app'']" by code_simp
  then obtain rt b w1 where b: "build_runtime limited_world 0 = (Inr (rt, b), w1)"
    by (cases "build_runtime limited_world 0") (auto split: sum.splits)
  have "map pool_repo (rt_pools rt) = [''app'']" using run b by simp
  then obtain p where p: "p \<in> set (rt_pools rt)" "pool_repo p \<noteq> []" by (cases "rt_pools rt") auto
  have "too_many_requests (o_http limited_world) p" by (simp add: too_many_requests_def limited_world_def)
  from rate_limit_stops_startup [OF b p this] run show ?thesis by blast
qed

end
