(* ===== verification/Spec2Isabelle.thy ===== *)
theory Spec2Isabelle
  imports Banner EndToEnd FederationFacts GlobalCap MigrationFacts Serving StartupFacts
begin

text \<open>
  The runner orchestrator RORCH (\<open>src/orchestrator/rorch\<close>) and its migration script
  (\<open>src/scripts/migrate-sqlite-to-mariadb.py\<close>), modelled and verified.

  \<^bold>\<open>The program.\<close> One process keeps pools of self-hosted CI runners on one host. The main loop
  (\<open>__main__.py\<close>) resolves the configuration, talks to its peers and hands every pool to a worker;
  a worker runs one tick of the scaler (\<open>scaler.py\<close>): it asks the forge (\<open>github_client.py\<close>,
  \<open>gitea_client.py\<close>) for queued jobs and registered runners, asks Docker (\<open>docker_client.py\<close>) for
  containers, reserves slots under the global cap and starts and removes runners. A second set of
  workers cleans up. State and history live in SQLite or MariaDB (\<open>store.py\<close>, \<open>dialect.py\<close>). The HTTP
  API (\<open>server/\<close>) shows that state and changes it: pauses, scales, stops, and edits pools through
  override rows that \<open>resolver.py\<close> lays over \<open>config.yml\<close> at the next turn of the loop. Peers on other
  hosts (\<open>federation.py\<close>) publish snapshots from which each host computes its share of a queue.

  \<^bold>\<open>How code is modelled.\<close> An operation that reads or changes state is an action
  \<open>'s \<Rightarrow> (py_error + 'a) \<times> 's\<close> (theory \<open>Effect\<close>): it returns or raises, and the state it leaves is kept
  in both cases. \<open>except\<close>, \<open>finally\<close> and the swallowing of an error are combinators. Python's
  integers are \<open>int\<close>; floats are rationals, with infinities and NaN (\<open>pyfloat\<close>) where they can come from
  outside; JSON, YAML and \<open>object\<close> are \<open>pyval\<close>; strings are lists of characters below 256; a dict is an
  association list with its order. What is not in the repository is an argument: HTTP
  (\<open>HttpEnv\<close>), the Docker command line (\<open>DockerEnv\<close>), the database connection (\<open>StoreEnv\<close>),
  clocks and threads (\<open>RuntimeEnv\<close>), waitress (\<open>ServerEnv\<close>), Flask's request and response
  (\<open>Request\<close>, \<open>Response\<close>), the text of floats, parsed YAML. None of them is given a definition; each
  theorem that needs something of them says so in a hypothesis.

  \<^bold>\<open>Theories, from the bottom.\<close>
  \<^item> \<open>Prelude\<close>, \<open>PyStr\<close>, \<open>PyVal\<close>, \<open>Effect\<close>, \<open>PyJson\<close>, \<open>PyJsonFacts\<close>: results, dictionaries, strings,
    Python values and their coercions, actions with the collections \<open>keeps_intros\<close>,
    \<open>yields_intros\<close> and \<open>preserves_intros\<close>, and \<open>json\<close> with the proof that \<open>loads\<close> undoes \<open>dumps\<close>.
  \<^item> \<open>Config\<close>, \<open>Loading\<close>: \<open>config.py\<close>, the pool record, derived properties, validation, and the loaders.
  \<^item> \<open>HostMetrics\<close>, \<open>Federation\<close>, \<open>FederationFacts\<close>: \<open>hostmetrics.py\<close>, \<open>federation.py\<close>; the split of
    a queue, peers' snapshots, the order on the ages of jobs.
  \<^item> \<open>Protocols\<close>, \<open>Scaler\<close>, \<open>AllocationFacts\<close>, \<open>ScalerFacts\<close>, \<open>TickFacts\<close>, \<open>GlobalCap\<close>: \<open>protocols.py\<close>
    and \<open>scaler.py\<close>. A tick is one action; \<open>GlobalCap\<close> is the step relation of pools that reserve and
    start runners at the same time, which \<open>_reserve_spawns\<close> refines.
  \<^item> \<open>GithubClient\<close>, \<open>ForgeClient\<close>, \<open>ForgeFacts\<close>, \<open>Repositories\<close>: requests with caches, rate limits and
    pacing, the queue scan, Gitea, and the choice of the client for a pool.
  \<^item> \<open>Version\<close>, \<open>DockerClient\<close>, \<open>DockerFacts\<close>: \<open>version.py\<close>, \<open>docker_client.py\<close>: images, starting a runner,
    the reapers and prunes.
  \<^item> \<open>Dialect\<close>, \<open>DialectFacts\<close>, \<open>Store\<close>, \<open>StoreFacts\<close>, \<open>Migration\<close>, \<open>MigrationFacts\<close>: URLs, statements and
    schemas as data; the store as the tables a connection sees and the tables that are
    committed, with disconnects, reconnects and partial failure; the migration script.
  \<^item> \<open>Exclusive\<close>, \<open>Lanes\<close>: \<open>lanes.py\<close>, one job per lane on a bounded pool of workers.
  \<^item> \<open>Resolver\<close>, \<open>ResolverFacts\<close>: \<open>resolver.py\<close>, override rows over \<open>config.yml\<close>.
  \<^item> \<open>Auth\<close>, \<open>AuthFacts\<close>, \<open>Replay\<close>, \<open>Control\<close>, \<open>ControlFacts\<close>, \<open>ConfigRows\<close>, \<open>Payloads\<close>, \<open>PayloadFacts\<close>,
    \<open>ReadRoutes\<close>, \<open>ReadFacts\<close>, \<open>Serving\<close>: \<open>server/\<close>, every endpoint behind its decorators, and the server
    thread. \<open>Replay\<close> interleaves requests that share an idempotency key.
  \<^item> \<open>Wiring\<close>, \<open>Daemon\<close>, \<open>Dashboard\<close>, \<open>Startup\<close>, \<open>Banner\<close>: \<open>__main__.py\<close>. \<open>Wiring\<close> puts the worlds of the
    components into each other the way the objects hold one another; \<open>daemon_step\<close> is the whole
    process; \<open>serve\<close> is one request to the API of the running process.
  \<^item> \<open>DaemonFacts\<close>, \<open>LoopFacts\<close>, \<open>ServeFacts\<close>, \<open>StartupFacts\<close>, \<open>PatchFacts\<close>, \<open>EndToEnd\<close>: facts about the whole
    process and across components.

  \<^bold>\<open>What is shown.\<close> Of capacity: the cap is never exceeded in any interleaving, every tick returns what
  it reserved, the round-robin and the federated split hand out exactly what is there, fairly. Of
  safety: what pausing, draining and protection forbid does not happen, the reapers spare what they
  must, tokens reach their own server only. Of the store: the end of a job is final, reports come
  once, overrides come back as saved, one reconnect repairs an idle connection, opening ends,
  a migration can be repeated. Of the API: the control token guards control, guessing is slow, a
  key runs its view once, reading changes nothing, no request leaves rows that stop the resolver.
  Of the whole: no request and no failure outside stops the main loop (\<open>LoopFacts\<close>, \<open>ServeFacts\<close>),
  the books balance in every reachable state (\<open>DaemonFacts\<close>), and an accepted \<open>PATCH\<close> is what
  the loop reads next (\<open>EndToEnd\<close>). Where the code does otherwise than it says, the theorem says what
  it does: \<open>rate_limit_stops_startup\<close>, \<open>readonly_visit_gets_control\<close>, and lemmas beside them.

  \<^bold>\<open>Interfaces.\<close> \<open>keyed_lock\<close> (\<open>Exclusive\<close>): claiming and releasing keys, with mutual exclusion proved once;
  the lanes and the idempotency keys in flight are its instances. \<open>repository_source\<close> (\<open>Repositories\<close>):
  what the scaler relies on when it lists repositories, discharged for the forge clients.
  \<open>age\<close> is an instance of \<open>linorder\<close>, as ages are compared with \<open>>=\<close> in the code.

  \<^bold>\<open>Bounds.\<close> \<open>loads\<close> reads with fuel twice the length of the text; \<open>loads_any_fuel\<close>: more changes nothing.
  Repository pages are read with \<open>page_fuel\<close>, as a server may never send a short page;
  \<open>repo_pages_more_fuel\<close>: a result under some bound is the result under any larger one. Opening the store
  takes \<open>open_fuel\<close> attempts; \<open>open_store_ends\<close> gives a number that is enough when sleeping advances the
  clock. The allocation rounds and the split are total.

  \<^bold>\<open>Not modelled.\<close> Log lines, but for those of the banner; sockets, Flask's routing and waitress; signal
  handlers (\<open>daemon_step\<close> may stop at any point instead); the HTML of the dashboard. Threads of one tick
  take effect in the order of submission, and the jobs of different workers one after the other: what their
  overlap can do to shared state is modelled where the code guards it, in \<open>GlobalCap\<close>, \<open>Lanes\<close>
  and \<open>Replay\<close>. YAML fields of another type than the pool's field are kept as values and stop at
  \<open>typed_pool\<close>. MariaDB's comparison of keys without regard to case and its column widths are left
  out, and so are characters above 255. \<open>__init__.py\<close> holds a comment only.
\<close>

end
